(* ===== verification/Prelude.thy ===== *)
theory Prelude
  imports Main "HOL-Library.Finite_Map" "HOL-Library.List_Lexorder" "HOL-Library.Char_ord"
    "HOL-Library.Sublist"
begin

text \<open>
  The prelude of the development: how a Go function that talks to the outside world is
  represented, the proof rules for that representation, and small lemmas on lists and
  maps that the components share.

  \<^item> A Go computation is a function of the history of external calls made so far. It yields
    an outcome (a returned value, a panic, or non-termination) and the list of the calls it
    made itself, in order. Go's error values are ordinary returned values, so an early
    return on \<open>err != nil\<close> is a \<open>case\<close> on a sum, most often written with \<open>try_go\<close>.
  \<^item> \<open>bind_go\<close> sequences two computations, \<open>defer_go\<close> is Go's \<open>defer\<close>, \<open>deref\<close> is a pointer
    dereference that panics on \<open>nil\<close>, \<open>request\<close> is one external call.
  \<^item> \<open>hoare P m Q S\<close> and \<open>emits P m\<close> are the two program logics: the first carries an
    assertion on the whole history through a computation, the second says that each call a
    computation makes satisfies a predicate. Their rules are collected in \<open>hoare_intros\<close> and
    \<open>emits_intros\<close>.
\<close>

section \<open>Collections of facts\<close>

named_theorems go_simps \<open>unfolding one step of a computation\<close>
named_theorems emits_intros \<open>rules for the calls a computation makes\<close>
named_theorems hoare_intros \<open>rules for assertions on the history\<close>
named_theorems returns_intros \<open>rules for computations that always return\<close>

section \<open>Computations\<close>

datatype stop = Panicked string | Diverged

datatype 'a outcome = Return 'a | Stop stop

type_synonym ('ev, 'a) go = "'ev list \<Rightarrow> 'a outcome \<times> 'ev list"

definition ret :: "'a \<Rightarrow> ('ev, 'a) go" where
  "ret x = (\<lambda>t. (Return x, []))"

definition halt :: "stop \<Rightarrow> ('ev, 'a) go" where
  "halt s = (\<lambda>t. (Stop s, []))"

definition bind_go :: "('ev, 'a) go \<Rightarrow> ('a \<Rightarrow> ('ev, 'b) go) \<Rightarrow> ('ev, 'b) go" where
  "bind_go m f = (\<lambda>t. case m t of
      (Return x, e1) \<Rightarrow> (case f x (t @ e1) of (r, e2) \<Rightarrow> (r, e1 @ e2))
    | (Stop s, e1) \<Rightarrow> (Stop s, e1))"

definition try_go :: "('ev, 'e + 'a) go \<Rightarrow> ('a \<Rightarrow> ('ev, 'e + 'b) go) \<Rightarrow> ('ev, 'e + 'b) go" where
  "try_go m f = bind_go m (\<lambda>r. case r of Inl e \<Rightarrow> ret (Inl e) | Inr x \<Rightarrow> f x)"

definition deref :: "'a option \<Rightarrow> ('ev, 'a) go" where
  "deref p = (case p of None \<Rightarrow> halt (Panicked ''nil pointer dereference'') | Some x \<Rightarrow> ret x)"

definition request :: "('ev list \<Rightarrow> 'r) \<Rightarrow> ('r \<Rightarrow> 'ev) \<Rightarrow> ('ev, 'r) go" where
  "request f mk = (\<lambda>t. (Return (f t), [mk (f t)]))"

text \<open>
  \<open>defer\<close>: the deferred call runs when the body has returned or panicked, and the body's
  outcome stands unless the deferred call itself panics. A body that does not come back
  never reaches it.
\<close>

definition defer_go :: "('ev, 'a) go \<Rightarrow> ('ev, unit) go \<Rightarrow> ('ev, 'a) go" where
  "defer_go m d = (\<lambda>t. case m t of (r, e1) \<Rightarrow>
     if r = Stop Diverged then (r, e1)
     else (case d (t @ e1) of
        (Return _, e2) \<Rightarrow> (r, e1 @ e2)
      | (Stop s, e2) \<Rightarrow> (Stop s, e1 @ e2)))"

text \<open>Code that makes no external call but may panic is an \<open>outcome\<close> of its own.\<close>

definition bind_outcome :: "'a outcome \<Rightarrow> ('a \<Rightarrow> 'b outcome) \<Rightarrow> 'b outcome" where
  "bind_outcome m f = (case m of Return x \<Rightarrow> f x | Stop s \<Rightarrow> Stop s)"

definition run_outcome :: "'a outcome \<Rightarrow> ('ev, 'a) go" where
  "run_outcome r = (\<lambda>t. (r, []))"

lemma bind_outcome_simps [simp, go_simps]:
  "bind_outcome (Return x) f = f x" "bind_outcome (Stop s) f = Stop s"
  by (simp_all add: bind_outcome_def)

lemma bind_outcome_Return_iff: "bind_outcome m f = Return y \<longleftrightarrow> (\<exists>x. m = Return x \<and> f x = Return y)"
  by (cases m) auto

lemma run_outcome_simps [simp, go_simps]:
  "run_outcome (Return x) = ret x" "run_outcome (Stop s) = halt s"
  by (simp_all add: run_outcome_def ret_def halt_def)

lemma ret_apply [simp, go_simps]: "ret x t = (Return x, [])"
  by (simp add: ret_def)

lemma halt_apply [simp, go_simps]: "halt s t = (Stop s, [])"
  by (simp add: halt_def)

lemma request_apply [simp, go_simps]: "request f mk t = (Return (f t), [mk (f t)])"
  by (simp add: request_def)

lemma deref_Some [simp, go_simps]: "deref (Some x) = ret x"
  by (simp add: deref_def)

lemma deref_None [simp, go_simps]: "deref None = halt (Panicked ''nil pointer dereference'')"
  by (simp add: deref_def)

lemma bind_ret [simp, go_simps]: "bind_go (ret x) f = f x"
  by (rule ext) (simp add: bind_go_def)

lemma bind_halt [simp, go_simps]: "bind_go (halt s) f = halt s"
  by (rule ext) (simp add: bind_go_def)

lemma bind_ret_right [simp]: "bind_go m ret = m"
  by (rule ext) (simp add: bind_go_def split: prod.splits outcome.splits)

lemma bind_assoc: "bind_go (bind_go m f) g = bind_go m (\<lambda>x. bind_go (f x) g)"
  by (rule ext) (auto simp: bind_go_def split: prod.splits outcome.splits)

lemma try_ret_Inl [simp, go_simps]: "try_go (ret (Inl e)) f = ret (Inl e)"
  unfolding try_go_def by (subst bind_ret) (rule sum.case)

lemma try_ret_Inr [simp, go_simps]: "try_go (ret (Inr x)) f = f x"
  unfolding try_go_def by (subst bind_ret) (rule sum.case)

lemma fst_bind [go_simps]:
  "fst (bind_go m f t) = (case fst (m t) of
      Return x \<Rightarrow> fst (f x (t @ snd (m t)))
    | Stop s \<Rightarrow> Stop s)"
  by (simp add: bind_go_def split: prod.splits outcome.splits)

lemma snd_bind [go_simps]:
  "snd (bind_go m f t) = snd (m t) @ (case fst (m t) of
      Return x \<Rightarrow> snd (f x (t @ snd (m t)))
    | Stop s \<Rightarrow> [])"
  by (simp add: bind_go_def split: prod.splits outcome.splits)

lemma bind_request_apply [go_simps]:
  "bind_go (request g mk) f t =
     (fst (f (g t) (t @ [mk (g t)])), mk (g t) # snd (f (g t) (t @ [mk (g t)])))"
  by (simp add: prod_eq_iff fst_bind snd_bind)

lemma fst_defer [go_simps]:
  "fst (defer_go m d t) = (if fst (m t) = Stop Diverged then Stop Diverged
     else (case fst (d (t @ snd (m t))) of Return _ \<Rightarrow> fst (m t) | Stop s \<Rightarrow> Stop s))"
  by (simp add: defer_go_def split: prod.splits outcome.splits)

lemma snd_defer [go_simps]:
  "snd (defer_go m d t) = snd (m t) @
     (if fst (m t) = Stop Diverged then [] else snd (d (t @ snd (m t))))"
  by (simp add: defer_go_def split: prod.splits outcome.splits)

text \<open>The error-propagating form is associative too.\<close>

lemma try_assoc: "try_go (try_go m f) g = try_go m (\<lambda>x. try_go (f x) g)"
proof -
  let ?k = "\<lambda>h r. case r of Inl e \<Rightarrow> ret (Inl e) | Inr x \<Rightarrow> h x"
  have "bind_go (?k f r) (?k g) = ?k (\<lambda>x. bind_go (f x) (?k g)) r" for r
    by (cases r) (auto simp: fun_eq_iff)
  then show ?thesis by (simp only: try_go_def bind_assoc)
qed

section \<open>Which calls a computation makes\<close>

definition emits :: "('ev \<Rightarrow> bool) \<Rightarrow> ('ev, 'a) go \<Rightarrow> bool" where
  "emits P m \<longleftrightarrow> (\<forall>t. \<forall>ev \<in> set (snd (m t)). P ev)"

lemma emitsI: "(\<And>t ev. ev \<in> set (snd (m t)) \<Longrightarrow> P ev) \<Longrightarrow> emits P m"
  by (simp add: emits_def)

lemma emitsD: "emits P m \<Longrightarrow> ev \<in> set (snd (m t)) \<Longrightarrow> P ev"
  by (simp add: emits_def)

lemma emits_ret [simp, emits_intros]: "emits P (ret x)"
  by (simp add: emits_def)

lemma emits_halt [simp, emits_intros]: "emits P (halt s)"
  by (simp add: emits_def)

lemma emits_deref [simp, emits_intros]: "emits P (deref p)"
  by (cases p) simp_all

lemma emits_request [emits_intros]: "(\<And>r. P (mk r)) \<Longrightarrow> emits P (request f mk)"
  by (simp add: emits_def)

lemma emits_bind [emits_intros]:
  assumes "emits P m" and "\<And>x. emits P (f x)"
  shows "emits P (bind_go m f)"
proof (rule emitsI)
  fix t ev
  assume "ev \<in> set (snd (bind_go m f t))"
  with assms show "P ev"
    by (cases "fst (m t)") (auto simp: snd_bind dest: emitsD)
qed

lemma emits_try [emits_intros]:
  "emits P m \<Longrightarrow> (\<And>x. emits P (f x)) \<Longrightarrow> emits P (try_go m f)"
  unfolding try_go_def by (rule emits_bind) (auto split: sum.splits)

lemma emits_defer [emits_intros]:
  "emits P m \<Longrightarrow> emits P d \<Longrightarrow> emits P (defer_go m d)"
  by (auto simp: snd_defer intro!: emitsI dest: emitsD split: if_splits)

lemma emits_if [emits_intros]:
  "(b \<Longrightarrow> emits P m) \<Longrightarrow> (\<not> b \<Longrightarrow> emits P n) \<Longrightarrow> emits P (if b then m else n)"
  by simp

lemma emits_case_sum [emits_intros]:
  "(\<And>e. r = Inl e \<Longrightarrow> emits P (f e)) \<Longrightarrow> (\<And>x. r = Inr x \<Longrightarrow> emits P (g x)) \<Longrightarrow>
     emits P (case r of Inl e \<Rightarrow> f e | Inr x \<Rightarrow> g x)"
  by (cases r) auto

lemma emits_case_option [emits_intros]:
  "(p = None \<Longrightarrow> emits P m) \<Longrightarrow> (\<And>x. p = Some x \<Longrightarrow> emits P (f x)) \<Longrightarrow>
     emits P (case p of None \<Rightarrow> m | Some x \<Rightarrow> f x)"
  by (cases p) auto

lemma emits_case_prod [emits_intros]:
  "(\<And>a b. p = (a, b) \<Longrightarrow> emits P (f a b)) \<Longrightarrow> emits P (case p of (a, b) \<Rightarrow> f a b)"
  by (cases p) auto

lemma emits_mono: "emits P m \<Longrightarrow> (\<And>ev. P ev \<Longrightarrow> Q ev) \<Longrightarrow> emits Q m"
  by (simp add: emits_def)

section \<open>What a computation may return\<close>

definition yields :: "('ev, 'a) go \<Rightarrow> ('a \<Rightarrow> bool) \<Rightarrow> bool" where
  "yields m Q \<longleftrightarrow> (\<forall>t x. fst (m t) = Return x \<longrightarrow> Q x)"

lemma yieldsD: "yields m Q \<Longrightarrow> fst (m t) = Return x \<Longrightarrow> Q x"
  by (simp add: yields_def)

lemma yields_True: "yields m (\<lambda>_. True)"
  by (simp add: yields_def)

lemma yields_ret: "Q x \<Longrightarrow> yields (ret x) Q"
  by (simp add: yields_def)

lemma yields_halt: "yields (halt s) Q"
  by (simp add: yields_def)

lemma yields_request: "(\<And>t. Q (f t)) \<Longrightarrow> yields (request f mk) Q"
  by (simp add: yields_def)

lemma yields_deref: "(\<And>x. p = Some x \<Longrightarrow> Q x) \<Longrightarrow> yields (deref p) Q"
  by (cases p) (simp_all add: yields_def)

lemma yields_bind:
  assumes "yields m R" and "\<And>x. R x \<Longrightarrow> yields (f x) Q"
  shows "yields (bind_go m f) Q"
  unfolding yields_def
proof (intro allI impI)
  fix t y
  assume "fst (bind_go m f t) = Return y"
  then obtain x where "fst (m t) = Return x" "fst (f x (t @ snd (m t))) = Return y"
    by (auto simp: fst_bind split: outcome.splits)
  with assms show "Q y" by (meson yieldsD)
qed

lemma yields_try:
  assumes "yields m R" and "\<And>e. R (Inl e) \<Longrightarrow> Q (Inl e)" and "\<And>x. R (Inr x) \<Longrightarrow> yields (f x) Q"
  shows "yields (try_go m f) Q"
  unfolding try_go_def
  by (rule yields_bind [OF assms(1)]) (auto split: sum.splits intro: yields_ret assms(2,3))

lemma yields_bind_any: "(\<And>x. yields (f x) Q) \<Longrightarrow> yields (bind_go m f) Q"
  by (rule yields_bind [OF yields_True])

lemma yields_if: "(b \<Longrightarrow> yields m Q) \<Longrightarrow> (\<not> b \<Longrightarrow> yields n Q) \<Longrightarrow> yields (if b then m else n) Q"
  by simp

lemma yields_case_sum:
  "(\<And>e. r = Inl e \<Longrightarrow> yields (f e) Q) \<Longrightarrow> (\<And>x. r = Inr x \<Longrightarrow> yields (g x) Q) \<Longrightarrow>
     yields (case r of Inl e \<Rightarrow> f e | Inr x \<Rightarrow> g x) Q"
  by (cases r) auto

lemma yields_case_option:
  "(r = None \<Longrightarrow> yields m Q) \<Longrightarrow> (\<And>x. r = Some x \<Longrightarrow> yields (f x) Q) \<Longrightarrow>
     yields (case r of None \<Rightarrow> m | Some x \<Rightarrow> f x) Q"
  by (cases r) auto

lemma yields_case_prod:
  "(\<And>a b. r = (a, b) \<Longrightarrow> yields (f a b) Q) \<Longrightarrow> yields (case r of (a, b) \<Rightarrow> f a b) Q"
  by (cases r) auto

lemmas yields_intros = yields_ret yields_halt yields_if yields_case_sum yields_case_option yields_case_prod

text \<open>The same with the calls the computation has made.\<close>

definition post_go :: "('ev, 'a) go \<Rightarrow> ('a \<Rightarrow> 'ev list \<Rightarrow> bool) \<Rightarrow> bool" where
  "post_go m Q \<longleftrightarrow> (\<forall>t x. fst (m t) = Return x \<longrightarrow> Q x (snd (m t)))"

lemma postD: "post_go m Q \<Longrightarrow> fst (m t) = Return x \<Longrightarrow> Q x (snd (m t))"
  by (simp add: post_go_def)

lemma post_yields: "yields m Q \<Longrightarrow> post_go m (\<lambda>x _. Q x)"
  by (simp add: post_go_def yields_def)

lemma post_True: "post_go m (\<lambda>_ _. True)"
  by (simp add: post_go_def)

lemma post_ret: "Q x [] \<Longrightarrow> post_go (ret x) Q"
  by (simp add: post_go_def)

lemma post_request: "(\<And>r. Q r [mk r]) \<Longrightarrow> post_go (request f mk) Q"
  by (simp add: post_go_def)

lemma post_bind:
  assumes "post_go m R" and "\<And>x es. R x es \<Longrightarrow> post_go (f x) (\<lambda>y es'. Q y (es @ es'))"
  shows "post_go (bind_go m f) Q"
  unfolding post_go_def
proof (intro allI impI)
  fix t y
  assume "fst (bind_go m f t) = Return y"
  then obtain x where x: "fst (m t) = Return x" and y: "fst (f x (t @ snd (m t))) = Return y"
    by (auto simp: fst_bind split: outcome.splits)
  from postD [OF assms(2) [OF postD [OF assms(1) x]] y] show "Q y (snd (bind_go m f t))"
    by (simp add: snd_bind x)
qed

lemma post_try:
  assumes "post_go m R" and "\<And>e es. R (Inl e) es \<Longrightarrow> Q (Inl e) es"
    and "\<And>x es. R (Inr x) es \<Longrightarrow> post_go (f x) (\<lambda>y es'. Q y (es @ es'))"
  shows "post_go (try_go m f) Q"
  unfolding try_go_def
  by (rule post_bind [OF assms(1)]) (auto split: sum.splits intro!: post_ret assms(2,3))

lemma post_if: "(b \<Longrightarrow> post_go m Q) \<Longrightarrow> (\<not> b \<Longrightarrow> post_go n Q) \<Longrightarrow> post_go (if b then m else n) Q"
  by simp

lemma post_case_sum:
  "(\<And>e. r = Inl e \<Longrightarrow> post_go (f e) Q) \<Longrightarrow> (\<And>x. r = Inr x \<Longrightarrow> post_go (g x) Q) \<Longrightarrow>
     post_go (case r of Inl e \<Rightarrow> f e | Inr x \<Rightarrow> g x) Q"
  by (cases r) auto

lemma post_case_option:
  "(r = None \<Longrightarrow> post_go m Q) \<Longrightarrow> (\<And>x. r = Some x \<Longrightarrow> post_go (f x) Q) \<Longrightarrow>
     post_go (case r of None \<Rightarrow> m | Some x \<Rightarrow> f x) Q"
  by (cases r) auto

lemma post_case_prod:
  "(\<And>a b. r = (a, b) \<Longrightarrow> post_go (f a b) Q) \<Longrightarrow> post_go (case r of (a, b) \<Rightarrow> f a b) Q"
  by (cases r) auto

lemma post_weaken: "post_go m R \<Longrightarrow> (\<And>x es. R x es \<Longrightarrow> Q x es) \<Longrightarrow> post_go m Q"
  by (simp add: post_go_def)

lemma post_conj: "post_go m P \<Longrightarrow> post_go m Q \<Longrightarrow> post_go m (\<lambda>x es. P x es \<and> Q x es)"
  by (simp add: post_go_def)

lemma post_emits: "emits P m \<Longrightarrow> post_go m (\<lambda>_ es. \<forall>ev \<in> set es. P ev)"
  by (simp add: post_go_def emits_def)

lemmas post_splits = post_if post_case_sum post_case_option post_case_prod

text \<open>Following a value into the rest of a computation.\<close>

lemma emits_bind_yields:
  assumes "emits P m" and "yields m Q" and "\<And>x. Q x \<Longrightarrow> emits P (f x)"
  shows "emits P (bind_go m f)"
proof (rule emitsI)
  fix t ev
  assume "ev \<in> set (snd (bind_go m f t))"
  with assms show "P ev"
    by (cases "fst (m t)") (auto simp: snd_bind dest: emitsD yieldsD)
qed

lemma emits_try_yields:
  assumes "emits P m" and "yields m Q" and "\<And>x. Q (Inr x) \<Longrightarrow> emits P (f x)"
  shows "emits P (try_go m f)"
  unfolding try_go_def
  by (rule emits_bind_yields [OF assms(1,2)]) (auto split: sum.splits intro: assms(3))

section \<open>What has to happen before a call\<close>

text \<open>
  \<open>ordered R m\<close>: when \<open>m\<close> makes a call, \<open>R\<close> holds of it and of the calls \<open>m\<close> has made before it. The
  rules are for requirements that more calls in front cannot break.
\<close>

definition guarded :: "('ev \<Rightarrow> 'ev list \<Rightarrow> bool) \<Rightarrow> 'ev list \<Rightarrow> bool" where
  "guarded R es \<longleftrightarrow> (\<forall>pre ev post. es = pre @ ev # post \<longrightarrow> R ev pre)"

definition monotone_guard :: "('ev \<Rightarrow> 'ev list \<Rightarrow> bool) \<Rightarrow> bool" where
  "monotone_guard R \<longleftrightarrow> (\<forall>ev pre pre'. R ev pre \<longrightarrow> R ev (pre' @ pre))"

definition ordered :: "('ev \<Rightarrow> 'ev list \<Rightarrow> bool) \<Rightarrow> ('ev, 'a) go \<Rightarrow> bool" where
  "ordered R m \<longleftrightarrow> (\<forall>t. guarded R (snd (m t)))"

lemma guarded_Nil [simp]: "guarded R []"
  by (simp add: guarded_def)

lemma guarded_append:
  "guarded R (xs @ ys) \<longleftrightarrow> guarded R xs \<and> guarded (\<lambda>ev pre. R ev (xs @ pre)) ys"
proof
  assume R: "guarded R (xs @ ys)"
  show "guarded R xs \<and> guarded (\<lambda>ev pre. R ev (xs @ pre)) ys"
  proof
    show "guarded R xs" using R by (fastforce simp: guarded_def)
    show "guarded (\<lambda>ev pre. R ev (xs @ pre)) ys" using R unfolding guarded_def by (metis append.assoc)
  qed
next
  assume R: "guarded R xs \<and> guarded (\<lambda>ev pre. R ev (xs @ pre)) ys"
  show "guarded R (xs @ ys)"
    unfolding guarded_def
  proof (intro allI impI)
    fix pre ev post
    assume "xs @ ys = pre @ ev # post"
    then consider us where "xs = pre @ us" "us @ ys = ev # post" | us where "xs @ us = pre" "ys = us @ ev # post"
      by (auto simp: append_eq_append_conv2)
    then show "R ev pre"
    proof cases
      case 1
      then show ?thesis using R by (cases us) (auto simp: guarded_def dest: spec [of _ "[]"])
    next
      case 2
      then show ?thesis using R by (auto simp: guarded_def)
    qed
  qed
qed

lemma guarded_weaken: "guarded R es \<Longrightarrow> (\<And>ev pre. R ev pre \<Longrightarrow> R' ev pre) \<Longrightarrow> guarded R' es"
  by (simp add: guarded_def)

lemma guarded_all: "(\<And>ev pre. ev \<in> set es \<Longrightarrow> R ev pre) \<Longrightarrow> guarded R es"
  by (auto simp: guarded_def)

lemma orderedD: "ordered R m \<Longrightarrow> snd (m t) = pre @ ev # post \<Longrightarrow> R ev pre"
  unfolding ordered_def guarded_def by blast

lemma ordered_emits: "emits (\<lambda>ev. \<forall>pre. R ev pre) m \<Longrightarrow> ordered R m"
  unfolding ordered_def by (blast intro: guarded_all dest: emitsD)

lemma ordered_bind:
  assumes R: "monotone_guard R" and m: "ordered R m" and f: "\<And>x. ordered R (f x)"
  shows "ordered R (bind_go m f)"
  unfolding ordered_def
proof
  fix t
  show "guarded R (snd (bind_go m f t))"
  proof (cases "fst (m t)")
    case (Return x)
    have "guarded R (snd (f x (t @ snd (m t))))" using f by (simp add: ordered_def)
    then have "guarded (\<lambda>ev pre. R ev (snd (m t) @ pre)) (snd (f x (t @ snd (m t))))"
      by (rule guarded_weaken) (use R in \<open>simp add: monotone_guard_def\<close>)
    then show ?thesis using m Return by (simp add: snd_bind guarded_append ordered_def)
  qed (use m in \<open>simp add: snd_bind ordered_def\<close>)
qed

text \<open>Following a value and the calls made so far.\<close>

lemma ordered_bind_post:
  assumes "ordered R m" and "post_go m Q"
    and "\<And>x es. Q x es \<Longrightarrow> ordered (\<lambda>ev pre. R ev (es @ pre)) (f x)"
  shows "ordered R (bind_go m f)"
  unfolding ordered_def
proof
  fix t
  show "guarded R (snd (bind_go m f t))"
  proof (cases "fst (m t)")
    case (Return x)
    from assms(3) [OF postD [OF assms(2) Return]]
    have "guarded (\<lambda>ev pre. R ev (snd (m t) @ pre)) (snd (f x (t @ snd (m t))))" by (simp add: ordered_def)
    with assms(1) Return show ?thesis by (simp add: snd_bind guarded_append ordered_def)
  qed (use assms(1) in \<open>simp add: snd_bind ordered_def\<close>)
qed

lemma ordered_try:
  assumes "monotone_guard R" "ordered R m" "\<And>x. ordered R (f x)"
  shows "ordered R (try_go m f)"
  unfolding try_go_def
  by (rule ordered_bind [OF assms(1,2)]) (auto split: sum.splits intro: assms(3) ordered_emits)

lemma ordered_ret: "ordered R (ret x)"
  by (simp add: ordered_emits)

lemma ordered_if: "(b \<Longrightarrow> ordered R m) \<Longrightarrow> (\<not> b \<Longrightarrow> ordered R n) \<Longrightarrow> ordered R (if b then m else n)"
  by simp

lemma ordered_case_sum:
  "(\<And>e. r = Inl e \<Longrightarrow> ordered R (f e)) \<Longrightarrow> (\<And>x. r = Inr x \<Longrightarrow> ordered R (g x)) \<Longrightarrow>
     ordered R (case r of Inl e \<Rightarrow> f e | Inr x \<Rightarrow> g x)"
  by (cases r) auto

lemma ordered_case_option:
  "(r = None \<Longrightarrow> ordered R m) \<Longrightarrow> (\<And>x. r = Some x \<Longrightarrow> ordered R (f x)) \<Longrightarrow>
     ordered R (case r of None \<Rightarrow> m | Some x \<Rightarrow> f x)"
  by (cases r) auto

lemma ordered_case_prod:
  "(\<And>a b. r = (a, b) \<Longrightarrow> ordered R (f a b)) \<Longrightarrow> ordered R (case r of (a, b) \<Rightarrow> f a b)"
  by (cases r) auto

lemmas ordered_splits = ordered_ret ordered_if ordered_case_sum ordered_case_option ordered_case_prod

section \<open>Assertions on the history\<close>

definition hoare ::
    "('ev list \<Rightarrow> bool) \<Rightarrow> ('ev, 'a) go \<Rightarrow> ('a \<Rightarrow> 'ev list \<Rightarrow> bool) \<Rightarrow> ('ev list \<Rightarrow> bool) \<Rightarrow> bool" where
  "hoare P m Q S \<longleftrightarrow> (\<forall>t. P t \<longrightarrow> (case fst (m t) of
       Return x \<Rightarrow> Q x (t @ snd (m t))
     | Stop s \<Rightarrow> S (t @ snd (m t))))"

lemma hoareI:
  "(\<And>t x. P t \<Longrightarrow> fst (m t) = Return x \<Longrightarrow> Q x (t @ snd (m t))) \<Longrightarrow>
   (\<And>t s. P t \<Longrightarrow> fst (m t) = Stop s \<Longrightarrow> S (t @ snd (m t))) \<Longrightarrow> hoare P m Q S"
  by (simp add: hoare_def split: outcome.split)

lemma hoare_Return: "hoare P m Q S \<Longrightarrow> P t \<Longrightarrow> fst (m t) = Return x \<Longrightarrow> Q x (t @ snd (m t))"
  unfolding hoare_def by (drule spec [where x = t]) simp

lemma hoare_Stop: "hoare P m Q S \<Longrightarrow> P t \<Longrightarrow> fst (m t) = Stop s \<Longrightarrow> S (t @ snd (m t))"
  unfolding hoare_def by (drule spec [where x = t]) simp

lemma hoare_ret: "(\<And>t. P t \<Longrightarrow> Q x t) \<Longrightarrow> hoare P (ret x) Q S"
  by (simp add: hoare_def)

lemma hoare_halt: "(\<And>t. P t \<Longrightarrow> S t) \<Longrightarrow> hoare P (halt s) Q S"
  by (simp add: hoare_def)

lemma hoare_request:
  "(\<And>t. P t \<Longrightarrow> Q (f t) (t @ [mk (f t)])) \<Longrightarrow> hoare P (request f mk) Q S"
  by (simp add: hoare_def)

lemma hoare_bind:
  assumes m: "hoare P m R S" and f: "\<And>x. hoare (R x) (f x) Q S"
  shows "hoare P (bind_go m f) Q S"
proof (rule hoareI)
  fix t y
  assume P: "P t" and y: "fst (bind_go m f t) = Return y"
  from y obtain x where x: "fst (m t) = Return x" and fx: "fst (f x (t @ snd (m t))) = Return y"
    by (auto simp: fst_bind split: outcome.splits)
  show "Q y (t @ snd (bind_go m f t))"
    using hoare_Return [OF f hoare_Return [OF m P x] fx] by (simp add: snd_bind x)
next
  fix t s
  assume P: "P t" and s: "fst (bind_go m f t) = Stop s"
  show "S (t @ snd (bind_go m f t))"
  proof (cases "fst (m t)")
    case (Return x)
    with s have fx: "fst (f x (t @ snd (m t))) = Stop s" by (simp add: fst_bind)
    show ?thesis
      using hoare_Stop [OF f hoare_Return [OF m P Return] fx] by (simp add: snd_bind Return)
  next
    case (Stop s')
    then show ?thesis using hoare_Stop [OF m P Stop] by (simp add: snd_bind)
  qed
qed

lemma hoare_try:
  assumes "hoare P m R S" and "\<And>e t. R (Inl e) t \<Longrightarrow> Q (Inl e) t"
    and "\<And>x. hoare (R (Inr x)) (f x) Q S"
  shows "hoare P (try_go m f) Q S"
  unfolding try_go_def
  using assms by (intro hoare_bind) (auto split: sum.splits intro: hoare_ret)

lemma hoare_deref:
  "(\<And>x t. p = Some x \<Longrightarrow> P t \<Longrightarrow> Q x t) \<Longrightarrow> (\<And>t. P t \<Longrightarrow> S t) \<Longrightarrow> hoare P (deref p) Q S"
  by (cases p) (auto intro: hoare_ret hoare_halt)

lemma hoare_defer:
  assumes m: "hoare P m Q S" and d: "\<And>x. hoare (Q x) d (\<lambda>_. Q x) S"
    and dS: "hoare S d (\<lambda>_. S) S"
  shows "hoare P (defer_go m d) Q S"
proof (rule hoareI)
  fix t x
  assume P: "P t" and "fst (defer_go m d t) = Return x"
  then obtain u where x: "fst (m t) = Return x" and u: "fst (d (t @ snd (m t))) = Return u"
    by (auto simp: fst_defer split: if_splits outcome.splits)
  show "Q x (t @ snd (defer_go m d t))"
    using hoare_Return [OF d hoare_Return [OF m P x] u] x by (simp add: snd_defer)
next
  fix t s
  assume P: "P t" and s: "fst (defer_go m d t) = Stop s"
  show "S (t @ snd (defer_go m d t))"
  proof (cases "fst (m t)")
    case (Return x)
    with s have u: "fst (d (t @ snd (m t))) = Stop s"
      by (auto simp: fst_defer split: outcome.splits)
    show ?thesis
      using hoare_Stop [OF d hoare_Return [OF m P Return] u] Return by (simp add: snd_defer)
  next
    case (Stop s')
    note S = hoare_Stop [OF m P Stop]
    show ?thesis
    proof (cases "fst (d (t @ snd (m t)))")
      case (Return u)
      with hoare_Return [OF dS S Return] S show ?thesis by (simp add: snd_defer)
    next
      case (Stop s'')
      with hoare_Stop [OF dS S Stop] S show ?thesis by (simp add: snd_defer)
    qed
  qed
qed

lemma hoare_weaken:
  assumes h: "hoare P' m Q' S'" and P: "\<And>t. P t \<Longrightarrow> P' t"
    and Q: "\<And>x t. Q' x t \<Longrightarrow> Q x t" and S: "\<And>t. S' t \<Longrightarrow> S t"
  shows "hoare P m Q S"
  by (rule hoareI) (blast intro: hoare_Return [OF h] hoare_Stop [OF h] P Q S)+

lemma hoare_pre: "hoare P' m Q S \<Longrightarrow> (\<And>t. P t \<Longrightarrow> P' t) \<Longrightarrow> hoare P m Q S"
  by (erule hoare_weaken)

lemma hoare_if:
  "(b \<Longrightarrow> hoare P m Q S) \<Longrightarrow> (\<not> b \<Longrightarrow> hoare P n Q S) \<Longrightarrow> hoare P (if b then m else n) Q S"
  by simp

lemma hoare_case_sum:
  "(\<And>e. r = Inl e \<Longrightarrow> hoare P (f e) Q S) \<Longrightarrow> (\<And>x. r = Inr x \<Longrightarrow> hoare P (g x) Q S) \<Longrightarrow>
     hoare P (case r of Inl e \<Rightarrow> f e | Inr x \<Rightarrow> g x) Q S"
  by (cases r) auto

lemma hoare_case_option:
  "(r = None \<Longrightarrow> hoare P m Q S) \<Longrightarrow> (\<And>x. r = Some x \<Longrightarrow> hoare P (f x) Q S) \<Longrightarrow>
     hoare P (case r of None \<Rightarrow> m | Some x \<Rightarrow> f x) Q S"
  by (cases r) auto

lemma hoare_case_prod:
  "(\<And>a b. r = (a, b) \<Longrightarrow> hoare P (f a b) Q S) \<Longrightarrow> hoare P (case r of (a, b) \<Rightarrow> f a b) Q S"
  by (cases r) auto

lemmas hoare_splits = hoare_if hoare_case_sum hoare_case_option hoare_case_prod

text \<open>
  An assertion that mentions only which calls have happened survives every computation whose
  own calls keep it.
\<close>

lemma hoare_emits:
  assumes "emits P m" and "\<And>t e. (\<And>ev. ev \<in> set e \<Longrightarrow> P ev) \<Longrightarrow> I t \<Longrightarrow> I (t @ e)"
  shows "hoare I m (\<lambda>_. I) I"
  using assms by (intro hoareI) (blast dest: emitsD)+

section \<open>Computations that always return\<close>

definition always_returns :: "('ev, 'a) go \<Rightarrow> bool" where
  "always_returns m \<longleftrightarrow> (\<forall>t. \<exists>x. fst (m t) = Return x)"

lemma always_returnsD: "always_returns m \<Longrightarrow> \<exists>x. fst (m t) = Return x"
  by (simp add: always_returns_def)

lemma returns_ret [simp, returns_intros]: "always_returns (ret x)"
  by (simp add: always_returns_def)

lemma returns_request [simp, returns_intros]: "always_returns (request f mk)"
  by (simp add: always_returns_def)

lemma returns_bind [returns_intros]:
  assumes "always_returns m" and "\<And>x. always_returns (f x)"
  shows "always_returns (bind_go m f)"
  unfolding always_returns_def
proof
  fix t
  from always_returnsD [OF assms(1)] obtain x where "fst (m t) = Return x" ..
  with always_returnsD [OF assms(2)] show "\<exists>y. fst (bind_go m f t) = Return y"
    by (simp add: fst_bind)
qed

lemma returns_try [returns_intros]:
  "always_returns m \<Longrightarrow> (\<And>x. always_returns (f x)) \<Longrightarrow> always_returns (try_go m f)"
  unfolding try_go_def by (rule returns_bind) (auto split: sum.splits)

lemma returns_if [returns_intros]:
  "(b \<Longrightarrow> always_returns m) \<Longrightarrow> (\<not> b \<Longrightarrow> always_returns n) \<Longrightarrow>
     always_returns (if b then m else n)"
  by simp

lemma returns_case_sum [returns_intros]:
  "(\<And>e. always_returns (f e)) \<Longrightarrow> (\<And>x. always_returns (g x)) \<Longrightarrow>
     always_returns (case r of Inl e \<Rightarrow> f e | Inr x \<Rightarrow> g x)"
  by (cases r) auto

lemma returns_case_option [returns_intros]:
  "always_returns m \<Longrightarrow> (\<And>x. always_returns (f x)) \<Longrightarrow>
     always_returns (case r of None \<Rightarrow> m | Some x \<Rightarrow> f x)"
  by (cases r) auto

lemma returns_case_prod [returns_intros]:
  "(\<And>a b. always_returns (f a b)) \<Longrightarrow> always_returns (case p of (a, b) \<Rightarrow> f a b)"
  by (cases p) auto

text \<open>Returning, with a value that satisfies \<open>P\<close>.\<close>

definition returns_with :: "('ev, 'a) go \<Rightarrow> ('a \<Rightarrow> bool) \<Rightarrow> bool" where
  "returns_with m P \<longleftrightarrow> (\<forall>t. \<exists>x. fst (m t) = Return x \<and> P x)"

lemma returns_with_any: "returns_with m P \<Longrightarrow> always_returns m"
  by (auto simp: returns_with_def always_returns_def)

lemma returns_with_ret: "P x \<Longrightarrow> returns_with (ret x) P"
  by (simp add: returns_with_def)

lemma returns_with_request: "(\<And>t. P (f t)) \<Longrightarrow> returns_with (request f mk) P"
  by (simp add: returns_with_def)

lemma returns_with_bind:
  assumes "returns_with m P" "\<And>x. P x \<Longrightarrow> returns_with (f x) Q"
  shows "returns_with (bind_go m f) Q"
  unfolding returns_with_def
proof
  fix t
  from assms(1) obtain x where "fst (m t) = Return x" "P x" unfolding returns_with_def by blast
  with assms(2) [of x] show "\<exists>y. fst (bind_go m f t) = Return y \<and> Q y" by (simp add: returns_with_def fst_bind)
qed

lemma always_returns_with: "always_returns m \<longleftrightarrow> returns_with m (\<lambda>_. True)"
  by (simp add: always_returns_def returns_with_def)

lemma returns_bind_with:
  "returns_with m P \<Longrightarrow> (\<And>x. P x \<Longrightarrow> always_returns (f x)) \<Longrightarrow> always_returns (bind_go m f)"
  unfolding always_returns_with by (rule returns_with_bind)

lemma returns_try_with:
  "returns_with m P \<Longrightarrow> (\<And>x. P (Inr x) \<Longrightarrow> always_returns (f x)) \<Longrightarrow> always_returns (try_go m f)"
  unfolding try_go_def by (rule returns_bind_with [where P = P]) (auto split: sum.splits)

section \<open>Maps and lists\<close>

text \<open>A Go map that may be \<open>nil\<close>: reading a \<open>nil\<close> map finds nothing.\<close>

type_synonym ('k, 'v) gomap = "('k, 'v) fmap option"

definition map_get :: "('k, 'v) gomap \<Rightarrow> 'k \<Rightarrow> 'v option" where
  "map_get m k = (case m of None \<Rightarrow> None | Some f \<Rightarrow> fmlookup f k)"

lemma map_get_simps [simp]:
  "map_get None k = None"
  "map_get (Some f) k = fmlookup f k"
  by (simp_all add: map_get_def)

text \<open>Reading with Go's zero value for a missing key.\<close>

definition map_get_str :: "('k, string) gomap \<Rightarrow> 'k \<Rightarrow> string" where
  "map_get_str m k = (case map_get m k of None \<Rightarrow> [] | Some v \<Rightarrow> v)"

lemma fmupd_eq_iff: "fmupd k v m = m \<longleftrightarrow> fmlookup m k = Some v"
proof
  assume "fmupd k v m = m"
  then have "fmlookup (fmupd k v m) k = fmlookup m k" by simp
  then show "fmlookup m k = Some v" by simp
next
  assume "fmlookup m k = Some v"
  then show "fmupd k v m = m" by (intro fmap_ext) auto
qed

end
