(* ===== verification/GoLib.thy ===== *)
theory GoLib
  imports Prelude "HOL-Library.Word"
begin

text \<open>
  The parts of Go's standard library and of the vendored packages that the operator computes
  with: \<open>strings.Split\<close>, \<open>strings.SplitN\<close> and \<open>strings.HasPrefix\<close>, \<open>strings.Replace\<close>,
  the printing of numbers, bytes and maps by \<open>fmt\<close>, \<open>encoding/json\<close> on strings, \<open>net/url.QueryUnescape\<close>, the string sets of
  \<open>k8s.io/apimachinery/pkg/util/sets\<close>, \<open>cache.SplitMetaNamespaceKey\<close>, \<open>arn.Parse\<close> and the random
  suffix generator \<open>rand.String\<close>. A Go string is a sequence of bytes, so it is a \<open>string\<close> here
  (a list of 8-bit characters).

  The lemmas show that the JSON encoding of ASCII strings can be read back (two different
  strings never have the same encoding, whatever follows them), that \<open>QueryUnescape\<close> inverts
  percent-encoding, that joining and splitting a namespaced key is a round trip, and that the
  random suffix has the requested length whenever the generator returns, and returns on every
  source that keeps producing usable letters.
\<close>

unbundle bit_operations_syntax

section \<open>Strings\<close>

fun HasPrefix :: "string \<Rightarrow> string \<Rightarrow> bool" where
  "HasPrefix s [] = True"
| "HasPrefix [] (p # ps) = False"
| "HasPrefix (c # s) (p # ps) = (c = p \<and> HasPrefix s ps)"

lemma HasPrefix_iff: "HasPrefix s p \<longleftrightarrow> prefix p s"
  by (induction s p rule: HasPrefix.induct) auto

fun strings_Split :: "char \<Rightarrow> string \<Rightarrow> string list" where
  "strings_Split sep [] = [[]]"
| "strings_Split sep (c # s) =
     (if c = sep then [] # strings_Split sep s
      else (case strings_Split sep s of [] \<Rightarrow> [[c]] | p # ps \<Rightarrow> (c # p) # ps))"

text \<open>\<open>strings.SplitN\<close> with a positive count: the last piece is the unsplit remainder.\<close>

fun strings_SplitN :: "char \<Rightarrow> nat \<Rightarrow> string \<Rightarrow> string list" where
  "strings_SplitN sep n [] = [[]]"
| "strings_SplitN sep n (c # s) =
     (if n \<le> 1 then [c # s]
      else if c = sep then [] # strings_SplitN sep (n - 1) s
      else (case strings_SplitN sep n s of [] \<Rightarrow> [[c]] | p # ps \<Rightarrow> (c # p) # ps))"

lemma strings_Split_nonempty: "strings_Split sep s \<noteq> []"
  by (induction s) (auto split: list.splits)

lemma strings_Split_no_sep: "sep \<notin> set s \<Longrightarrow> strings_Split sep s = [s]"
  by (induction s) auto

lemma strings_Split_append:
  "sep \<notin> set a \<Longrightarrow> strings_Split sep (a @ sep # b) = a # strings_Split sep b"
  by (induction a) auto

lemma strings_SplitN_append:
  "sep \<notin> set a \<Longrightarrow> 1 < n \<Longrightarrow>
     strings_SplitN sep n (a @ sep # b) = a # strings_SplitN sep (n - 1) b"
  by (induction a) auto

lemma strings_SplitN_one: "strings_SplitN sep 1 s = [s]"
  by (cases s) auto

section \<open>Decimal printing\<close>

fun itoa :: "nat \<Rightarrow> string" where
  "itoa n = (if n < 10 then [char_of (48 + n)] else itoa (n div 10) @ [char_of (48 + n mod 10)])"

declare itoa.simps [simp del]

text \<open>\<open>%v\<close> of an integer, of a slice of strings and of a slice of bytes.\<close>

definition fmt_int :: "int \<Rightarrow> string" where
  "fmt_int i = (if i < 0 then CHR ''-'' # itoa (nat (- i)) else itoa (nat i))"

fun strings_Join :: "char \<Rightarrow> string list \<Rightarrow> string" where
  "strings_Join sep [] = []"
| "strings_Join sep [x] = x"
| "strings_Join sep (x # y # xs) = x @ sep # strings_Join sep (y # xs)"

definition fmt_strings :: "string list \<Rightarrow> string" where
  "fmt_strings xs = ''['' @ strings_Join (CHR '' '') xs @ '']''"

definition fmt_bytes :: "string \<Rightarrow> string" where
  "fmt_bytes bs = fmt_strings (map (\<lambda>b. itoa (of_char b)) bs)"

lemma strings_Split_Join:
  "xs \<noteq> [] \<Longrightarrow> \<forall>x \<in> set xs. sep \<notin> set x \<Longrightarrow> strings_Split sep (strings_Join sep xs) = xs"
  by (induction sep xs rule: strings_Join.induct) (auto simp: strings_Split_no_sep strings_Split_append)

text \<open>The number that a decimal text denotes; it reads back what \<open>itoa\<close> prints.\<close>

definition atoi :: "string \<Rightarrow> nat" where
  "atoi ds = foldl (\<lambda>n d. 10 * n + (of_char d - 48)) 0 ds"

lemma atoi_itoa [simp]: "atoi (itoa n) = n"
proof (induction n rule: itoa.induct)
  case (1 n)
  then show ?case by (subst itoa.simps) (simp add: atoi_def)
qed

lemma itoa_digits: "d \<in> set (itoa n) \<Longrightarrow> 48 \<le> (of_char d :: nat) \<and> of_char d < (58 :: nat)"
proof (induction n rule: itoa.induct)
  case (1 n)
  have "n mod 10 < 10" by simp
  with 1 show ?case by (subst (asm) (2) itoa.simps) (auto split: if_splits)
qed

lemma itoa_nonempty [simp]: "itoa n \<noteq> []"
  by (subst itoa.simps) simp

text \<open>No information is lost when bytes are printed: different values have different texts.\<close>

lemma inj_fmt_bytes: "inj fmt_bytes"
proof (rule injI)
  fix x y
  let ?f = "\<lambda>bs. map (\<lambda>b. itoa (of_char b)) bs"
  assume "fmt_bytes x = fmt_bytes y"
  then have eq: "strings_Join (CHR '' '') (?f x) = strings_Join (CHR '' '') (?f y)"
    by (simp add: fmt_bytes_def fmt_strings_def)
  have space: "\<forall>t \<in> set (?f bs). CHR '' '' \<notin> set t" for bs
    using itoa_digits by fastforce
  have empty: "strings_Join (CHR '' '') (?f bs) = [] \<longleftrightarrow> bs = []" for bs
    by (cases bs rule: remdups_adj.cases) simp_all
  have "?f x = ?f y"
    using eq space [of x] space [of y] empty [of x] empty [of y] strings_Split_Join
    by (cases "x = []") (metis list.map_disc_iff)+
  then have "map atoi (?f x) = map atoi (?f y)" by simp
  then have "map of_char x = (map of_char y :: nat list)" by (simp add: comp_def)
  then have "map char_of (map of_char x :: nat list) = map char_of (map of_char y :: nat list)" by (rule arg_cong)
  then show "x = y" by (simp add: comp_def)
qed

text \<open>\<open>strings.Replace\<close> of the first occurrence.\<close>

fun strings_Replace1 :: "string \<Rightarrow> string \<Rightarrow> string \<Rightarrow> string" where
  "strings_Replace1 [] old new = (if old = [] then new else [])"
| "strings_Replace1 (c # s) old new =
     (if HasPrefix (c # s) old then new @ drop (length old) (c # s) else c # strings_Replace1 s old new)"

text \<open>
  The entries of a map as the generated \<open>String\<close> methods print them: sorted by key, each followed
  by a comma.
\<close>

definition map_entries :: "('v \<Rightarrow> string) \<Rightarrow> (string, 'v) gomap \<Rightarrow> string" where
  "map_entries show_value m = (case m of None \<Rightarrow> []
     | Some f \<Rightarrow> concat (map (\<lambda>k. k @ '': '' @ show_value (the (fmlookup f k)) @ '','') (sorted_list_of_fset (fmdom f))))"

lemma map_entries_sublist:
  assumes "map_get m k = Some v"
  shows "sublist (k @ '': '' @ show_value v @ '','') (map_entries show_value m)"
proof -
  from assms obtain f where f: "m = Some f" "fmlookup f k = Some v" by (cases m) auto
  then have "k \<in> set (sorted_list_of_fset (fmdom f))" by (simp add: fmlookup_dom_iff)
  then obtain xs ys where "sorted_list_of_fset (fmdom f) = xs @ k # ys" by (meson split_list)
  then show ?thesis
    unfolding f map_entries_def sublist_def by (auto simp: f(2))
qed

section \<open>JSON strings\<close>

abbreviation byte_of :: "char \<Rightarrow> nat" where
  "byte_of c \<equiv> of_char c"

definition hex_digit :: "nat \<Rightarrow> char" where
  "hex_digit n = (if n < 10 then char_of (48 + n) else char_of (87 + n))"

text \<open>The bytes below 128 that \<open>encoding/json\<close> copies unchanged when it escapes HTML.\<close>

definition html_safe :: "char \<Rightarrow> bool" where
  "html_safe c \<longleftrightarrow> 32 \<le> byte_of c \<and> byte_of c < 128 \<and>
     c \<noteq> CHR 0x22 \<and> c \<noteq> CHR 0x5C \<and> c \<noteq> CHR ''<'' \<and> c \<noteq> CHR ''>'' \<and> c \<noteq> CHR ''&''"

definition json_escape_ascii :: "char \<Rightarrow> string" where
  "json_escape_ascii c =
     (if html_safe c then [c]
      else if c = CHR 0x5C \<or> c = CHR 0x22 then [CHR 0x5C, c]
      else if c = CHR 0x0A then [CHR 0x5C, CHR ''n'']
      else if c = CHR 0x0D then [CHR 0x5C, CHR ''r'']
      else if c = CHR 0x09 then [CHR 0x5C, CHR ''t'']
      else [CHR 0x5C, CHR ''u'', CHR ''0'', CHR ''0'',
            hex_digit (byte_of c div 16), hex_digit (byte_of c mod 16)])"

text \<open>
  How many continuation bytes a UTF-8 sequence starting with byte \<open>b\<close> and followed by \<open>cs\<close>
  has, or \<open>None\<close> when it is not well-formed (\<open>utf8.DecodeRuneInString\<close> then reports one bad
  byte).
\<close>

definition in_range :: "nat \<Rightarrow> nat \<Rightarrow> char \<Rightarrow> bool" where
  "in_range lo hi c \<longleftrightarrow> lo \<le> byte_of c \<and> byte_of c \<le> hi"

definition utf8_tail :: "nat \<Rightarrow> string \<Rightarrow> nat option" where
  "utf8_tail b cs =
     (if 0xC2 \<le> b \<and> b \<le> 0xDF then
        (case cs of c1 # _ \<Rightarrow> if in_range 0x80 0xBF c1 then Some 1 else None | _ \<Rightarrow> None)
      else if 0xE0 \<le> b \<and> b \<le> 0xEF then
        (case cs of c1 # c2 # _ \<Rightarrow>
           if in_range (if b = 0xE0 then 0xA0 else 0x80) (if b = 0xED then 0x9F else 0xBF) c1
              \<and> in_range 0x80 0xBF c2 then Some 2 else None | _ \<Rightarrow> None)
      else if 0xF0 \<le> b \<and> b \<le> 0xF4 then
        (case cs of c1 # c2 # c3 # _ \<Rightarrow>
           if in_range (if b = 0xF0 then 0x90 else 0x80) (if b = 0xF4 then 0x8F else 0xBF) c1
              \<and> in_range 0x80 0xBF c2 \<and> in_range 0x80 0xBF c3 then Some 3 else None | _ \<Rightarrow> None)
      else None)"

text \<open>U+2028 and U+2029 are escaped although they are valid JSON.\<close>

definition json_escape_rune :: "string \<Rightarrow> string" where
  "json_escape_rune r =
     (if r = [CHR 0xE2, CHR 0x80, CHR 0xA8] then CHR 0x5C # ''u2028''
      else if r = [CHR 0xE2, CHR 0x80, CHR 0xA9] then CHR 0x5C # ''u2029'' else r)"

function json_escape :: "string \<Rightarrow> string" where
  "json_escape [] = []"
| "json_escape (c # cs) =
     (if byte_of c < 128 then json_escape_ascii c @ json_escape cs
      else case utf8_tail (byte_of c) cs of
          None \<Rightarrow> (CHR 0x5C # ''ufffd'') @ json_escape cs
        | Some n \<Rightarrow> json_escape_rune (c # take n cs) @ json_escape (drop n cs))"
  by pat_completeness auto
termination
  by (relation "measure length") auto

definition json_string :: "string \<Rightarrow> string" where
  "json_string s = CHR 0x22 # json_escape s @ [CHR 0x22]"

text \<open>\<open>strings.Join\<close> with a one-byte separator, as the array encoder writes its elements.\<close>

fun join_with :: "char \<Rightarrow> string list \<Rightarrow> string" where
  "join_with sep [] = []"
| "join_with sep [x] = x"
| "join_with sep (x # y # xs) = x @ sep # join_with sep (y # xs)"

text \<open>A \<open>nil\<close> slice encodes as \<open>null\<close>.\<close>

definition json_string_array :: "string list option \<Rightarrow> string" where
  "json_string_array p = (case p of
      None \<Rightarrow> ''null''
    | Some xs \<Rightarrow> CHR ''['' # join_with (CHR '','') (map json_string xs) @ [CHR '']''])"

subsection \<open>ASCII strings are encoded injectively\<close>

definition ascii :: "string \<Rightarrow> bool" where
  "ascii s \<longleftrightarrow> list_all (\<lambda>c. byte_of c < 128) s"

lemma ascii_simps [simp]:
  "ascii []" "ascii (c # s) \<longleftrightarrow> byte_of c < 128 \<and> ascii s"
  "ascii (s @ s') \<longleftrightarrow> ascii s \<and> ascii s'"
  by (simp_all add: ascii_def)

lemma byte_of_hex_digit: "n < 16 \<Longrightarrow> byte_of (hex_digit n) = (if n < 10 then 48 + n else 87 + n)"
  by (simp add: hex_digit_def)

lemma hex_digit_inj:
  assumes "m < 16" "n < 16" "hex_digit m = hex_digit n"
  shows "m = n"
proof -
  have "byte_of (hex_digit m) = byte_of (hex_digit n)" using assms(3) by simp
  with assms(1,2) show ?thesis by (simp add: byte_of_hex_digit split: if_splits)
qed

lemma byte_of_less: "byte_of c < 256"
  by simp

lemma hex_pair_inj:
  assumes "hex_digit (byte_of c div 16) = hex_digit (byte_of d div 16)"
    and "hex_digit (byte_of c mod 16) = hex_digit (byte_of d mod 16)"
  shows "c = d"
proof -
  have "byte_of c div 16 < 16" "byte_of d div 16 < 16"
    using byte_of_less [of c] byte_of_less [of d] by linarith+
  then have "byte_of c div 16 = byte_of d div 16"
    by (rule hex_digit_inj) (rule assms(1))
  moreover have "byte_of c mod 16 = byte_of d mod 16"
    by (rule hex_digit_inj) (simp_all add: assms(2))
  ultimately have "byte_of c = byte_of d"
    by (metis div_mult_mod_eq)
  then show ?thesis by simp
qed

lemma not_html_safe_special: "\<not> html_safe (CHR 0x5C)" "\<not> html_safe (CHR 0x22)"
  by (simp_all add: html_safe_def)

text \<open>
  The code words form a prefix code: from an encoding followed by anything, the first
  character can be recovered.
\<close>

lemma json_escape_ascii_prefix_code:
  assumes "json_escape_ascii c @ xs = json_escape_ascii d @ ys"
  shows "c = d \<and> xs = ys"
proof -
  consider (safe) "html_safe c" "html_safe d" | (left) "html_safe c" "\<not> html_safe d"
    | (right) "\<not> html_safe c" "html_safe d" | (esc) "\<not> html_safe c" "\<not> html_safe d"
    by blast
  then show ?thesis
  proof cases
    case safe
    with assms show ?thesis by (simp add: json_escape_ascii_def)
  next
    case left
    with assms not_html_safe_special show ?thesis
      by (auto simp: json_escape_ascii_def split: if_splits)
  next
    case right
    with assms not_html_safe_special show ?thesis
      by (auto simp: json_escape_ascii_def split: if_splits)
  next
    case esc
    with assms show ?thesis
      by (auto simp: json_escape_ascii_def intro: hex_pair_inj split: if_splits)
  qed
qed

lemma json_escape_ascii_not_quote:
  "json_escape_ascii c @ xs \<noteq> CHR 0x22 # ys" "json_escape_ascii c \<noteq> []"
  using not_html_safe_special by (auto simp: json_escape_ascii_def split: if_splits)

lemma json_escape_ascii_Cons: "byte_of c < 128 \<Longrightarrow> json_escape (c # cs) = json_escape_ascii c @ json_escape cs"
  by simp

lemma json_escape_inj:
  "ascii s \<Longrightarrow> ascii s' \<Longrightarrow>
     json_escape s @ CHR 0x22 # r = json_escape s' @ CHR 0x22 # r' \<Longrightarrow> s = s' \<and> r = r'"
proof (induction s arbitrary: s')
  case Nil
  then show ?case
    by (cases s') (auto simp: json_escape_ascii_not_quote [symmetric]
        dest: json_escape_ascii_not_quote(1) [THEN notE, OF sym])
next
  case (Cons c s)
  show ?case
  proof (cases s')
    case Nil
    with Cons.prems json_escape_ascii_not_quote(1) show ?thesis by auto
  next
    case (Cons d u)
    with Cons.prems have "json_escape_ascii c @ (json_escape s @ CHR 0x22 # r) =
        json_escape_ascii d @ (json_escape u @ CHR 0x22 # r')" by simp
    from json_escape_ascii_prefix_code [OF this] Cons.IH [of u] Cons.prems Cons
    show ?thesis by auto
  qed
qed

lemma json_string_inj:
  "ascii s \<Longrightarrow> ascii s' \<Longrightarrow> json_string s @ r = json_string s' @ r' \<Longrightarrow> s = s' \<and> r = r'"
  by (auto simp: json_string_def dest: json_escape_inj)

text \<open>A non-empty array is its first element followed by separated elements.\<close>

definition json_rest :: "string list \<Rightarrow> string" where
  "json_rest xs = concat (map (\<lambda>x. CHR '','' # json_string x) xs)"

lemma json_rest_simps [simp]:
  "json_rest [] = []" "json_rest (x # xs) = CHR '','' # json_string x @ json_rest xs"
  by (simp_all add: json_rest_def)

lemma join_json_strings:
  "join_with (CHR '','') (map json_string (x # xs)) = json_string x @ json_rest xs"
proof (induction xs arbitrary: x)
  case (Cons y ys)
  then show ?case using Cons.IH [of y] by simp
qed simp

lemma json_rest_inj:
  "list_all ascii xs \<Longrightarrow> list_all ascii ys \<Longrightarrow>
     json_rest xs @ CHR '']'' # r = json_rest ys @ CHR '']'' # r' \<Longrightarrow> xs = ys \<and> r = r'"
proof (induction xs arbitrary: ys)
  case Nil
  then show ?case by (cases ys) auto
next
  case (Cons x xs)
  then obtain y us where ys: "ys = y # us" by (cases ys) auto
  with Cons.prems have "json_string x @ (json_rest xs @ CHR '']'' # r) =
      json_string y @ (json_rest us @ CHR '']'' # r')" by simp
  with Cons.prems ys have "x = y \<and> json_rest xs @ CHR '']'' # r = json_rest us @ CHR '']'' # r'"
    by (intro json_string_inj) auto
  with Cons ys show ?case by auto
qed

lemma json_string_hd: "json_string s = CHR 0x22 # json_escape s @ [CHR 0x22]"
  by (simp add: json_string_def)

lemma json_string_array_inj:
  assumes "pred_option (list_all ascii) p" "pred_option (list_all ascii) q"
    and eq: "json_string_array p @ r = json_string_array q @ r'"
  shows "p = q \<and> r = r'"
proof (cases p; cases q)
  fix xs ys
  assume pq: "p = Some xs" "q = Some ys"
  show ?thesis
  proof (cases xs; cases ys)
    fix x us y vs
    assume Cons: "xs = x # us" "ys = y # vs"
    with eq pq have eq': "json_string x @ (json_rest us @ CHR '']'' # r) =
        json_string y @ (json_rest vs @ CHR '']'' # r')"
      by (simp only: json_string_array_def option.case join_json_strings append.simps append_assoc)
        simp
    have asc: "ascii x" "ascii y" "list_all ascii us" "list_all ascii vs"
      using assms(1,2) pq Cons by simp_all
    from json_string_inj [OF asc(1,2) eq']
    have xy: "x = y" and rest: "json_rest us @ CHR '']'' # r = json_rest vs @ CHR '']'' # r'"
      by simp_all
    from json_rest_inj [OF asc(3,4) rest] xy pq Cons show ?thesis by simp
  qed (use eq pq in \<open>auto simp: json_string_array_def json_string_hd join_json_strings
        simp del: join_with.simps(2,3) list.map(2)\<close>)
qed (use eq in \<open>auto simp: json_string_array_def\<close>)

section \<open>URL query unescaping\<close>

definition ishex :: "char \<Rightarrow> bool" where
  "ishex c \<longleftrightarrow> in_range 48 57 c \<or> in_range 97 102 c \<or> in_range 65 70 c"

definition unhex :: "char \<Rightarrow> nat" where
  "unhex c = (if in_range 48 57 c then byte_of c - 48
              else if in_range 97 102 c then byte_of c - 97 + 10
              else if in_range 65 70 c then byte_of c - 65 + 10 else 0)"

text \<open>
  \<open>net/url.QueryUnescape\<close>: \<open>Inl\<close> carries the offending piece (at most three bytes) of the
  \<open>EscapeError\<close>.
\<close>

fun QueryUnescape :: "string \<Rightarrow> string + string" where
  "QueryUnescape [] = Inr []"
| "QueryUnescape (c # s) =
     (if c = CHR ''%'' then
        (case s of
           a # b # s' \<Rightarrow>
             if ishex a \<and> ishex b
             then map_sum id (\<lambda>u. char_of (16 * unhex a + unhex b) # u) (QueryUnescape s')
             else Inl (take 3 (c # s))
         | _ \<Rightarrow> Inl (take 3 (c # s)))
      else if c = CHR ''+'' then map_sum id (\<lambda>u. CHR '' '' # u) (QueryUnescape s)
      else map_sum id (\<lambda>u. c # u) (QueryUnescape s))"

text \<open>
  Percent-encoding as RFC 3986 describes it, for any choice of the bytes left alone (they may
  not include the two characters that unescaping interprets).
\<close>

definition pct_byte :: "char \<Rightarrow> string" where
  "pct_byte c = [CHR ''%'', hex_digit (byte_of c div 16), hex_digit (byte_of c mod 16)]"

definition pct_encode :: "(char \<Rightarrow> bool) \<Rightarrow> string \<Rightarrow> string" where
  "pct_encode keep s = concat (map (\<lambda>c. if keep c then [c] else pct_byte c) s)"

lemma hex_digit_hex: "n < 16 \<Longrightarrow> ishex (hex_digit n) \<and> unhex (hex_digit n) = n"
  by (auto simp: ishex_def unhex_def in_range_def byte_of_hex_digit)

lemma QueryUnescape_pct_byte:
  "QueryUnescape (pct_byte c @ s) = map_sum id (\<lambda>u. c # u) (QueryUnescape s)"
proof -
  have d: "byte_of c div 16 < 16" "byte_of c mod 16 < 16"
    using byte_of_less [of c] by linarith+
  have "16 * (byte_of c div 16) + byte_of c mod 16 = byte_of c" by simp
  then have "char_of (16 * (byte_of c div 16) + byte_of c mod 16) = c"
    by (metis char_of_char)
  with hex_digit_hex [OF d(1)] hex_digit_hex [OF d(2)] show ?thesis
    by (simp add: pct_byte_def)
qed

lemma QueryUnescape_pct_encode:
  assumes "\<not> keep (CHR ''%'')" "\<not> keep (CHR ''+'')"
  shows "QueryUnescape (pct_encode keep s) = Inr s"
proof (induction s)
  case Nil
  then show ?case by (simp add: pct_encode_def)
next
  case (Cons c s)
  have split: "pct_encode keep (c # s) = (if keep c then [c] else pct_byte c) @ pct_encode keep s"
    by (simp add: pct_encode_def)
  show ?case
  proof (cases "keep c")
    case True
    with assms have "c \<noteq> CHR ''%''" "c \<noteq> CHR ''+''" by auto
    with True Cons.IH show ?thesis by (simp add: split)
  next
    case False
    with Cons.IH show ?thesis by (simp add: split QueryUnescape_pct_byte)
  qed
qed

section \<open>String sets\<close>

text \<open>\<open>sets.String\<close>: a map used as a set, listed in sorted order.\<close>

definition sets_NewString :: "string list \<Rightarrow> string set" where
  "sets_NewString items = set items"

definition sets_Insert :: "string \<Rightarrow> string set \<Rightarrow> string set" where
  "sets_Insert item s = insert item s"

definition sets_Delete :: "string \<Rightarrow> string set \<Rightarrow> string set" where
  "sets_Delete item s = s - {item}"

definition sets_List :: "string set \<Rightarrow> string list" where
  "sets_List s = sorted_list_of_set s"

section \<open>Namespaced keys\<close>

text \<open>\<open>cache.SplitMetaNamespaceKey\<close>: \<open>None\<close> is the error "unexpected key format".\<close>

definition SplitMetaNamespaceKey :: "string \<Rightarrow> (string \<times> string) option" where
  "SplitMetaNamespaceKey key = (case strings_Split (CHR ''/'') key of
      [name] \<Rightarrow> Some ([], name)
    | [namespace, name] \<Rightarrow> Some (namespace, name)
    | _ \<Rightarrow> None)"

lemma SplitMetaNamespaceKey_join:
  "CHR ''/'' \<notin> set ns \<Longrightarrow> CHR ''/'' \<notin> set name \<Longrightarrow>
     SplitMetaNamespaceKey (ns @ ''/'' @ name) = Some (ns, name)"
  by (simp add: SplitMetaNamespaceKey_def strings_Split_append strings_Split_no_sep)

section \<open>Amazon resource names\<close>

record ARN =
  arn_Partition :: string
  arn_Service :: string
  arn_Region :: string
  arn_AccountID :: string
  arn_Resource :: string

definition arn_Parse :: "string \<Rightarrow> string + ARN" where
  "arn_Parse arn =
     (if \<not> HasPrefix arn ''arn:'' then Inl ''arn: invalid prefix''
      else case strings_SplitN (CHR '':'') 6 arn of
          [_, part, service, region, account, resource] \<Rightarrow>
            Inr \<lparr>arn_Partition = part, arn_Service = service, arn_Region = region,
                 arn_AccountID = account, arn_Resource = resource\<rparr>
        | _ \<Rightarrow> Inl ''arn: not enough sections'')"

definition arn_String :: "ARN \<Rightarrow> string" where
  "arn_String a = ''arn:'' @ arn_Partition a @ '':'' @ arn_Service a @ '':'' @ arn_Region a @
     '':'' @ arn_AccountID a @ '':'' @ arn_Resource a"

lemma arn_Parse_String:
  assumes "CHR '':'' \<notin> set (arn_Partition a)" "CHR '':'' \<notin> set (arn_Service a)"
    "CHR '':'' \<notin> set (arn_Region a)" "CHR '':'' \<notin> set (arn_AccountID a)"
  shows "arn_Parse (arn_String a) = Inr a"
proof -
  have "strings_SplitN (CHR '':'') 6 (''arn'' @ CHR '':'' # arn_Partition a @ CHR '':'' #
      arn_Service a @ CHR '':'' # arn_Region a @ CHR '':'' # arn_AccountID a @ CHR '':'' #
      arn_Resource a) = [''arn'', arn_Partition a, arn_Service a, arn_Region a, arn_AccountID a,
        arn_Resource a]"
    using assms
    by (simp add: strings_SplitN_append strings_SplitN_one [unfolded One_nat_def]
        del: append.simps strings_SplitN.simps)
  then show ?thesis by (simp add: arn_Parse_def arn_String_def)
qed

section \<open>Random suffixes\<close>

definition alphanums :: string where
  "alphanums = ''bcdfghjklmnpqrstvwxz2456789''"

definition alphanumsIdx :: "64 word \<Rightarrow> nat" where
  "alphanumsIdx r = unat (r AND 31)"

text \<open>
  The loop of \<open>rand.String\<close>: \<open>src k\<close> is the \<open>k\<close>-th value of \<open>rng.Int63\<close>, \<open>k\<close> the number of
  values drawn, \<open>r\<close> the bits of the current one that are left, \<open>remaining\<close> how many letters it
  still holds and \<open>n\<close> how many letters are still wanted. An index outside the alphabet is
  skipped, so the loop need not end on every source.
\<close>

partial_function (option) rand_loop ::
    "(nat \<Rightarrow> 64 word) \<Rightarrow> nat \<Rightarrow> 64 word \<Rightarrow> nat \<Rightarrow> nat \<Rightarrow> string option" where
  "rand_loop src k r remaining n =
     (if n = 0 then Some []
      else if remaining = 0 then rand_loop src (Suc k) (src k) 12 n
      else if alphanumsIdx r < 27
      then Option.bind (rand_loop src k (drop_bit 5 r) (remaining - 1) (n - 1))
             (\<lambda>s. Some (alphanums ! alphanumsIdx r # s))
      else rand_loop src k (drop_bit 5 r) (remaining - 1) n)"

definition rand_String :: "(nat \<Rightarrow> 64 word) \<Rightarrow> nat \<Rightarrow> string option" where
  "rand_String src n = rand_loop src 1 (src 0) 12 n"

lemma rand_loop_sound:
  assumes ret: "rand_loop src k r remaining n = Some s"
  shows "length s = n \<and> set s \<subseteq> set alphanums"
proof (rule rand_loop.raw_induct [where P = "\<lambda>src k r remaining n s. length s = n \<and> set s \<subseteq> set alphanums",
      OF _ ret])
  fix f src k r remaining n s
  assume IH: "\<And>src k r remaining n s. f src k r remaining n = Some s \<Longrightarrow>
      length s = n \<and> set s \<subseteq> set alphanums"
    and eq: "(if n = 0 then Some [] else if remaining = 0 then f src (Suc k) (src k) 12 n
      else if alphanumsIdx r < 27
      then Option.bind (f src k (drop_bit 5 r) (remaining - 1) (n - 1))
             (\<lambda>s. Some (alphanums ! alphanumsIdx r # s))
      else f src k (drop_bit 5 r) (remaining - 1) n) = Some s"
  have mem: "alphanumsIdx r < 27 \<Longrightarrow> alphanums ! alphanumsIdx r \<in> set alphanums"
    by (rule nth_mem) (simp add: alphanums_def)
  show "length s = n \<and> set s \<subseteq> set alphanums"
    using eq mem by (auto dest!: IH split: if_splits bind_splits)
qed

lemma rand_String_length: "rand_String src n = Some s \<Longrightarrow> length s = n"
  unfolding rand_String_def by (drule rand_loop_sound) simp

text \<open>
  The loop ends as soon as every value drawn holds at least one usable letter among its
  twelve.
\<close>

definition usable :: "64 word \<Rightarrow> nat \<Rightarrow> bool" where
  "usable r m \<longleftrightarrow> (\<exists>j < m. alphanumsIdx (drop_bit (5 * j) r) < 27)"

lemma usable_Suc:
  "usable r (Suc m) \<longleftrightarrow> alphanumsIdx r < 27 \<or> usable (drop_bit 5 r) m"
proof -
  have "(\<exists>j < Suc m. Q j) \<longleftrightarrow> Q 0 \<or> (\<exists>j < m. Q (Suc j))" for Q
    by (metis Suc_less_eq not0_implies_Suc zero_less_Suc)
  from this [of "\<lambda>j. alphanumsIdx (drop_bit (5 * j) r) < 27"] show ?thesis
    by (simp add: usable_def add.commute)
qed

lemma rand_loop_progress:
  assumes next_n: "\<And>k r m. \<exists>s. rand_loop src k r m n = Some s" and "usable r m"
  shows "\<exists>s. rand_loop src k r m (Suc n) = Some s"
  using assms(2)
proof (induction m arbitrary: r)
  case 0
  then show ?case by (simp add: usable_def)
next
  case (Suc m)
  show ?case
  proof (cases "alphanumsIdx r < 27")
    case True
    with next_n [of k "drop_bit 5 r" m] show ?thesis
      by (auto simp: rand_loop.simps [of _ _ r])
  next
    case False
    with Suc.prems have "usable (drop_bit 5 r) m" by (simp add: usable_Suc)
    from Suc.IH [OF this] False show ?thesis by (simp add: rand_loop.simps [of _ _ r])
  qed
qed

lemma rand_loop_skip:
  "\<not> usable r m \<Longrightarrow> 0 < n \<Longrightarrow>
     rand_loop src k r m n = rand_loop src (Suc k) (src k) 12 n"
proof (induction m arbitrary: r)
  case 0
  then show ?case by (simp add: rand_loop.simps [of _ _ r])
next
  case (Suc m)
  then show ?case by (simp add: usable_Suc rand_loop.simps [of _ _ r])
qed

lemma rand_loop_returns:
  assumes "\<And>k. usable (src k) 12"
  shows "\<exists>s. rand_loop src k r m n = Some s"
proof (induction n arbitrary: k r m)
  case 0
  then show ?case by (simp add: rand_loop.simps)
next
  case (Suc n)
  show ?case
  proof (cases "usable r m")
    case True
    with rand_loop_progress [OF Suc.IH] show ?thesis by blast
  next
    case False
    with rand_loop_progress [OF Suc.IH assms] show ?thesis
      by (simp add: rand_loop_skip)
  qed
qed

lemma rand_String_returns:
  "(\<And>k. usable (src k) 12) \<Longrightarrow> \<exists>s. rand_String src n = Some s"
  unfolding rand_String_def by (rule rand_loop_returns)

end
