(* ===== verification/ApiTypes.thy ===== *)
theory ApiTypes
  imports GoLib
begin

text \<open>
  The data the operator works on: \<open>pkg/apis/cloudcredential/v1\<close> (the CredentialsRequest resource,
  the provider specs and statuses, the codec for raw extensions), the Kubernetes and OpenShift
  objects it reads and writes, and Go error values.

  A Go pointer, map or slice that can be \<open>nil\<close> and is compared or tested as such is an
  \<open>option\<close>; a map is a finite map. Times are nanoseconds since the epoch. \<open>reflect.DeepEqual\<close> on
  these values is equality. The structs that only occur inside others are parameterised by the
  types of their reference fields, so that the theory \<open>DeepCopy\<close> can use them with pointers and
  slices in place of the values.
\<close>

section \<open>Errors\<close>

text \<open>
  The dynamic types of the errors the operator distinguishes: an API status error with its
  reason, an AWS error with its code, the operator's own \<open>ActuatorError\<close>, a malformed URL escape,
  and every other error, which has only a text.
\<close>

datatype gerror =
    StatusError (status_reason: string) (status_text: string)
  | AwsError (aws_code: string) (aws_text: string)
  | ActuatorError (ErrReason: string) (ErrMessage: string)
  | EscapeError string
  | PlainError string

fun error_text :: "gerror \<Rightarrow> string" where
  "error_text (StatusError _ s) = s"
| "error_text (AwsError _ s) = s"
| "error_text (ActuatorError _ m) = m"
| "error_text (EscapeError s) = ''invalid URL escape '' @ [CHR 0x22] @ s @ [CHR 0x22]"
| "error_text (PlainError s) = s"

text \<open>\<open>errors.IsNotFound\<close> of \<open>k8s.io/apimachinery/pkg/api/errors\<close>.\<close>

fun IsNotFound :: "gerror \<Rightarrow> bool" where
  "IsNotFound (StatusError r _) = (r = ''NotFound'')"
| "IsNotFound _ = False"

section \<open>Object metadata\<close>

record TypeMeta =
  tm_Kind :: string
  tm_APIVersion :: string

record ListMeta =
  lm_SelfLink :: string
  lm_ResourceVersion :: string
  lm_Continue :: string

record 'flag OwnerReferenceOf =
  own_APIVersion :: string
  own_Kind :: string
  own_Name :: string
  own_UID :: string
  own_Controller :: 'flag
  own_BlockOwnerDeletion :: 'flag

type_synonym OwnerReference = "bool option OwnerReferenceOf"

record StatusCause =
  sc_Type :: string
  sc_Message :: string
  sc_Field :: string

record 'causes StatusDetailsOf =
  sd_Name :: string
  sd_Group :: string
  sd_Kind :: string
  sd_UID :: string
  sd_Causes :: 'causes
  sd_RetryAfterSeconds :: int

type_synonym StatusDetails = "StatusCause list option StatusDetailsOf"

record 'details MetaStatusOf =
  ms_TypeMeta :: TypeMeta
  ms_ListMeta :: ListMeta
  ms_Status :: string
  ms_Message :: string
  ms_Reason :: string
  ms_Details :: 'details
  ms_Code :: int

type_synonym MetaStatus = "StatusDetails option MetaStatusOf"

text \<open>An \<open>Initializer\<close> has a single field, its name.\<close>

record ('pending, 'result) InitializersOf =
  ini_Pending :: 'pending
  ini_Result :: 'result

type_synonym Initializers = "(string list option, MetaStatus option) InitializersOf"

record ObjectMeta =
  om_Name :: string
  om_GenerateName :: string
  om_Namespace :: string
  om_SelfLink :: string
  om_UID :: string
  om_ResourceVersion :: string
  om_Generation :: int
  om_CreationTimestamp :: int
  om_DeletionTimestamp :: "int option"
  om_DeletionGracePeriodSeconds :: "int option"
  om_Labels :: "(string, string) gomap"
  om_Annotations :: "(string, string) gomap"
  om_OwnerReferences :: "OwnerReference list option"
  om_Initializers :: "Initializers option"
  om_Finalizers :: "string list option"
  om_ClusterName :: string

definition empty_ObjectMeta :: ObjectMeta where
  "empty_ObjectMeta = \<lparr>om_Name = [], om_GenerateName = [], om_Namespace = [], om_SelfLink = [],
     om_UID = [], om_ResourceVersion = [], om_Generation = 0, om_CreationTimestamp = 0,
     om_DeletionTimestamp = None, om_DeletionGracePeriodSeconds = None, om_Labels = None,
     om_Annotations = None, om_OwnerReferences = None, om_Initializers = None,
     om_Finalizers = None, om_ClusterName = []\<rparr>"

record NamespacedName =
  nn_Namespace :: string
  nn_Name :: string

record ObjectReference =
  or_Kind :: string
  or_Namespace :: string
  or_Name :: string
  or_UID :: string
  or_APIVersion :: string
  or_ResourceVersion :: string
  or_FieldPath :: string

text \<open>\<open>runtime.RawExtension\<close>: the undecoded bytes.\<close>

type_synonym RawExtension = string

section \<open>Secrets\<close>

record Secret =
  sec_TypeMeta :: TypeMeta
  sec_Meta :: ObjectMeta
  sec_Data :: "(string, string) gomap"
  sec_StringData :: "(string, string) gomap"
  sec_Type :: string

abbreviation empty_TypeMeta :: TypeMeta where
  "empty_TypeMeta \<equiv> \<lparr>tm_Kind = [], tm_APIVersion = []\<rparr>"

definition empty_Secret :: Secret where
  "empty_Secret = \<lparr>sec_TypeMeta = empty_TypeMeta, sec_Meta = empty_ObjectMeta,
     sec_Data = None, sec_StringData = None, sec_Type = []\<rparr>"

abbreviation sec_Name :: "Secret \<Rightarrow> string" where
  "sec_Name s \<equiv> om_Name (sec_Meta s)"

abbreviation sec_Annotations :: "Secret \<Rightarrow> (string, string) gomap" where
  "sec_Annotations s \<equiv> om_Annotations (sec_Meta s)"

definition set_sec_Annotations :: "(string, string) gomap \<Rightarrow> Secret \<Rightarrow> Secret" where
  "set_sec_Annotations a s = s\<lparr>sec_Meta := (sec_Meta s)\<lparr>om_Annotations := a\<rparr>\<rparr>"

definition sec_Key :: "Secret \<Rightarrow> NamespacedName" where
  "sec_Key s = \<lparr>nn_Namespace = om_Namespace (sec_Meta s), nn_Name = om_Name (sec_Meta s)\<rparr>"

section \<open>Credentials requests\<close>

definition FinalizerDeprovision :: string where
  "FinalizerDeprovision = ''cloudcredential.openshift.io/deprovision''"

definition AnnotationCredentialsRequest :: string where
  "AnnotationCredentialsRequest = ''cloudcredential.openshift.io/credentials-request''"

definition AnnotationAWSPolicyLastApplied :: string where
  "AnnotationAWSPolicyLastApplied = ''cloudcredential.openshift.io/aws-policy-last-applied''"

record CredentialsRequestSpec =
  SecretRef :: ObjectReference
  ProviderSpec :: "RawExtension option"

type_synonym CredentialsRequestConditionType = string

definition InsufficientCloudCredentials :: CredentialsRequestConditionType where
  "InsufficientCloudCredentials = ''InsufficientCloudCreds''"

definition MissingTargetNamespace :: CredentialsRequestConditionType where
  "MissingTargetNamespace = ''MissingTargetNamespace''"

definition CredentialsProvisionFailure :: CredentialsRequestConditionType where
  "CredentialsProvisionFailure = ''CredentialsProvisionFailure''"

definition CredentialsDeprovisionFailure :: CredentialsRequestConditionType where
  "CredentialsDeprovisionFailure = ''CredentialsDeprovisionFailure''"

type_synonym ConditionStatus = string

definition ConditionTrue :: ConditionStatus where "ConditionTrue = ''True''"
definition ConditionFalse :: ConditionStatus where "ConditionFalse = ''False''"
definition ConditionUnknown :: ConditionStatus where "ConditionUnknown = ''Unknown''"

lemma condition_types_distinct [simp]:
  "InsufficientCloudCredentials \<noteq> MissingTargetNamespace"
  "InsufficientCloudCredentials \<noteq> CredentialsProvisionFailure"
  "InsufficientCloudCredentials \<noteq> CredentialsDeprovisionFailure"
  "MissingTargetNamespace \<noteq> InsufficientCloudCredentials"
  "MissingTargetNamespace \<noteq> CredentialsProvisionFailure"
  "MissingTargetNamespace \<noteq> CredentialsDeprovisionFailure"
  "CredentialsProvisionFailure \<noteq> InsufficientCloudCredentials"
  "CredentialsProvisionFailure \<noteq> MissingTargetNamespace"
  "CredentialsProvisionFailure \<noteq> CredentialsDeprovisionFailure"
  "CredentialsDeprovisionFailure \<noteq> InsufficientCloudCredentials"
  "CredentialsDeprovisionFailure \<noteq> MissingTargetNamespace"
  "CredentialsDeprovisionFailure \<noteq> CredentialsProvisionFailure"
  by (simp_all add: InsufficientCloudCredentials_def MissingTargetNamespace_def
      CredentialsProvisionFailure_def CredentialsDeprovisionFailure_def)

lemma condition_types_nonempty [simp]:
  "InsufficientCloudCredentials \<noteq> []" "MissingTargetNamespace \<noteq> []"
  "CredentialsProvisionFailure \<noteq> []" "CredentialsDeprovisionFailure \<noteq> []"
  "[] \<noteq> InsufficientCloudCredentials" "[] \<noteq> CredentialsProvisionFailure"
  by (simp_all add: InsufficientCloudCredentials_def MissingTargetNamespace_def
      CredentialsProvisionFailure_def CredentialsDeprovisionFailure_def)

lemma condition_status_distinct [simp]:
  "ConditionTrue \<noteq> ConditionFalse" "ConditionFalse \<noteq> ConditionTrue"
  "ConditionUnknown \<noteq> ConditionTrue" "ConditionUnknown \<noteq> ConditionFalse"
  by (simp_all add: ConditionTrue_def ConditionFalse_def ConditionUnknown_def)

lemma annotations_distinct [simp]:
  "AnnotationCredentialsRequest \<noteq> AnnotationAWSPolicyLastApplied"
  "AnnotationAWSPolicyLastApplied \<noteq> AnnotationCredentialsRequest"
  by (simp_all add: AnnotationCredentialsRequest_def AnnotationAWSPolicyLastApplied_def)

record CredentialsRequestCondition =
  cc_Type :: CredentialsRequestConditionType
  cc_Status :: ConditionStatus
  cc_LastProbeTime :: int
  cc_LastTransitionTime :: int
  cc_Reason :: string
  cc_Message :: string

record CredentialsRequestStatus =
  Provisioned :: bool
  LastSyncTimestamp :: "int option"
  LastSyncGeneration :: int
  ProviderStatus :: "RawExtension option"
  Conditions :: "CredentialsRequestCondition list option"

record CredentialsRequest =
  cr_TypeMeta :: TypeMeta
  cr_Meta :: ObjectMeta
  cr_Spec :: CredentialsRequestSpec
  cr_Status :: CredentialsRequestStatus

abbreviation cr_Name :: "CredentialsRequest \<Rightarrow> string" where
  "cr_Name cr \<equiv> om_Name (cr_Meta cr)"

abbreviation cr_Namespace :: "CredentialsRequest \<Rightarrow> string" where
  "cr_Namespace cr \<equiv> om_Namespace (cr_Meta cr)"

text \<open>The target secret of a request, as every lookup of it spells the key.\<close>

definition target_key :: "CredentialsRequest \<Rightarrow> NamespacedName" where
  "target_key cr = \<lparr>nn_Namespace = or_Namespace (SecretRef (cr_Spec cr)),
                    nn_Name = or_Name (SecretRef (cr_Spec cr))\<rparr>"

text \<open>The value of the back-reference annotation: \<open>fmt.Sprintf("%s/%s", cr.Namespace, cr.Name)\<close>.\<close>

definition cr_ref :: "CredentialsRequest \<Rightarrow> string" where
  "cr_ref cr = cr_Namespace cr @ ''/'' @ cr_Name cr"

text \<open>A \<open>nil\<close> slice of conditions and an empty one read the same.\<close>

definition cr_conditions :: "CredentialsRequest \<Rightarrow> CredentialsRequestCondition list" where
  "cr_conditions cr = (case Conditions (cr_Status cr) of None \<Rightarrow> [] | Some cs \<Rightarrow> cs)"

section \<open>Provider specs and statuses\<close>

record StatementEntry =
  se_Effect :: string
  se_Action :: "string list option"
  se_Resource :: string

record AWSProviderSpec =
  aws_spec_TypeMeta :: TypeMeta
  StatementEntries :: "StatementEntry list"

record AWSProviderStatus =
  aws_status_TypeMeta :: TypeMeta
  User :: string
  Policy :: string

definition empty_AWSProviderStatus :: AWSProviderStatus where
  "empty_AWSProviderStatus = \<lparr>aws_status_TypeMeta = empty_TypeMeta, User = [], Policy = []\<rparr>"

record RoleBinding =
  Role :: string
  Scope :: string

record AzureProviderSpec =
  azure_spec_TypeMeta :: TypeMeta
  RoleBindings :: "RoleBinding list option"

record AzureProviderStatus =
  azure_status_TypeMeta :: TypeMeta
  ServicePrincipalName :: string
  AppID :: string

definition empty_AzureProviderStatus :: AzureProviderStatus where
  "empty_AzureProviderStatus =
     \<lparr>azure_status_TypeMeta = empty_TypeMeta, ServicePrincipalName = [], AppID = []\<rparr>"

section \<open>The codec\<close>

text \<open>
  \<open>ProviderCodec\<close> wraps an encoder and a decoder of \<open>k8s.io/apimachinery\<close>, which are parameters:
  one function per object type that the operator passes to them, failing with a text.
\<close>

record ProviderCodec =
  decode_AWSProviderSpec :: "string \<Rightarrow> string + AWSProviderSpec"
  decode_AWSProviderStatus :: "string \<Rightarrow> string + AWSProviderStatus"
  encode_AWSProviderStatus :: "AWSProviderStatus \<Rightarrow> string + string"
  decode_AzureProviderSpec :: "string \<Rightarrow> string + AzureProviderSpec"
  decode_AzureProviderStatus :: "string \<Rightarrow> string + AzureProviderStatus"

text \<open>\<open>EncodeProviderSpec\<close> and \<open>EncodeProviderStatus\<close>, given the encoder for the object's type.\<close>

definition EncodeProviderSpec :: "('o \<Rightarrow> string + string) \<Rightarrow> 'o \<Rightarrow> gerror + RawExtension" where
  "EncodeProviderSpec encode obj = (case encode obj of
      Inl err \<Rightarrow> Inl (PlainError (''encoding failed: '' @ err))
    | Inr buf \<Rightarrow> Inr buf)"

definition EncodeProviderStatus :: "('o \<Rightarrow> string + string) \<Rightarrow> 'o \<Rightarrow> gerror + RawExtension" where
  "EncodeProviderStatus encode obj = (case encode obj of
      Inl err \<Rightarrow> Inl (PlainError (''encoding failed: '' @ err))
    | Inr buf \<Rightarrow> Inr buf)"

text \<open>
  \<open>DecodeProviderSpec\<close> reads \<open>providerConfig.Raw\<close> without a check, so a \<open>nil\<close> extension panics;
  \<open>DecodeProviderStatus\<close> leaves the output at its zero value for a \<open>nil\<close> extension.
\<close>

definition DecodeProviderSpec ::
    "(string \<Rightarrow> string + 'o) \<Rightarrow> RawExtension option \<Rightarrow> ('ev, gerror + 'o) go" where
  "DecodeProviderSpec decode providerConfig =
     bind_go (deref providerConfig) (\<lambda>raw. case decode raw of
         Inl err \<Rightarrow> ret (Inl (PlainError (''decoding failure: '' @ err)))
       | Inr out \<Rightarrow> ret (Inr out))"

definition DecodeProviderStatus ::
    "(string \<Rightarrow> string + 'o) \<Rightarrow> RawExtension option \<Rightarrow> 'o \<Rightarrow> gerror + 'o" where
  "DecodeProviderStatus decode providerStatus zero = (case providerStatus of
      Some raw \<Rightarrow> (case decode raw of
          Inl err \<Rightarrow> Inl (PlainError (''decoding failure: '' @ err))
        | Inr out \<Rightarrow> Inr out)
    | None \<Rightarrow> Inr zero)"

text \<open>
  What the operator relies on of the serializer: a status it has encoded decodes to a status
  with the same user and policy.
\<close>

definition codec_roundtrip :: "ProviderCodec \<Rightarrow> bool" where
  "codec_roundtrip c \<longleftrightarrow> (\<forall>st raw. encode_AWSProviderStatus c st = Inr raw \<longrightarrow>
     (\<exists>st'. decode_AWSProviderStatus c raw = Inr st' \<and> User st' = User st \<and> Policy st' = Policy st))"

section \<open>Cluster configuration objects\<close>

record Infrastructure =
  InfrastructureName :: string
  Platform :: string

record ClusterOperatorStatusCondition =
  oc_Type :: string
  oc_Status :: ConditionStatus
  oc_LastTransitionTime :: int
  oc_Reason :: string
  oc_Message :: string

record OperandVersion =
  ov_Name :: string
  ov_Version :: string

record ClusterOperator =
  co_Meta :: ObjectMeta
  co_Conditions :: "ClusterOperatorStatusCondition list"
  co_Versions :: "OperandVersion list option"
  co_RelatedObjects :: "string list option"
  co_Extension :: RawExtension

definition OperatorAvailable :: string where "OperatorAvailable = ''Available''"
definition OperatorProgressing :: string where "OperatorProgressing = ''Progressing''"
definition OperatorFailing :: string where "OperatorFailing = ''Failing''"

lemma operator_conditions_distinct [simp]:
  "OperatorAvailable \<noteq> OperatorProgressing" "OperatorAvailable \<noteq> OperatorFailing"
  "OperatorProgressing \<noteq> OperatorAvailable" "OperatorProgressing \<noteq> OperatorFailing"
  "OperatorFailing \<noteq> OperatorAvailable" "OperatorFailing \<noteq> OperatorProgressing"
  by (simp_all add: OperatorAvailable_def OperatorProgressing_def OperatorFailing_def)

end
