(* ===== verification/ApiScheme.thy ===== *)
theory ApiScheme
  imports ApiTypes
begin

text \<open>
  Registration of the API types: \<open>pkg/apis/apis.go\<close>, \<open>addtoscheme_cloudcreds_v1.go\<close>, \<open>register.go\<close>, the
  \<open>init\<close> of \<open>credentialsrequest_types.go\<close> and \<open>NewScheme\<close> of \<open>codec.go\<close>, with the parts of the vendored
  libraries they run: \<open>runtime.Scheme\<close>, \<open>runtime.SchemeBuilder\<close>, \<open>scheme.Builder\<close>, \<open>metav1.AddToGroupVersion\<close>
  and \<open>Install\<close> of \<open>openshift/api/config/v1\<close>.

  \<^item> A Go type is a value of \<open>rtype\<close>, as \<open>reflect\<close> sees it. Registration looks at nothing but the types
    of the objects and functions it is given, so these stand for them.
  \<^item> The scheme is a record with the maps of \<open>runtime.Scheme\<close> that registration reads or writes;
    its converter is the table of conversion functions by the pair of types they convert between,
    and the set of types with input defaults. The scheme's name is not modelled, and a panic
    carries the constant part of its message.
  \<^item> A function that may panic yields an \<open>outcome\<close>; errors are returned values.
  \<^item> The contract of a step that adds to a scheme is the locale \<open>registration\<close>: it succeeds on every
    scheme its table of kinds does not clash with, keeps the invariant \<open>wf_scheme\<close> and what was
    registered before, adds its own kinds, and changes nothing when it is run again.
\<close>

section \<open>Types and kinds\<close>

datatype rtype =
    TBasic string
  | TStruct string string
  | TNamed string string
  | TInterface string string
  | TPtr rtype
  | TSlice rtype
  | TMap rtype rtype
  | TFunc "rtype list" "rtype list"

fun type_Name :: "rtype \<Rightarrow> string" where
  "type_Name (TBasic n) = n"
| "type_Name (TStruct p n) = n"
| "type_Name (TNamed p n) = n"
| "type_Name (TInterface p n) = n"
| "type_Name _ = []"

fun type_Elem :: "rtype \<Rightarrow> rtype outcome" where
  "type_Elem (TPtr t) = Return t"
| "type_Elem (TSlice t) = Return t"
| "type_Elem (TMap k v) = Return v"
| "type_Elem _ = Stop (Panicked ''reflect: Elem of invalid type'')"

fun is_Ptr :: "rtype \<Rightarrow> bool" where
  "is_Ptr (TPtr t) = True"
| "is_Ptr _ = False"

fun is_Struct :: "rtype \<Rightarrow> bool" where
  "is_Struct (TStruct p n) = True"
| "is_Struct _ = False"

record GroupVersion =
  gv_Group :: string
  gv_Version :: string

record GroupVersionKind =
  gvk_Group :: string
  gvk_Version :: string
  gvk_Kind :: string

record GroupVersionResource =
  gvr_Group :: string
  gvr_Version :: string
  gvr_Resource :: string

record GroupResource =
  gr_Group :: string
  gr_Resource :: string

definition WithKind :: "GroupVersion \<Rightarrow> string \<Rightarrow> GroupVersionKind" where
  "WithKind gv kind = \<lparr>gvk_Group = gv_Group gv, gvk_Version = gv_Version gv, gvk_Kind = kind\<rparr>"

definition WithResource :: "GroupVersion \<Rightarrow> string \<Rightarrow> GroupVersionResource" where
  "WithResource gv resource = \<lparr>gvr_Group = gv_Group gv, gvr_Version = gv_Version gv, gvr_Resource = resource\<rparr>"

definition gvk_GroupVersion :: "GroupVersionKind \<Rightarrow> GroupVersion" where
  "gvk_GroupVersion gvk = \<lparr>gv_Group = gvk_Group gvk, gv_Version = gvk_Version gvk\<rparr>"

definition gvr_GroupResource :: "GroupVersionResource \<Rightarrow> GroupResource" where
  "gvr_GroupResource gvr = \<lparr>gr_Group = gvr_Group gvr, gr_Resource = gvr_Resource gvr\<rparr>"

definition APIVersionInternal :: string where
  "APIVersionInternal = ''__internal''"

section \<open>The scheme\<close>

record Scheme =
  gvkToType :: "GroupVersionKind \<rightharpoonup> rtype"
  typeToGVK :: "rtype \<rightharpoonup> GroupVersionKind list"
  unversionedTypes :: "rtype \<rightharpoonup> GroupVersionKind"
  unversionedKinds :: "string \<rightharpoonup> rtype"
  observedVersions :: "GroupVersion list"
  conversionFuncs :: "rtype \<times> rtype \<rightharpoonup> rtype"
  inputDefaults :: "rtype set"

definition addObservedVersion :: "GroupVersion \<Rightarrow> Scheme \<Rightarrow> Scheme" where
  "addObservedVersion version s =
     (if length (gv_Version version) = 0 \<or> gv_Version version = APIVersionInternal then s
      else if list_ex (\<lambda>observedVersion. observedVersion = version) (observedVersions s) then s
      else s\<lparr>observedVersions := observedVersions s @ [version]\<rparr>)"

definition AddKnownTypeWithName :: "GroupVersionKind \<Rightarrow> rtype \<Rightarrow> Scheme \<Rightarrow> Scheme outcome" where
  "AddKnownTypeWithName gvk obj s =
     (let s = addObservedVersion (gvk_GroupVersion gvk) s in
      if length (gvk_Version gvk) = 0 then Stop (Panicked ''version is required on all types'')
      else if \<not> is_Ptr obj then Stop (Panicked ''All types must be pointers to structs.'')
      else bind_outcome (type_Elem obj) (\<lambda>t.
        if \<not> is_Struct t then Stop (Panicked ''All types must be pointers to structs.'')
        else if (case gvkToType s gvk of Some oldT \<Rightarrow> oldT \<noteq> t | None \<Rightarrow> False)
          then Stop (Panicked ''Double registration of different types'')
        else let s = s\<lparr>gvkToType := (gvkToType s)(gvk \<mapsto> t)\<rparr>;
                 known = (case typeToGVK s t of Some gvks \<Rightarrow> gvks | None \<Rightarrow> []) in
          if list_ex (\<lambda>existingGvk. existingGvk = gvk) known then Return s
          else Return (s\<lparr>typeToGVK := (typeToGVK s)(t \<mapsto> known @ [gvk])\<rparr>)))"

fun add_known_types :: "GroupVersion \<Rightarrow> rtype list \<Rightarrow> Scheme \<Rightarrow> Scheme outcome" where
  "add_known_types gv [] s = Return s"
| "add_known_types gv (obj # objs) s =
     (if \<not> is_Ptr obj then Stop (Panicked ''All types must be pointers to structs.'')
      else bind_outcome (type_Elem obj) (\<lambda>t.
        bind_outcome (AddKnownTypeWithName (WithKind gv (type_Name t)) obj s) (add_known_types gv objs)))"

definition AddKnownTypes :: "GroupVersion \<Rightarrow> rtype list \<Rightarrow> Scheme \<Rightarrow> Scheme outcome" where
  "AddKnownTypes gv objs s = add_known_types gv objs (addObservedVersion gv s)"

fun mark_unversioned :: "GroupVersion \<Rightarrow> rtype list \<Rightarrow> Scheme \<Rightarrow> Scheme outcome" where
  "mark_unversioned version [] s = Return s"
| "mark_unversioned version (obj # objs) s = bind_outcome (type_Elem obj) (\<lambda>t.
     let gvk = WithKind version (type_Name t);
         s = s\<lparr>unversionedTypes := (unversionedTypes s)(t \<mapsto> gvk)\<rparr> in
     if (case unversionedKinds s (gvk_Kind gvk) of Some old \<Rightarrow> t \<noteq> old | None \<Rightarrow> False)
     then Stop (Panicked ''has already been registered as unversioned kind'')
     else mark_unversioned version objs (s\<lparr>unversionedKinds := (unversionedKinds s)(gvk_Kind gvk \<mapsto> t)\<rparr>))"

definition AddUnversionedTypes :: "GroupVersion \<Rightarrow> rtype list \<Rightarrow> Scheme \<Rightarrow> Scheme outcome" where
  "AddUnversionedTypes version objs s =
     bind_outcome (AddKnownTypes version objs (addObservedVersion version s)) (mark_unversioned version objs)"

text \<open>
  Looking up: is a kind known, the kinds of an object, and a new object of a kind. The objects are
  structs of their own Go type; an \<open>Unstructured\<close> object, which carries its kind as data, is not one.
\<close>

definition Recognizes :: "Scheme \<Rightarrow> GroupVersionKind \<Rightarrow> bool" where
  "Recognizes s gvk \<longleftrightarrow> gvkToType s gvk \<noteq> None"

definition ObjectKinds :: "Scheme \<Rightarrow> rtype \<Rightarrow> gerror + GroupVersionKind list \<times> bool" where
  "ObjectKinds s obj = (case obj of
      TPtr t \<Rightarrow> (case typeToGVK s t of
          None \<Rightarrow> Inl (PlainError ''no kind is registered for the type'')
        | Some gvks \<Rightarrow> Inr (gvks, unversionedTypes s t \<noteq> None))
    | _ \<Rightarrow> Inl (PlainError ''expected pointer''))"

definition Scheme_New :: "Scheme \<Rightarrow> GroupVersionKind \<Rightarrow> gerror + rtype" where
  "Scheme_New s kind = (case gvkToType s kind of
      Some t \<Rightarrow> Inr (TPtr t)
    | None \<Rightarrow> (case unversionedKinds s (gvk_Kind kind) of
        Some t \<Rightarrow> Inr (TPtr t)
      | None \<Rightarrow> Inl (PlainError ''no kind is registered'')))"

section \<open>Conversion functions\<close>

definition conversion_Scope :: rtype where
  "conversion_Scope = TInterface ''k8s.io/apimachinery/pkg/conversion'' ''Scope''"

definition error_type :: rtype where
  "error_type = TInterface '''' ''error''"

fun verifyConversionFunctionSignature :: "rtype \<Rightarrow> gerror option" where
  "verifyConversionFunctionSignature (TFunc ins outs) =
     (if length ins \<noteq> 3 then Some (PlainError ''expected three 'in' params'')
      else if length outs \<noteq> 1 then Some (PlainError ''expected one 'out' param'')
      else if \<not> is_Ptr (ins ! 0) then Some (PlainError ''expected pointer arg for 'in' param 0'')
      else if \<not> is_Ptr (ins ! 1) then Some (PlainError ''expected pointer arg for 'in' param 1'')
      else if ins ! 2 \<noteq> conversion_Scope then Some (PlainError ''expected Scope arg for 'in' param 2'')
      else if outs ! 0 \<noteq> error_type then Some (PlainError ''expected error return'')
      else None)"
| "verifyConversionFunctionSignature _ = Some (PlainError ''expected func'')"

text \<open>The pair of types a verified function converts between.\<close>

fun conversion_pair :: "rtype \<Rightarrow> rtype \<times> rtype" where
  "conversion_pair (TFunc (TPtr a # TPtr b # ins) outs) = (a, b)"
| "conversion_pair f = (f, f)"

fun AddConversionFuncs :: "rtype list \<Rightarrow> Scheme \<Rightarrow> gerror option \<times> Scheme" where
  "AddConversionFuncs [] s = (None, s)"
| "AddConversionFuncs (f # fs) s = (case verifyConversionFunctionSignature f of
      Some err \<Rightarrow> (Some err, s)
    | None \<Rightarrow> AddConversionFuncs fs (s\<lparr>conversionFuncs := (conversionFuncs s)(conversion_pair f \<mapsto> f)\<rparr>))"

definition RegisterInputDefaults :: "rtype \<Rightarrow> Scheme \<Rightarrow> gerror option \<times> Scheme" where
  "RegisterInputDefaults ft s =
     (if \<not> is_Ptr ft then (Some (PlainError ''expected pointer 'in' argument''), s)
      else (None, s\<lparr>inputDefaults := insert ft (inputDefaults s)\<rparr>))"

text \<open>\<open>utilruntime.Must\<close> around a step that returns an error.\<close>

definition Must :: "gerror option \<times> Scheme \<Rightarrow> Scheme outcome" where
  "Must r = (case r of (Some err, s) \<Rightarrow> Stop (Panicked (error_text err)) | (None, s) \<Rightarrow> Return s)"

abbreviation converter :: "rtype \<Rightarrow> rtype \<Rightarrow> rtype" where
  "converter a b \<equiv> TFunc [TPtr a, TPtr b, conversion_Scope] [error_type]"

abbreviation meta_v1 :: "string \<Rightarrow> rtype" where
  "meta_v1 n \<equiv> TStruct ''k8s.io/apimachinery/pkg/apis/meta/v1'' n"

text \<open>The functions \<open>NewScheme\<close> of the runtime package registers.\<close>

definition DefaultEmbeddedConversions :: "rtype list" where
  "DefaultEmbeddedConversions =
     (let Object = TInterface ''k8s.io/apimachinery/pkg/runtime'' ''Object'';
          RawExtension = TStruct ''k8s.io/apimachinery/pkg/runtime'' ''RawExtension'' in
      [converter Object RawExtension, converter RawExtension Object])"

definition DefaultStringConversions :: "rtype list" where
  "DefaultStringConversions = map (\<lambda>b. converter (TSlice (TBasic ''string'')) (TBasic b))
     [''string'', ''int'', ''bool'', ''int64'']"

text \<open>The functions of \<open>metav1\<close>: those between watch events, and those of its \<open>AddConversionFuncs\<close>.\<close>

definition watch_conversions :: "rtype list" where
  "watch_conversions =
     (let Event = TStruct ''k8s.io/apimachinery/pkg/watch'' ''Event'';
          WatchEvent = meta_v1 ''WatchEvent''; InternalEvent = meta_v1 ''InternalEvent'' in
      [converter WatchEvent Event, converter InternalEvent WatchEvent,
       converter Event WatchEvent, converter WatchEvent InternalEvent])"

definition metav1_conversions :: "rtype list" where
  "metav1_conversions =
     (let string = TBasic ''string''; int64 = TBasic ''int64''; int32 = TBasic ''int32'';
          bool = TBasic ''bool''; int = TBasic ''int''; float64 = TBasic ''float64'';
          Duration = meta_v1 ''Duration''; Time = meta_v1 ''Time''; LabelSelector = meta_v1 ''LabelSelector'';
          labels_Selector = TInterface ''k8s.io/apimachinery/pkg/labels'' ''Selector'';
          fields_Selector = TInterface ''k8s.io/apimachinery/pkg/fields'' ''Selector'';
          IntOrString = TStruct ''k8s.io/apimachinery/pkg/util/intstr'' ''IntOrString'';
          Quantity = TStruct ''k8s.io/apimachinery/pkg/api/resource'' ''Quantity'' in
      [converter (meta_v1 ''TypeMeta'') (meta_v1 ''TypeMeta''),
       converter (meta_v1 ''ListMeta'') (meta_v1 ''ListMeta''),
       converter IntOrString IntOrString,
       converter (TPtr Duration) Duration, converter Duration (TPtr Duration),
       converter (TSlice string) Time,
       converter Time Time, converter (meta_v1 ''MicroTime'') (meta_v1 ''MicroTime''),
       converter Quantity Quantity,
       converter string labels_Selector, converter labels_Selector string,
       converter string fields_Selector, converter fields_Selector string,
       converter (TPtr bool) bool, converter bool (TPtr bool),
       converter (TPtr string) string, converter string (TPtr string),
       converter (TPtr int64) int, converter int (TPtr int64),
       converter (TPtr int32) int32, converter int32 (TPtr int32),
       converter (TPtr int64) int64, converter int64 (TPtr int64),
       converter (TPtr float64) float64, converter float64 (TPtr float64),
       converter (TMap string string) LabelSelector, converter LabelSelector (TMap string string),
       converter (TSlice string) (TSlice int32),
       converter (TSlice string) (TNamed ''k8s.io/apimachinery/pkg/apis/meta/v1'' ''DeletionPropagation'')])"

section \<open>Building schemes\<close>

definition empty_Scheme :: Scheme where
  "empty_Scheme = \<lparr>gvkToType = Map.empty, typeToGVK = Map.empty, unversionedTypes = Map.empty, unversionedKinds = Map.empty,
     observedVersions = [], conversionFuncs = Map.empty, inputDefaults = {}\<rparr>"

definition runtime_NewScheme :: "Scheme outcome" where
  "runtime_NewScheme =
     (let s = empty_Scheme in
      bind_outcome (Must (AddConversionFuncs DefaultEmbeddedConversions s)) (\<lambda>s.
      bind_outcome (Must (AddConversionFuncs DefaultStringConversions s)) (\<lambda>s.
      bind_outcome (Must (RegisterInputDefaults (TPtr (TMap (TBasic ''string'') (TSlice (TBasic ''string'')))) s)) (\<lambda>s.
      Must (RegisterInputDefaults (TPtr (TNamed ''net/url'' ''Values'')) s)))))"

definition Unversioned :: GroupVersion where
  "Unversioned = \<lparr>gv_Group = [], gv_Version = ''v1''\<rparr>"

definition WatchEventKind :: string where
  "WatchEventKind = ''WatchEvent''"

definition metav1_options :: "rtype list" where
  "metav1_options = map (\<lambda>n. meta_v1 n)
     [''ListOptions'', ''ExportOptions'', ''GetOptions'', ''DeleteOptions'', ''CreateOptions'', ''UpdateOptions'']"

definition metav1_unversioned :: "rtype list" where
  "metav1_unversioned = map (\<lambda>n. meta_v1 n)
     [''Status'', ''APIVersions'', ''APIGroupList'', ''APIGroup'', ''APIResourceList'']"

text \<open>\<open>metav1.AddToGroupVersion\<close>; the \<open>RegisterDefaults\<close> it calls last is empty.\<close>

definition AddToGroupVersion :: "GroupVersion \<Rightarrow> Scheme \<Rightarrow> Scheme outcome" where
  "AddToGroupVersion groupVersion s =
     bind_outcome (AddKnownTypeWithName (WithKind groupVersion WatchEventKind) (TPtr (meta_v1 ''WatchEvent'')) s) (\<lambda>s.
     bind_outcome (AddKnownTypeWithName (WithKind \<lparr>gv_Group = gv_Group groupVersion, gv_Version = APIVersionInternal\<rparr> WatchEventKind)
       (TPtr (meta_v1 ''InternalEvent'')) s) (\<lambda>s.
     bind_outcome (AddKnownTypes groupVersion (map TPtr metav1_options) s) (\<lambda>s.
     bind_outcome (Must (AddConversionFuncs watch_conversions s)) (\<lambda>s.
     bind_outcome (AddUnversionedTypes Unversioned (map TPtr metav1_unversioned) s) (\<lambda>s.
     Must (AddConversionFuncs metav1_conversions s))))))"

text \<open>
  \<open>runtime.SchemeBuilder\<close> is a list of functions that add to a scheme, \<open>scheme.Builder\<close> a group version with
  such a list.
\<close>

type_synonym adder = "Scheme \<Rightarrow> (gerror option \<times> Scheme) outcome"

fun SchemeBuilder_AddToScheme :: "adder list \<Rightarrow> adder" where
  "SchemeBuilder_AddToScheme [] s = Return (None, s)"
| "SchemeBuilder_AddToScheme (f # fs) s = bind_outcome (f s) (\<lambda>(err, s). case err of
      Some e \<Rightarrow> Return (Some e, s)
    | None \<Rightarrow> SchemeBuilder_AddToScheme fs s)"

definition SchemeBuilder_Register :: "adder list \<Rightarrow> adder list \<Rightarrow> adder list" where
  "SchemeBuilder_Register sb funcs = foldl (\<lambda>sb f. sb @ [f]) sb funcs"

definition NewSchemeBuilder :: "adder list \<Rightarrow> adder list" where
  "NewSchemeBuilder funcs = SchemeBuilder_Register [] funcs"

record Builder =
  bld_GroupVersion :: GroupVersion
  bld_SchemeBuilder :: "adder list"

definition Builder_Register :: "rtype list \<Rightarrow> Builder \<Rightarrow> Builder" where
  "Builder_Register object bld = bld\<lparr>bld_SchemeBuilder := SchemeBuilder_Register (bld_SchemeBuilder bld)
     [\<lambda>scheme.
        bind_outcome (AddKnownTypes (bld_GroupVersion bld) object scheme) (\<lambda>scheme.
        bind_outcome (AddToGroupVersion (bld_GroupVersion bld) scheme) (\<lambda>scheme.
        Return (None, scheme)))]\<rparr>"

definition Builder_AddToScheme :: "Builder \<Rightarrow> adder" where
  "Builder_AddToScheme bld s = SchemeBuilder_AddToScheme (bld_SchemeBuilder bld) s"

definition Builder_Build :: "Builder \<Rightarrow> (gerror option \<times> Scheme) outcome" where
  "Builder_Build bld = bind_outcome runtime_NewScheme (Builder_AddToScheme bld)"

section \<open>The packages of the operator\<close>

text \<open>
  Package \<open>v1\<close>: the builder is a variable behind a pointer, which the \<open>init\<close> function of
  \<open>credentialsrequest_types.go\<close> extends. The method value \<open>AddToScheme\<close> holds the pointer, so it is a
  function of the builder as it is when it is called, and all callers run after the \<open>init\<close> functions
  of the packages they import.
\<close>

definition SchemeGroupVersion :: GroupVersion where
  "SchemeGroupVersion = \<lparr>gv_Group = ''cloudcredential.openshift.io'', gv_Version = ''v1''\<rparr>"

definition initial_SchemeBuilder :: Builder where
  "initial_SchemeBuilder = \<lparr>bld_GroupVersion = SchemeGroupVersion, bld_SchemeBuilder = []\<rparr>"

definition api_type :: "string \<Rightarrow> rtype" where
  "api_type n = TStruct ''github.com/openshift/cloud-credential-operator/pkg/apis/cloudcredential/v1'' n"

definition api_types :: "rtype list" where
  "api_types = [api_type ''CredentialsRequest'', api_type ''CredentialsRequestList'',
     api_type ''AWSProviderStatus'', api_type ''AWSProviderSpec'',
     api_type ''AzureProviderStatus'', api_type ''AzureProviderSpec'']"

definition v1_init :: "Builder \<Rightarrow> Builder" where
  "v1_init bld = Builder_Register (map TPtr api_types) bld"

definition SchemeBuilder :: Builder where
  "SchemeBuilder = v1_init initial_SchemeBuilder"

definition v1_AddToScheme :: "Builder \<Rightarrow> adder" where
  "v1_AddToScheme bld = Builder_AddToScheme bld"

definition Resource :: "string \<Rightarrow> GroupResource" where
  "Resource resource = gvr_GroupResource (WithResource SchemeGroupVersion resource)"

definition NewScheme :: "(gerror option \<times> Scheme) outcome" where
  "NewScheme = Builder_Build SchemeBuilder"

text \<open>Package \<open>apis\<close>, and the scheme that \<open>controller/utils\<close> fills when it is initialised.\<close>

definition apis_init :: "adder list \<Rightarrow> adder list" where
  "apis_init AddToSchemes = AddToSchemes @ [Builder_AddToScheme SchemeBuilder]"

definition AddToSchemes :: "adder list" where
  "AddToSchemes = apis_init []"

definition apis_AddToScheme :: adder where
  "apis_AddToScheme s = SchemeBuilder_AddToScheme AddToSchemes s"

definition utils_init :: "Scheme \<Rightarrow> Scheme outcome" where
  "utils_init scheme =
     bind_outcome (v1_AddToScheme SchemeBuilder scheme) (\<lambda>(err, s). case err of
       Some err \<Rightarrow> Stop (Panicked (error_text err))
     | None \<Rightarrow> Return s)"

definition credentailRequestScheme :: "Scheme outcome" where
  "credentailRequestScheme = bind_outcome runtime_NewScheme utils_init"

text \<open>\<open>openshift/api/config/v1\<close>.\<close>

definition config_GroupVersion :: GroupVersion where
  "config_GroupVersion = \<lparr>gv_Group = ''config.openshift.io'', gv_Version = ''v1''\<rparr>"

definition config_types :: "rtype list" where
  "config_types = map (TStruct ''github.com/openshift/api/config/v1'')
     [''APIServer'', ''APIServerList'', ''Authentication'', ''AuthenticationList'', ''Build'', ''BuildList'',
      ''ClusterOperator'', ''ClusterOperatorList'', ''ClusterVersion'', ''ClusterVersionList'',
      ''Console'', ''ConsoleList'', ''DNS'', ''DNSList'', ''FeatureGate'', ''FeatureGateList'',
      ''Image'', ''ImageList'', ''Infrastructure'', ''InfrastructureList'', ''Ingress'', ''IngressList'',
      ''Network'', ''NetworkList'', ''OAuth'', ''OAuthList'', ''Project'', ''ProjectList'',
      ''Proxy'', ''ProxyList'', ''Scheduler'', ''SchedulerList'']"

definition config_addKnownTypes :: adder where
  "config_addKnownTypes s =
     bind_outcome (AddKnownTypes config_GroupVersion (map TPtr config_types) s) (\<lambda>s.
     bind_outcome (AddToGroupVersion config_GroupVersion s) (\<lambda>s.
     Return (None, s)))"

definition Install :: adder where
  "Install s = SchemeBuilder_AddToScheme (NewSchemeBuilder [config_addKnownTypes]) s"

section \<open>The invariant of a scheme\<close>

text \<open>
  The two directions of the table agree, a type lists each of its kinds once, every kind has a
  version and belongs to a struct, the unversioned types are those of the group version
  \<open>Unversioned\<close>, and every conversion function is filed under the types it converts between.
\<close>

definition wf_scheme :: "Scheme \<Rightarrow> bool" where
  "wf_scheme s \<longleftrightarrow>
     (\<forall>k t. gvkToType s k = Some t \<longleftrightarrow> (\<exists>ks. typeToGVK s t = Some ks \<and> k \<in> set ks)) \<and>
     (\<forall>t ks. typeToGVK s t = Some ks \<longrightarrow> ks \<noteq> [] \<and> distinct ks) \<and>
     (\<forall>k t. gvkToType s k = Some t \<longrightarrow> gvk_Version k \<noteq> [] \<and> is_Struct t) \<and>
     (\<forall>t k. unversionedTypes s t = Some k \<longleftrightarrow>
        k = WithKind Unversioned (type_Name t) \<and> gvkToType s k = Some t \<and> unversionedKinds s (type_Name t) = Some t) \<and>
     (\<forall>n t. unversionedKinds s n = Some t \<longrightarrow> n = type_Name t \<and> gvkToType s (WithKind Unversioned n) = Some t) \<and>
     (\<forall>p f. conversionFuncs s p = Some f \<longrightarrow> f = converter (fst p) (snd p)) \<and>
     distinct (observedVersions s)"

lemma wf_schemeI:
  assumes "\<And>k t. gvkToType s k = Some t \<longleftrightarrow> (\<exists>ks. typeToGVK s t = Some ks \<and> k \<in> set ks)"
    and "\<And>t ks. typeToGVK s t = Some ks \<Longrightarrow> ks \<noteq> [] \<and> distinct ks"
    and "\<And>k t. gvkToType s k = Some t \<Longrightarrow> gvk_Version k \<noteq> [] \<and> is_Struct t"
    and "\<And>t k. unversionedTypes s t = Some k \<longleftrightarrow>
        k = WithKind Unversioned (type_Name t) \<and> gvkToType s k = Some t \<and> unversionedKinds s (type_Name t) = Some t"
    and "\<And>n t. unversionedKinds s n = Some t \<Longrightarrow> n = type_Name t \<and> gvkToType s (WithKind Unversioned n) = Some t"
    and "\<And>p f. conversionFuncs s p = Some f \<Longrightarrow> f = converter (fst p) (snd p)"
    and "distinct (observedVersions s)"
  shows "wf_scheme s"
  unfolding wf_scheme_def
  by (intro conjI allI impI) (rule assms(1), erule assms(2) [THEN conjunct1], erule assms(2) [THEN conjunct2], erule assms(3) [THEN conjunct1],
    erule assms(3) [THEN conjunct2], rule assms(4), erule assms(5) [THEN conjunct1], erule assms(5) [THEN conjunct2],
    erule assms(6), rule assms(7))

lemma wf_schemeD:
  assumes "wf_scheme s"
  shows "gvkToType s k = Some t \<longleftrightarrow> (\<exists>ks. typeToGVK s t = Some ks \<and> k \<in> set ks)"
    and "typeToGVK s t = Some ks \<Longrightarrow> ks \<noteq> [] \<and> distinct ks"
    and "gvkToType s k = Some t \<Longrightarrow> gvk_Version k \<noteq> [] \<and> is_Struct t"
    and "unversionedTypes s t = Some k \<longleftrightarrow>
        k = WithKind Unversioned (type_Name t) \<and> gvkToType s k = Some t \<and> unversionedKinds s (type_Name t) = Some t"
    and "unversionedKinds s n = Some t \<Longrightarrow> n = type_Name t \<and> gvkToType s (WithKind Unversioned n) = Some t"
    and "conversionFuncs s p = Some f \<Longrightarrow> f = converter (fst p) (snd p)"
    and "distinct (observedVersions s)"
proof -
  note w = assms [unfolded wf_scheme_def]
  note w2 = w [THEN conjunct2] and w3 = w [THEN conjunct2, THEN conjunct2]
  note w4 = w3 [THEN conjunct2] and w5 = w3 [THEN conjunct2, THEN conjunct2]
  note w6 = w5 [THEN conjunct2]
  show "gvkToType s k = Some t \<longleftrightarrow> (\<exists>ks. typeToGVK s t = Some ks \<and> k \<in> set ks)"
    by (rule w [THEN conjunct1, rule_format])
  show "typeToGVK s t = Some ks \<Longrightarrow> ks \<noteq> [] \<and> distinct ks" by (rule w2 [THEN conjunct1, rule_format])
  show "gvkToType s k = Some t \<Longrightarrow> gvk_Version k \<noteq> [] \<and> is_Struct t" by (rule w3 [THEN conjunct1, rule_format])
  show "unversionedTypes s t = Some k \<longleftrightarrow>
      k = WithKind Unversioned (type_Name t) \<and> gvkToType s k = Some t \<and> unversionedKinds s (type_Name t) = Some t"
    by (rule w4 [THEN conjunct1, rule_format])
  show "unversionedKinds s n = Some t \<Longrightarrow> n = type_Name t \<and> gvkToType s (WithKind Unversioned n) = Some t"
    by (rule w5 [THEN conjunct1, rule_format])
  show "conversionFuncs s p = Some f \<Longrightarrow> f = converter (fst p) (snd p)" by (rule w6 [THEN conjunct1, rule_format])
  show "distinct (observedVersions s)" by (rule w6 [THEN conjunct2])
qed

text \<open>What was registered stays registered.\<close>

definition scheme_le :: "Scheme \<Rightarrow> Scheme \<Rightarrow> bool" where
  "scheme_le s s' \<longleftrightarrow> gvkToType s \<subseteq>\<^sub>m gvkToType s' \<and> unversionedTypes s \<subseteq>\<^sub>m unversionedTypes s' \<and>
     unversionedKinds s \<subseteq>\<^sub>m unversionedKinds s' \<and> set (observedVersions s) \<subseteq> set (observedVersions s') \<and>
     conversionFuncs s \<subseteq>\<^sub>m conversionFuncs s' \<and> inputDefaults s \<subseteq> inputDefaults s'"

lemma scheme_le_refl [simp]: "scheme_le s s"
  by (simp add: scheme_le_def)

lemma scheme_le_trans [trans]: "scheme_le s1 s2 \<Longrightarrow> scheme_le s2 s3 \<Longrightarrow> scheme_le s1 s3"
  by (auto simp: scheme_le_def intro: map_le_trans)

lemma scheme_leD:
  assumes "scheme_le s s'"
  shows "gvkToType s k = Some t \<Longrightarrow> gvkToType s' k = Some t"
    and "unversionedTypes s t = Some k \<Longrightarrow> unversionedTypes s' t = Some k"
    and "unversionedKinds s n = Some t \<Longrightarrow> unversionedKinds s' n = Some t"
    and "conversionFuncs s p = Some f \<Longrightarrow> conversionFuncs s' p = Some f"
    and "gv \<in> set (observedVersions s) \<Longrightarrow> gv \<in> set (observedVersions s')"
proof -
  have le: "m \<subseteq>\<^sub>m m' \<Longrightarrow> m x = Some y \<Longrightarrow> m' x = Some y" for m m' :: "'a \<rightharpoonup> 'b" and x y
    by (metis domI map_le_def)
  from assms show "gvkToType s k = Some t \<Longrightarrow> gvkToType s' k = Some t"
    and "unversionedTypes s t = Some k \<Longrightarrow> unversionedTypes s' t = Some k"
    and "unversionedKinds s n = Some t \<Longrightarrow> unversionedKinds s' n = Some t"
    and "conversionFuncs s p = Some f \<Longrightarrow> conversionFuncs s' p = Some f"
    and "gv \<in> set (observedVersions s) \<Longrightarrow> gv \<in> set (observedVersions s')"
    by (auto simp: scheme_le_def dest: le)
qed

text \<open>Whether the entries of two tables, by kind and by unversioned name, agree with a scheme.\<close>

definition fits :: "(GroupVersionKind \<times> rtype) set \<Rightarrow> (string \<times> rtype) set \<Rightarrow> Scheme \<Rightarrow> bool" where
  "fits K U s \<longleftrightarrow> (\<forall>(k, t) \<in> K. gvkToType s k \<in> {None, Some t}) \<and> (\<forall>(n, t) \<in> U. unversionedKinds s n \<in> {None, Some t})"

lemma fits_iff:
  "fits K U s \<longleftrightarrow> (\<forall>k t t'. (k, t) \<in> K \<longrightarrow> gvkToType s k = Some t' \<longrightarrow> t' = t) \<and>
     (\<forall>n t t'. (n, t) \<in> U \<longrightarrow> unversionedKinds s n = Some t' \<longrightarrow> t' = t)"
proof -
  have "x \<in> {None, Some t} \<longleftrightarrow> (\<forall>t'. x = Some t' \<longrightarrow> t' = t)" for x and t :: rtype by (cases x) auto
  then show ?thesis by (auto simp: fits_def)
qed

lemma fits_Un: "fits (K \<union> K') (U \<union> U') s \<longleftrightarrow> fits K U s \<and> fits K' U' s"
  by (auto simp: fits_def)

lemma fits_empty [simp]: "fits {} {} s"
  by (simp add: fits_def)

text \<open>Whether a scheme has the entries of a table.\<close>

definition has_kinds :: "(GroupVersionKind \<times> rtype) set \<Rightarrow> Scheme \<Rightarrow> bool" where
  "has_kinds R s \<longleftrightarrow> (\<forall>(k, t) \<in> R. gvkToType s k = Some t)"

lemma has_kinds_empty [simp]: "has_kinds {} s"
  by (simp add: has_kinds_def)

lemma has_kinds_New:
  assumes "has_kinds R s" and "(k, t) \<in> R"
  shows "Scheme_New s k = Inr (TPtr t)"
proof -
  from assms have "gvkToType s k = Some t" by (auto simp: has_kinds_def)
  then show ?thesis by (simp add: Scheme_New_def)
qed

section \<open>The contract of a registration\<close>

text \<open>A step that needs the kinds \<open>R\<close> and adds the kinds \<open>K\<close> and the unversioned names \<open>U\<close>.\<close>

locale registration =
  fixes add :: "Scheme \<Rightarrow> Scheme outcome"
    and R K :: "(GroupVersionKind \<times> rtype) set"
    and U :: "(string \<times> rtype) set"
  assumes adds: "wf_scheme s \<Longrightarrow> has_kinds R s \<Longrightarrow> fits K U s \<Longrightarrow> \<exists>s'. add s = Return s'"
    and clash: "wf_scheme s \<Longrightarrow> has_kinds R s \<Longrightarrow> \<not> fits K U s \<Longrightarrow> \<exists>p. add s = Stop (Panicked p)"
    and keeps: "wf_scheme s \<Longrightarrow> has_kinds R s \<Longrightarrow> add s = Return s' \<Longrightarrow> wf_scheme s' \<and> scheme_le s s'"
    and kinds: "add s = Return s' \<Longrightarrow> gvkToType s' k = Some t \<longleftrightarrow> gvkToType s k = Some t \<or> (k, t) \<in> K"
    and names: "add s = Return s' \<Longrightarrow> unversionedKinds s' n = Some t \<longleftrightarrow> unversionedKinds s n = Some t \<or> (n, t) \<in> U"
    and settles: "wf_scheme s \<Longrightarrow> has_kinds R s \<Longrightarrow> add s = Return s' \<Longrightarrow> wf_scheme s'' \<Longrightarrow> scheme_le s' s'' \<Longrightarrow> add s'' = Return s''"
begin

lemma adds_iff:
  assumes "wf_scheme s" and "has_kinds R s"
  shows "(\<exists>s'. add s = Return s') \<longleftrightarrow> fits K U s"
  using adds [OF assms] clash [OF assms] by (cases "fits K U s") auto

lemma idempotent: "wf_scheme s \<Longrightarrow> has_kinds R s \<Longrightarrow> add s = Return s' \<Longrightarrow> add s' = Return s'"
  using keeps [of s s'] settles [of s s' s'] by simp

lemma New_registered: "add s = Return s' \<Longrightarrow> (k, t) \<in> K \<Longrightarrow> Scheme_New s' k = Inr (TPtr t)"
  using kinds [of s s' k t] by (simp add: Scheme_New_def)

lemma kinds_registered:
  assumes "wf_scheme s'" and "add s = Return s'" and "(k, t) \<in> K"
  shows "\<exists>gvks u. ObjectKinds s' (TPtr t) = Inr (gvks, u) \<and> k \<in> set gvks"
proof -
  have "gvkToType s' k = Some t" using kinds [OF assms(2)] assms(3) by blast
  with wf_schemeD(1) [OF assms(1)] obtain ks where "typeToGVK s' t = Some ks" "k \<in> set ks" by blast
  then show ?thesis by (simp add: ObjectKinds_def)
qed

lemma kinds_frame: "add s = Return s' \<Longrightarrow> k \<notin> Domain K \<Longrightarrow> gvkToType s' k = gvkToType s k"
  using kinds [of s s' k] by (cases "gvkToType s k"; cases "gvkToType s' k") auto

end

lemma registration_Return: "registration Return {} {} {}"
  by unfold_locales auto

text \<open>Two registrations in a row are one, for tables that agree with each other.\<close>

lemma registration_seq:
  assumes a: "registration a R K U" and b: "registration b R' K' U'" and R: "R' \<subseteq> R \<union> K"
    and K: "single_valued (K \<union> K')" and U: "single_valued (U \<union> U')"
  shows "registration (\<lambda>s. bind_outcome (a s) b) R (K \<union> K') (U \<union> U')"
proof
  fix s s' s'' k t n
  note A = registration.kinds [OF a] registration.names [OF a]
  have req: "has_kinds R' s1" if "has_kinds R s" "a s = Return s1" for s s1
    using that R A(1) [OF that(2)] unfolding has_kinds_def by fast
  have mid: "\<exists>s1. a s = Return s1 \<and> wf_scheme s1 \<and> has_kinds R' s1 \<and> (fits K' U' s1 \<longleftrightarrow> fits K' U' s)"
    if wf: "wf_scheme s" and r: "has_kinds R s" and K_U: "fits K U s" for s
  proof -
    obtain s1 where s1: "a s = Return s1" using registration.adds [OF a wf r K_U] by blast
    have "fits K' U' s1 \<longleftrightarrow> fits K' U' s"
      using K_U K U unfolding fits_iff A(1) [OF s1] A(2) [OF s1] single_valued_def by blast
    with s1 req [OF r s1] registration.keeps [OF a wf r s1] show ?thesis by blast
  qed
  show "\<exists>s'. bind_outcome (a s) b = Return s'" if "wf_scheme s" "has_kinds R s" "fits (K \<union> K') (U \<union> U') s"
    using mid [of s] that registration.adds [OF b] by (auto simp: fits_Un)
  show "\<exists>p. bind_outcome (a s) b = Stop (Panicked p)" if "wf_scheme s" "has_kinds R s" "\<not> fits (K \<union> K') (U \<union> U') s"
    using mid [of s] that registration.clash [OF b] registration.clash [OF a that(1,2)] by (cases "fits K U s") (auto simp: fits_Un)
  assume ab: "bind_outcome (a s) b = Return s'"
  then obtain s1 where s1: "a s = Return s1" and s2: "b s1 = Return s'" by (auto simp: bind_outcome_Return_iff)
  show "gvkToType s' k = Some t \<longleftrightarrow> gvkToType s k = Some t \<or> (k, t) \<in> K \<union> K'"
    using A(1) [OF s1, of k t] registration.kinds [OF b s2, of k t] by blast
  show "unversionedKinds s' n = Some t \<longleftrightarrow> unversionedKinds s n = Some t \<or> (n, t) \<in> U \<union> U'"
    using A(2) [OF s1, of n t] registration.names [OF b s2, of n t] by blast
  assume wf: "wf_scheme s" and r: "has_kinds R s"
  note k1 = registration.keeps [OF a wf r s1] and r1 = req [OF r s1]
  have k2: "wf_scheme s' \<and> scheme_le s1 s'" using registration.keeps [OF b _ r1 s2] k1 by blast
  with k1 show "wf_scheme s' \<and> scheme_le s s'" by (blast intro: scheme_le_trans)
  assume wf'': "wf_scheme s''" and le: "scheme_le s' s''"
  with k2 have "scheme_le s1 s''" by (blast intro: scheme_le_trans)
  then have "a s'' = Return s''" by (rule registration.settles [OF a wf r s1 wf''])
  moreover have "b s'' = Return s''" using registration.settles [OF b _ r1 s2 wf'' le] k1 by blast
  ultimately show "bind_outcome (a s'') b = Return s''" by simp
qed

section \<open>The steps of the library\<close>

lemma registration_observed: "registration (\<lambda>s. Return (addObservedVersion gv s)) {} {} {}"
proof
  fix s s' s'' :: Scheme
  assume ret: "Return (addObservedVersion gv s) = Return s'"
  then have s': "s' = addObservedVersion gv s" by simp
  assume wf: "wf_scheme s"
  with s' show "wf_scheme s' \<and> scheme_le s s'"
    by (auto simp: addObservedVersion_def wf_scheme_def scheme_le_def list_ex_iff)
  assume "scheme_le s' s''"
  then show "Return (addObservedVersion gv s'') = Return s''"
    using scheme_leD(5) [of s' s'' gv] s' by (auto simp: addObservedVersion_def list_ex_iff split: if_splits)
qed (auto simp: addObservedVersion_def split: if_splits)

text \<open>One kind.\<close>

definition register :: "GroupVersionKind \<Rightarrow> rtype \<Rightarrow> Scheme \<Rightarrow> Scheme" where
  "register k t s = (let ks = (case typeToGVK s t of Some ks \<Rightarrow> ks | None \<Rightarrow> []) in
     s\<lparr>gvkToType := (gvkToType s)(k \<mapsto> t), typeToGVK := (typeToGVK s)(t \<mapsto> if k \<in> set ks then ks else ks @ [k])\<rparr>)"

lemma AddKnownTypeWithName_eq:
  assumes "gvk_Version k \<noteq> []" and "is_Struct t"
  shows "AddKnownTypeWithName k (TPtr t) s = bind_outcome (Return (addObservedVersion (gvk_GroupVersion k) s)) (\<lambda>s.
     if gvkToType s k \<in> {None, Some t} then Return (register k t s)
     else Stop (Panicked ''Double registration of different types''))"
proof -
  define s0 where "s0 = addObservedVersion (gvk_GroupVersion k) s"
  have "s0\<lparr>gvkToType := g, typeToGVK := (typeToGVK s0)(t \<mapsto> ks)\<rparr> = s0\<lparr>gvkToType := g\<rparr>" if "typeToGVK s0 t = Some ks" for ks g
    using that by (simp add: fun_upd_idem)
  with assms show ?thesis
    unfolding AddKnownTypeWithName_def Let_def register_def s0_def [symmetric]
    by (auto simp: list_ex_iff split: option.splits)
qed

lemma register_typeToGVK:
  assumes "wf_scheme s"
  shows "\<exists>ks. typeToGVK (register k t s) t = Some ks \<and> set ks = insert k {k. gvkToType s k = Some t} \<and> distinct ks"
    and "t' \<noteq> t \<Longrightarrow> typeToGVK (register k t s) t' = typeToGVK s t'"
proof -
  define ks where "ks = (case typeToGVK s t of Some ks \<Rightarrow> ks | None \<Rightarrow> [])"
  have "set ks = {k. gvkToType s k = Some t}" "distinct ks"
    using assms by (cases "typeToGVK s t"; auto simp: ks_def wf_scheme_def)+
  then show "\<exists>ks. typeToGVK (register k t s) t = Some ks \<and> set ks = insert k {k. gvkToType s k = Some t} \<and> distinct ks"
    by (auto simp: register_def Let_def simp flip: ks_def)
  show "t' \<noteq> t \<Longrightarrow> typeToGVK (register k t s) t' = typeToGVK s t'" by (simp add: register_def Let_def)
qed

lemma wf_register:
  assumes wf: "wf_scheme s" and new: "gvkToType s k \<in> {None, Some t}" and ok: "gvk_Version k \<noteq> []" "is_Struct t"
  shows "wf_scheme (register k t s)"
proof -
  let ?s = "register k t s"
  have g: "gvkToType ?s k' = Some t' \<longleftrightarrow> gvkToType s k' = Some t' \<or> (k' = k \<and> t' = t)" for k' t'
    using new by (auto simp: register_def Let_def)
  have same: "unversionedTypes ?s = unversionedTypes s" "unversionedKinds ?s = unversionedKinds s"
    "conversionFuncs ?s = conversionFuncs s" "observedVersions ?s = observedVersions s"
    by (simp_all add: register_def Let_def)
  show ?thesis
  proof (rule wf_schemeI)
    show "gvkToType ?s k' = Some t' \<longleftrightarrow> (\<exists>ks. typeToGVK ?s t' = Some ks \<and> k' \<in> set ks)" for k' t'
      using wf_schemeD(1) [OF wf] register_typeToGVK [OF wf, where k = k and t = t] by (cases "t' = t") (auto simp: g)
    show "ks \<noteq> [] \<and> distinct ks" if "typeToGVK ?s t' = Some ks" for t' ks
      using wf_schemeD(2) [OF wf] register_typeToGVK [OF wf, where k = k and t = t] that by (cases "t' = t") auto
    show "gvk_Version k' \<noteq> [] \<and> is_Struct t'" if "gvkToType ?s k' = Some t'" for k' t'
      using wf_schemeD(3) [OF wf] ok that unfolding g by blast
    show "unversionedTypes ?s t' = Some k' \<longleftrightarrow> k' = WithKind Unversioned (type_Name t') \<and> gvkToType ?s k' = Some t' \<and>
        unversionedKinds ?s (type_Name t') = Some t'" for t' k'
      using wf_schemeD(4) [OF wf, of t' k'] wf_schemeD(5) [OF wf, of "type_Name t'" t'] unfolding g same by blast
    show "n = type_Name t' \<and> gvkToType ?s (WithKind Unversioned n) = Some t'" if "unversionedKinds ?s n = Some t'" for n t'
      using wf_schemeD(5) [OF wf that [unfolded same]] unfolding g by blast
  qed (use wf_schemeD(6,7) [OF wf] in \<open>auto simp: same\<close>)
qed

lemma register_idem:
  assumes wf: "wf_scheme s" and k: "gvkToType s k = Some t"
  shows "register k t s = s"
proof -
  from assms obtain ks where ks: "typeToGVK s t = Some ks" "k \<in> set ks" by (auto simp: wf_scheme_def)
  with k show ?thesis by (simp add: register_def fun_upd_idem)
qed

lemma registration_kind:
  assumes "gvk_Version k \<noteq> []" and "is_Struct t"
  shows "registration (AddKnownTypeWithName k (TPtr t)) {} {(k, t)} {}"
proof -
  have "registration (\<lambda>s. if gvkToType s k \<in> {None, Some t} then Return (register k t s)
     else Stop (Panicked ''Double registration of different types'')) {} {(k, t)} {}" (is "registration ?r _ _ _")
  proof
    fix s s' s'' :: Scheme
    show "wf_scheme s \<Longrightarrow> fits {(k, t)} {} s \<Longrightarrow> \<exists>s'. ?r s = Return s'" "\<not> fits {(k, t)} {} s \<Longrightarrow> \<exists>p. ?r s = Stop (Panicked p)"
      by (auto simp: fits_def)
    assume r: "?r s = Return s'"
    then have s': "s' = register k t s" and new: "gvkToType s k \<in> {None, Some t}" by (auto split: if_splits)
    show "gvkToType s' k' = Some t' \<longleftrightarrow> gvkToType s k' = Some t' \<or> (k', t') \<in> {(k, t)}" for k' t'
      using new by (auto simp: s' register_def Let_def)
    show "unversionedKinds s' n = Some t' \<longleftrightarrow> unversionedKinds s n = Some t' \<or> (n, t') \<in> {}" for n t'
      by (simp add: s' register_def Let_def)
    assume wf: "wf_scheme s"
    with new assms have "wf_scheme s'" unfolding s' by (intro wf_register)
    moreover have "scheme_le s s'" using new by (auto simp: s' register_def scheme_le_def map_le_def Let_def)
    ultimately show "wf_scheme s' \<and> scheme_le s s'" ..
    assume "wf_scheme s''" "scheme_le s' s''"
    moreover have "gvkToType s' k = Some t" by (simp add: s' register_def Let_def)
    ultimately show "?r s'' = Return s''" using scheme_leD(1) [of s' s''] by (auto simp: register_idem)
  qed
  from registration_seq [OF registration_observed this] show ?thesis
    unfolding AddKnownTypeWithName_eq [OF assms, abs_def] by (simp add: single_valued_def)
qed
text \<open>Several kinds of one group version.\<close>

definition kinds_of :: "GroupVersion \<Rightarrow> rtype list \<Rightarrow> (GroupVersionKind \<times> rtype) list" where
  "kinds_of gv ts = map (\<lambda>t. (WithKind gv (type_Name t), t)) ts"

lemma WithKind_eq [simp]: "WithKind gv n = WithKind gv' n' \<longleftrightarrow> gv = gv' \<and> n = n'"
  by (auto simp: WithKind_def)

lemma WithKind_sel [simp]:
  "gvk_Version (WithKind gv n) = gv_Version gv" "gvk_Group (WithKind gv n) = gv_Group gv" "gvk_Kind (WithKind gv n) = n"
  by (simp_all add: WithKind_def)

lemma single_valued_table: "distinct (map fst tab) \<Longrightarrow> single_valued (set tab)"
  by (auto simp: single_valued_def dest: eq_key_imp_eq_value)

lemma distinct_kinds_of: "distinct (map fst (kinds_of gv ts)) \<longleftrightarrow> distinct (map type_Name ts)"
proof -
  have "map fst (kinds_of gv ts) = map (WithKind gv) (map type_Name ts)" by (simp add: kinds_of_def)
  then show ?thesis by (simp add: distinct_map inj_on_def del: map_map)
qed

lemma registration_add_known_types:
  assumes "gv_Version gv \<noteq> []" and "list_all is_Struct ts" and "distinct (map type_Name ts)"
  shows "registration (add_known_types gv (map TPtr ts)) {} (set (kinds_of gv ts)) {}"
  using assms(2,3)
proof (induction ts)
  case Nil
  have "add_known_types gv [] = Return" by auto
  with registration_Return show ?case by (simp add: kinds_of_def)
next
  case (Cons t ts)
  let ?k = "WithKind gv (type_Name t)"
  have "registration (\<lambda>s. bind_outcome (AddKnownTypeWithName ?k (TPtr t) s) (add_known_types gv (map TPtr ts)))
     {} ({(?k, t)} \<union> set (kinds_of gv ts)) ({} \<union> {})"
  proof (rule registration_seq)
    show "registration (AddKnownTypeWithName ?k (TPtr t)) {} {(?k, t)} {}"
      using Cons.prems assms(1) by (intro registration_kind) simp_all
    show "single_valued ({(?k, t)} \<union> set (kinds_of gv ts))"
      using Cons.prems single_valued_table [of "kinds_of gv (t # ts)"] unfolding distinct_kinds_of by (simp add: kinds_of_def)
    show "registration (add_known_types gv (map TPtr ts)) {} (set (kinds_of gv ts)) {}" using Cons by simp
  qed (auto simp: single_valued_def)
  moreover have "add_known_types gv (map TPtr (t # ts)) =
      (\<lambda>s. bind_outcome (AddKnownTypeWithName ?k (TPtr t) s) (add_known_types gv (map TPtr ts)))"
    by (rule ext) simp
  ultimately show ?case by (simp add: kinds_of_def)
qed

lemma registration_AddKnownTypes:
  assumes "gv_Version gv \<noteq> []" and "list_all is_Struct ts" and "distinct (map type_Name ts)"
  shows "registration (AddKnownTypes gv (map TPtr ts)) {} (set (kinds_of gv ts)) {}"
proof -
  have "AddKnownTypes gv (map TPtr ts) = (\<lambda>s. bind_outcome (Return (addObservedVersion gv s)) (add_known_types gv (map TPtr ts)))"
    by (rule ext) (simp add: AddKnownTypes_def)
  moreover have "single_valued (set (kinds_of gv ts))" using assms(3) by (intro single_valued_table) (simp add: distinct_kinds_of)
  ultimately show ?thesis
    using registration_seq [OF registration_observed registration_add_known_types [OF assms], of gv] by simp
qed

text \<open>Conversion functions of the right shape are filed without an error.\<close>

definition is_converter :: "rtype \<Rightarrow> bool" where
  "is_converter f \<longleftrightarrow> f = converter (fst (conversion_pair f)) (snd (conversion_pair f))"

lemma verify_converter: "is_converter f \<Longrightarrow> verifyConversionFunctionSignature f = None"
  unfolding is_converter_def by (erule ssubst) simp

lemma registration_converter:
  assumes "is_converter f"
  shows "registration (\<lambda>s. Return (s\<lparr>conversionFuncs := (conversionFuncs s)(conversion_pair f \<mapsto> f)\<rparr>)) {} {} {}"
    (is "registration (\<lambda>s. Return (?file s)) _ _ _")
proof -
  from assms obtain a b where f: "f = converter a b" by (auto simp: is_converter_def)
  have pair: "conversion_pair f = (a, b)" by (simp add: f)
  show ?thesis
  proof
    fix s s' s'' :: Scheme
    assume ret: "Return (?file s) = Return s'" and wf: "wf_scheme s"
    then have s': "s' = s\<lparr>conversionFuncs := (conversionFuncs s)((a, b) \<mapsto> f)\<rparr>" by (simp add: pair)
    have "conversionFuncs s (a, b) \<in> {None, Some f}"
      using wf_schemeD(6) [OF wf, of "(a, b)"] by (cases "conversionFuncs s (a, b)") (simp_all add: f)
    then have "scheme_le s s'" by (auto simp: s' scheme_le_def map_le_def)
    moreover have "wf_scheme s'" using wf by (auto simp: s' wf_scheme_def f)
    ultimately show "wf_scheme s' \<and> scheme_le s s'" by simp
    assume "scheme_le s' s''"
    then have "conversionFuncs s'' (a, b) = Some f" using scheme_leD(4) [of s' s''] by (simp add: s')
    then show "Return (?file s'') = Return s''" by (simp add: pair fun_upd_idem)
  qed auto
qed

lemma registration_AddConversionFuncs:
  "list_all is_converter fs \<Longrightarrow> registration (\<lambda>s. Must (AddConversionFuncs fs s)) {} {} {}"
proof (induction fs)
  case Nil
  then show ?case using registration_Return by (simp add: Must_def)
next
  case (Cons f fs)
  then have "is_converter f" and fs: "registration (\<lambda>s. Must (AddConversionFuncs fs s)) {} {} {}" by simp_all
  from registration_seq [OF registration_converter [OF this(1)] fs] verify_converter [OF this(1)] show ?case by simp
qed
text \<open>Marking kinds that are registered in the group version \<open>Unversioned\<close>.\<close>

definition mark :: "rtype \<Rightarrow> Scheme \<Rightarrow> Scheme" where
  "mark t s = s\<lparr>unversionedTypes := (unversionedTypes s)(t \<mapsto> WithKind Unversioned (type_Name t)),
     unversionedKinds := (unversionedKinds s)(type_Name t \<mapsto> t)\<rparr>"

definition mark_step :: "rtype \<Rightarrow> Scheme \<Rightarrow> Scheme outcome" where
  "mark_step t s = (if unversionedKinds s (type_Name t) \<in> {None, Some t} then Return (mark t s)
     else Stop (Panicked ''has already been registered as unversioned kind''))"

lemma mark_unversioned_Cons:
  "mark_unversioned Unversioned (TPtr t # objs) = (\<lambda>s. bind_outcome (mark_step t s) (mark_unversioned Unversioned objs))"
  by (rule ext) (auto simp: mark_step_def mark_def Let_def split: option.splits)

lemma wf_mark:
  assumes wf: "wf_scheme s" and k: "gvkToType s (WithKind Unversioned (type_Name t)) = Some t"
    and new: "unversionedKinds s (type_Name t) \<in> {None, Some t}"
  shows "wf_scheme (mark t s)"
proof (rule wf_schemeI)
  have U: "unversionedKinds (mark t s) n = Some t' \<longleftrightarrow> unversionedKinds s n = Some t' \<or> (n = type_Name t \<and> t' = t)" for n t'
    using new by (auto simp: mark_def)
  show "unversionedTypes (mark t s) t' = Some k' \<longleftrightarrow> k' = WithKind Unversioned (type_Name t') \<and>
      gvkToType (mark t s) k' = Some t' \<and> unversionedKinds (mark t s) (type_Name t') = Some t'" for t' k'
    using wf_schemeD(4) [OF wf, of t' k'] k unfolding U by (cases "t' = t") (auto simp: mark_def)
  show "n = type_Name t' \<and> gvkToType (mark t s) (WithKind Unversioned n) = Some t'" if "unversionedKinds (mark t s) n = Some t'" for n t'
    using wf_schemeD(5) [OF wf, of n t'] k that unfolding U by (auto simp: mark_def)
qed (use wf_schemeD(1,2,3,6,7) [OF wf] in \<open>auto simp: mark_def\<close>)

lemma registration_mark:
  "registration (mark_step t) {(WithKind Unversioned (type_Name t), t)} {} {(type_Name t, t)}"
proof
  fix s s' s'' :: Scheme
  show "fits {} {(type_Name t, t)} s \<Longrightarrow> \<exists>s'. mark_step t s = Return s'"
    "\<not> fits {} {(type_Name t, t)} s \<Longrightarrow> \<exists>p. mark_step t s = Stop (Panicked p)"
    by (auto simp: fits_def mark_step_def)
  assume "mark_step t s = Return s'"
  then have s': "s' = mark t s" and new: "unversionedKinds s (type_Name t) \<in> {None, Some t}"
    by (auto simp: mark_step_def split: if_splits)
  show "gvkToType s' k = Some t' \<longleftrightarrow> gvkToType s k = Some t' \<or> (k, t') \<in> {}" for k t' by (simp add: s' mark_def)
  show "unversionedKinds s' n = Some t' \<longleftrightarrow> unversionedKinds s n = Some t' \<or> (n, t') \<in> {(type_Name t, t)}" for n t'
    using new by (auto simp: s' mark_def)
  assume wf: "wf_scheme s" and "has_kinds {(WithKind Unversioned (type_Name t), t)} s"
  then have k: "gvkToType s (WithKind Unversioned (type_Name t)) = Some t" by (simp add: has_kinds_def)
  have "unversionedTypes s t \<in> {None, Some (WithKind Unversioned (type_Name t))}"
    using wf_schemeD(4) [OF wf, of t] by (cases "unversionedTypes s t") auto
  with new have "scheme_le s s'" by (auto simp: s' mark_def scheme_le_def map_le_def)
  with wf_mark [OF wf k new] show "wf_scheme s' \<and> scheme_le s s'" by (simp add: s')
  assume "wf_scheme s''" "scheme_le s' s''"
  moreover have "unversionedTypes s' t = Some (WithKind Unversioned (type_Name t))" "unversionedKinds s' (type_Name t) = Some t"
    by (simp_all add: s' mark_def)
  ultimately have "unversionedTypes s'' t = Some (WithKind Unversioned (type_Name t))" "unversionedKinds s'' (type_Name t) = Some t"
    by (auto dest: scheme_leD)
  then show "mark_step t s'' = Return s''" by (simp add: mark_step_def mark_def fun_upd_idem)
qed

abbreviation names_of :: "rtype list \<Rightarrow> (string \<times> rtype) list" where
  "names_of ts \<equiv> map (\<lambda>t. (type_Name t, t)) ts"

lemma single_valued_names: "distinct (map type_Name ts) \<Longrightarrow> single_valued (set (names_of ts))"
  by (intro single_valued_table) (simp add: comp_def)

lemma registration_weaken:
  assumes a: "registration a R K U" and R: "R \<subseteq> R'"
  shows "registration a R' K U"
proof -
  have m: "has_kinds R' s \<Longrightarrow> has_kinds R s" for s using R by (auto simp: has_kinds_def)
  show ?thesis
    by unfold_locales
      (erule registration.adds [OF a _ m] registration.clash [OF a _ m] registration.keeps [OF a _ m] registration.kinds [OF a]
        registration.names [OF a] registration.settles [OF a _ m]; assumption)+
qed

lemma registration_mark_unversioned:
  "distinct (map type_Name ts) \<Longrightarrow>
     registration (mark_unversioned Unversioned (map TPtr ts)) (set (kinds_of Unversioned ts)) {} (set (names_of ts))"
proof (induction ts)
  case Nil
  have "mark_unversioned Unversioned [] = Return" by auto
  with registration_Return show ?case by (simp add: kinds_of_def)
next
  case (Cons t ts)
  let ?R = "set (kinds_of Unversioned (t # ts))"
  have "registration (mark_unversioned Unversioned (map TPtr ts)) ?R {} (set (names_of ts))"
    by (rule registration_weaken [OF Cons.IH]) (use Cons.prems in \<open>auto simp: kinds_of_def\<close>)
  moreover have "registration (mark_step t) ?R {} {(type_Name t, t)}"
    by (rule registration_weaken [OF registration_mark]) (simp add: kinds_of_def)
  moreover have "single_valued ({(type_Name t, t)} \<union> set (names_of ts))" using single_valued_names [OF Cons.prems] by simp
  ultimately have "registration (\<lambda>s. bind_outcome (mark_step t s) (mark_unversioned Unversioned (map TPtr ts)))
      ?R ({} \<union> {}) ({(type_Name t, t)} \<union> set (names_of ts))"
    by (intro registration_seq) auto
  then show ?case by (simp add: mark_unversioned_Cons)
qed

lemma registration_AddUnversionedTypes:
  assumes "list_all is_Struct ts" and "distinct (map type_Name ts)"
  shows "registration (AddUnversionedTypes Unversioned (map TPtr ts)) {} (set (kinds_of Unversioned ts)) (set (names_of ts))"
proof -
  let ?K = "set (kinds_of Unversioned ts)"
  have K: "single_valued ?K" by (rule single_valued_table) (simp add: distinct_kinds_of assms(2))
  have "registration (AddKnownTypes Unversioned (map TPtr ts)) {} ?K {}"
    using assms by (intro registration_AddKnownTypes) (simp_all add: Unversioned_def)
  then have "registration (\<lambda>s. bind_outcome (AddKnownTypes Unversioned (map TPtr ts) s) (mark_unversioned Unversioned (map TPtr ts)))
      {} (?K \<union> {}) ({} \<union> set (names_of ts))"
    by (rule registration_seq [OF _ registration_mark_unversioned [OF assms(2)]])
      (use K single_valued_names [OF assms(2)] in simp_all)
  from registration_seq [OF registration_observed this, of Unversioned] K single_valued_names [OF assms(2)]
  show ?thesis unfolding AddUnversionedTypes_def [abs_def] by simp
qed
section \<open>What the packages register\<close>

definition group_kinds :: "GroupVersion \<Rightarrow> (GroupVersionKind \<times> rtype) list" where
  "group_kinds gv =
     (WithKind gv WatchEventKind, meta_v1 ''WatchEvent'') #
     (WithKind \<lparr>gv_Group = gv_Group gv, gv_Version = APIVersionInternal\<rparr> WatchEventKind, meta_v1 ''InternalEvent'') #
     kinds_of gv metav1_options @ kinds_of Unversioned metav1_unversioned"

abbreviation unversioned_names :: "(string \<times> rtype) set" where
  "unversioned_names \<equiv> set (names_of metav1_unversioned)"

lemma is_converter_converter [simp]: "is_converter (converter a b)"
  by (simp add: is_converter_def)

lemma metav1_lists:
  "list_all is_Struct metav1_options" "distinct (map type_Name metav1_options)"
  "list_all is_Struct metav1_unversioned" "distinct (map type_Name metav1_unversioned)"
  "list_all is_converter watch_conversions" "list_all is_converter metav1_conversions"
  by (simp_all add: metav1_options_def metav1_unversioned_def watch_conversions_def metav1_conversions_def Let_def)

text \<open>A group version of its own: the tables of the library do not clash in it.\<close>

definition own_group :: "GroupVersion \<Rightarrow> bool" where
  "own_group gv \<longleftrightarrow> gv_Group gv \<noteq> [] \<and> gv_Version gv \<notin> {[], APIVersionInternal}"

lemma distinct_package_kinds:
  assumes "own_group gv" and "distinct (map type_Name ts)"
    and "set (map type_Name ts) \<inter> set (WatchEventKind # map type_Name metav1_options) = {}"
  shows "distinct (map fst (kinds_of gv ts @ group_kinds gv))"
proof -
  let ?i = "\<lparr>gv_Group = gv_Group gv, gv_Version = APIVersionInternal\<rparr>"
  have gv: "gv \<noteq> Unversioned" "gv \<noteq> ?i" "?i \<noteq> Unversioned"
    using assms(1) by (auto simp: own_group_def Unversioned_def dest: arg_cong [where f = gv_Version])
  have "WatchEventKind \<notin> set (map type_Name metav1_options)" by (simp add: WatchEventKind_def metav1_options_def)
  then show ?thesis
    using assms(2,3) gv metav1_lists(2,4) distinct_kinds_of [of gv ts] distinct_kinds_of [of gv metav1_options]
      distinct_kinds_of [of Unversioned metav1_unversioned]
    by (auto simp: group_kinds_def kinds_of_def)
qed

lemmas registration_then = registration_seq [where R' = "{}", OF _ _ empty_subsetI]

lemma registration_AddToGroupVersion:
  assumes gv: "own_group gv"
  shows "registration (AddToGroupVersion gv) {} (set (group_kinds gv)) unversioned_names"
proof -
  have sub: "single_valued A" if "A \<subseteq> set (group_kinds gv)" for A
    by (rule single_valued_subset [OF that], rule single_valued_table)
      (use distinct_package_kinds [OF gv, of "[]"] in \<open>simp add: kinds_of_def\<close>)
  have names: "single_valued unversioned_names" by (rule single_valued_names) (rule metav1_lists)
  have kind: "registration (AddKnownTypeWithName (WithKind g n) (TPtr (meta_v1 m))) {} {(WithKind g n, meta_v1 m)} {}"
    if "gv_Version g \<noteq> []" for g n m using that by (intro registration_kind) simp_all
  have gv': "gv_Version gv \<noteq> []" and i: "APIVersionInternal \<noteq> []" using gv by (auto simp: own_group_def APIVersionInternal_def)
  have "registration (AddToGroupVersion gv) {}
    ({(WithKind gv WatchEventKind, meta_v1 ''WatchEvent'')} \<union>
     ({(WithKind \<lparr>gv_Group = gv_Group gv, gv_Version = APIVersionInternal\<rparr> WatchEventKind, meta_v1 ''InternalEvent'')} \<union>
     (set (kinds_of gv metav1_options) \<union> ({} \<union> (set (kinds_of Unversioned metav1_unversioned) \<union> {})))))
    ({} \<union> ({} \<union> ({} \<union> ({} \<union> (unversioned_names \<union> {})))))"
    unfolding AddToGroupVersion_def [abs_def]
    by (intro registration_then kind registration_AddKnownTypes registration_AddUnversionedTypes registration_AddConversionFuncs
        metav1_lists sub)
      (use gv' i names in \<open>auto simp: group_kinds_def\<close>)
  then show ?thesis by (simp add: group_kinds_def insert_commute)
qed

text \<open>A package that registers types of its own group version, and then the common ones.\<close>

definition add_package :: "GroupVersion \<Rightarrow> rtype list \<Rightarrow> Scheme \<Rightarrow> Scheme outcome" where
  "add_package gv ts s = bind_outcome (AddKnownTypes gv (map TPtr ts) s) (AddToGroupVersion gv)"

definition package_kinds :: "GroupVersion \<Rightarrow> rtype list \<Rightarrow> (GroupVersionKind \<times> rtype) set" where
  "package_kinds gv ts = set (kinds_of gv ts @ group_kinds gv)"

lemma single_valued_package:
  assumes "own_group gv" and "distinct (map type_Name ts)"
    and "set (map type_Name ts) \<inter> set (WatchEventKind # map type_Name metav1_options) = {}"
  shows "single_valued (package_kinds gv ts)"
  unfolding package_kinds_def by (rule single_valued_table, rule distinct_package_kinds [OF assms])

lemma registration_package:
  assumes gv: "own_group gv" and ts: "list_all is_Struct ts" "distinct (map type_Name ts)"
    and own: "set (map type_Name ts) \<inter> set (WatchEventKind # map type_Name metav1_options) = {}"
  shows "registration (add_package gv ts) {} (package_kinds gv ts) unversioned_names"
proof -
  have "single_valued (package_kinds gv ts)" by (rule single_valued_package [OF gv ts(2) own])
  moreover have "single_valued unversioned_names" by (rule single_valued_names) (rule metav1_lists)
  moreover have "gv_Version gv \<noteq> []" using gv by (auto simp: own_group_def)
  ultimately have "registration (\<lambda>s. bind_outcome (AddKnownTypes gv (map TPtr ts) s) (AddToGroupVersion gv)) {}
      (set (kinds_of gv ts) \<union> set (group_kinds gv)) ({} \<union> unversioned_names)"
    by (intro registration_then registration_AddKnownTypes [OF _ ts] registration_AddToGroupVersion [OF gv])
      (simp_all add: package_kinds_def)
  then show ?thesis by (simp add: add_package_def [abs_def] package_kinds_def)
qed

abbreviation api_kinds :: "(GroupVersionKind \<times> rtype) set" where
  "api_kinds \<equiv> package_kinds SchemeGroupVersion api_types"

abbreviation config_kinds :: "(GroupVersionKind \<times> rtype) set" where
  "config_kinds \<equiv> package_kinds config_GroupVersion config_types"

lemma api_package:
  "own_group SchemeGroupVersion" "list_all is_Struct api_types" "distinct (map type_Name api_types)"
  "set (map type_Name api_types) \<inter> set (WatchEventKind # map type_Name metav1_options) = {}"
  by (simp_all add: own_group_def SchemeGroupVersion_def APIVersionInternal_def api_types_def api_type_def
      WatchEventKind_def metav1_options_def)

lemma config_package:
  "own_group config_GroupVersion" "list_all is_Struct config_types" "distinct (map type_Name config_types)"
  "set (map type_Name config_types) \<inter> set (WatchEventKind # map type_Name metav1_options) = {}"
  by (simp_all add: own_group_def config_GroupVersion_def APIVersionInternal_def config_types_def
      WatchEventKind_def metav1_options_def)

interpretation api: registration "add_package SchemeGroupVersion api_types" "{}" api_kinds unversioned_names
  by (rule registration_package [OF api_package])

interpretation config: registration "add_package config_GroupVersion config_types" "{}" config_kinds unversioned_names
  by (rule registration_package [OF config_package])

text \<open>Packages of different groups share the unversioned kinds only.\<close>

lemma package_kinds_group:
  assumes "(k, t) \<in> package_kinds gv ts"
  shows "gvk_Group k = gv_Group gv \<or> (k, t) \<in> set (kinds_of Unversioned metav1_unversioned)"
  using assms by (auto simp: package_kinds_def group_kinds_def kinds_of_def)

lemma api_config_agree: "single_valued (api_kinds \<union> config_kinds)"
proof -
  let ?U = "set (kinds_of Unversioned metav1_unversioned)"
  have U: "gvk_Group k = []" if "(k, t) \<in> ?U" for k t using that by (auto simp: kinds_of_def Unversioned_def)
  have sv: "single_valued api_kinds" "single_valued config_kinds" "single_valued ?U"
    using single_valued_package [OF api_package(1,3,4)] single_valued_package [OF config_package(1,3,4)]
      single_valued_table [of "kinds_of Unversioned metav1_unversioned"] metav1_lists(4) by (simp_all add: distinct_kinds_of)
  have "gv_Group SchemeGroupVersion \<noteq> []" "gv_Group config_GroupVersion \<noteq> []"
    "gv_Group SchemeGroupVersion \<noteq> gv_Group config_GroupVersion"
    by (simp_all add: SchemeGroupVersion_def config_GroupVersion_def)
  then have "t = t'" if "(k, t) \<in> api_kinds" "(k, t') \<in> config_kinds" for k t t'
    using package_kinds_group [OF that(1)] package_kinds_group [OF that(2)] U [of k t] U [of k t'] single_valuedD [OF sv(3)] by metis
  with sv(1,2) show ?thesis unfolding single_valued_def by blast
qed
text \<open>The entry points are these registrations: none of them ever returns an error.\<close>

lemma SchemeBuilder_eq: "Builder_AddToScheme SchemeBuilder s = bind_outcome (add_package SchemeGroupVersion api_types s) (\<lambda>s. Return (None, s))"
  by (cases "AddKnownTypes SchemeGroupVersion (map TPtr api_types) s")
    (auto simp: Builder_AddToScheme_def SchemeBuilder_def v1_init_def initial_SchemeBuilder_def Builder_Register_def
      SchemeBuilder_Register_def add_package_def bind_outcome_def split: outcome.splits)

lemma apis_AddToScheme_eq: "apis_AddToScheme s = bind_outcome (add_package SchemeGroupVersion api_types s) (\<lambda>s. Return (None, s))"
  by (cases "add_package SchemeGroupVersion api_types s")
    (simp_all add: apis_AddToScheme_def AddToSchemes_def apis_init_def SchemeBuilder_eq)

lemma Install_eq: "Install s = bind_outcome (add_package config_GroupVersion config_types s) (\<lambda>s. Return (None, s))"
  by (cases "AddKnownTypes config_GroupVersion (map TPtr config_types) s")
    (auto simp: Install_def NewSchemeBuilder_def SchemeBuilder_Register_def config_addKnownTypes_def
      add_package_def bind_outcome_def split: outcome.splits)

lemma apis_AddToScheme_Return:
  "apis_AddToScheme s = Return (err, s') \<longleftrightarrow> err = None \<and> add_package SchemeGroupVersion api_types s = Return s'"
  by (auto simp: apis_AddToScheme_eq bind_outcome_Return_iff)

lemma Install_Return:
  "Install s = Return (err, s') \<longleftrightarrow> err = None \<and> add_package config_GroupVersion config_types s = Return s'"
  by (auto simp: Install_eq bind_outcome_Return_iff)

text \<open>A new scheme is empty.\<close>

lemma empty_Scheme [simp]: "wf_scheme empty_Scheme" "gvkToType empty_Scheme = Map.empty" "unversionedKinds empty_Scheme = Map.empty"
  by (simp_all add: empty_Scheme_def wf_scheme_def)

lemma new_scheme:
  "\<exists>s. runtime_NewScheme = Return s \<and> wf_scheme s \<and> gvkToType s = Map.empty \<and> unversionedKinds s = Map.empty"
proof -
  have conv: "\<exists>s'. Must (AddConversionFuncs fs s) = Return s' \<and> wf_scheme s' \<and> gvkToType s' = Map.empty \<and> unversionedKinds s' = Map.empty"
    if "list_all is_converter fs" "wf_scheme s" "gvkToType s = Map.empty" "unversionedKinds s = Map.empty" for fs s
  proof -
    note reg = registration_AddConversionFuncs [OF that(1)]
    from registration.adds [OF reg that(2)] obtain s' where s': "Must (AddConversionFuncs fs s) = Return s'" by auto
    with registration.keeps [OF reg that(2) _ s'] registration.kinds [OF reg s'] registration.names [OF reg s'] that(3,4)
    show ?thesis by (auto simp: fun_eq_iff) (metis option.exhaust)+
  qed
  have fns: "list_all is_converter DefaultEmbeddedConversions" "list_all is_converter DefaultStringConversions"
    by (simp_all add: DefaultEmbeddedConversions_def DefaultStringConversions_def Let_def)
  from conv [OF fns(1) empty_Scheme] obtain s1 where s1: "Must (AddConversionFuncs DefaultEmbeddedConversions empty_Scheme) = Return s1"
      "wf_scheme s1" "gvkToType s1 = Map.empty" "unversionedKinds s1 = Map.empty"
    by blast
  from conv [OF fns(2) s1(2-4)] obtain s2 where s2: "Must (AddConversionFuncs DefaultStringConversions s1) = Return s2"
      "wf_scheme s2" "gvkToType s2 = Map.empty" "unversionedKinds s2 = Map.empty"
    by blast
  have "wf_scheme (s2\<lparr>inputDefaults := D\<rparr>)" for D using s2(2) by (simp add: wf_scheme_def)
  with s1 s2 show ?thesis by (simp add: runtime_NewScheme_def Let_def RegisterInputDefaults_def Must_def)
qed

lemma NewScheme_returns:
  "\<exists>s. NewScheme = Return (None, s) \<and> wf_scheme s \<and> (\<forall>k t. gvkToType s k = Some t \<longleftrightarrow> (k, t) \<in> api_kinds)"
proof -
  from new_scheme obtain s0 where s0: "runtime_NewScheme = Return s0" "wf_scheme s0" "gvkToType s0 = Map.empty" "unversionedKinds s0 = Map.empty"
    by blast
  then have "fits api_kinds unversioned_names s0" by (simp add: fits_def)
  with api.adds [of s0] s0(2) obtain s where s: "add_package SchemeGroupVersion api_types s0 = Return s" by auto
  have "wf_scheme s" using api.keeps [OF s0(2) _ s] by simp
  moreover have "gvkToType s k = Some t \<longleftrightarrow> (k, t) \<in> api_kinds" for k t using api.kinds [OF s, of k t] s0(3) by simp
  moreover have "NewScheme = Return (None, s)" by (simp add: NewScheme_def Builder_Build_def SchemeBuilder_eq s0(1) s)
  ultimately show ?thesis by blast
qed

text \<open>So both can be registered in a scheme that neither clashes with.\<close>

lemma api_then_config:
  assumes "wf_scheme s" and "fits (api_kinds \<union> config_kinds) unversioned_names s"
  shows "\<exists>s1 s2. apis_AddToScheme s = Return (None, s1) \<and> Install s1 = Return (None, s2)"
proof -
  have "single_valued unversioned_names" by (rule single_valued_names) (rule metav1_lists)
  then have "registration (\<lambda>s. bind_outcome (add_package SchemeGroupVersion api_types s) (add_package config_GroupVersion config_types))
      {} (api_kinds \<union> config_kinds) (unversioned_names \<union> unversioned_names)"
    by (intro registration_then api.registration_axioms config.registration_axioms api_config_agree) simp
  from registration.adds [OF this assms(1)] assms(2) show ?thesis
    by (auto simp: bind_outcome_Return_iff apis_AddToScheme_Return Install_Return)
qed

text \<open>The initialisation of \<open>controller/utils\<close> does not panic, and its scheme is that of the provider codec.\<close>

lemma credentailRequestScheme_eq: "\<exists>s. credentailRequestScheme = Return s \<and> NewScheme = Return (None, s)"
proof -
  from NewScheme_returns obtain s where s: "NewScheme = Return (None, s)" by blast
  then obtain s0 where s0: "runtime_NewScheme = Return s0" and "Builder_AddToScheme SchemeBuilder s0 = Return (None, s)"
    unfolding NewScheme_def Builder_Build_def bind_outcome_Return_iff by blast
  then have "credentailRequestScheme = Return s"
    unfolding credentailRequestScheme_def s0 by (simp add: utils_init_def v1_AddToScheme_def)
  with s show ?thesis by blast
qed

lemma api_kinds_member: "t \<in> set api_types \<Longrightarrow> (WithKind SchemeGroupVersion (type_Name t), t) \<in> api_kinds"
  by (simp add: package_kinds_def kinds_of_def)

section \<open>Registration round trip\<close>

text \<open>
  C27. Registering the operator's API types in a well-formed scheme (\<open>apis.AddToScheme\<close>) either succeeds or
  panics; it never returns the error its callers check for. It succeeds exactly when no kind and
  no unversioned name of its tables is taken by another type. Then the kinds of the scheme are those
  it had and those of the table; it stays well formed; each of the six types and its kind in
  \<open>cloudcredential.openshift.io/v1\<close> lead to each other, by \<open>New\<close> and by \<open>ObjectKinds\<close>; and registering
  again changes nothing.
\<close>

theorem scheme_registration:
  assumes "wf_scheme s"
  shows "if fits api_kinds unversioned_names s
    then \<exists>s'. apis_AddToScheme s = Return (None, s') \<and> wf_scheme s' \<and> apis_AddToScheme s' = Return (None, s') \<and>
      (\<forall>k t. gvkToType s' k = Some t \<longleftrightarrow> gvkToType s k = Some t \<or> (k, t) \<in> api_kinds) \<and>
      (\<forall>t \<in> set api_types. Scheme_New s' (WithKind SchemeGroupVersion (type_Name t)) = Inr (TPtr t) \<and>
         (\<exists>gvks u. ObjectKinds s' (TPtr t) = Inr (gvks, u) \<and> WithKind SchemeGroupVersion (type_Name t) \<in> set gvks))
    else \<exists>p. apis_AddToScheme s = Stop (Panicked p)"
proof (cases "fits api_kinds unversioned_names s")
  case True
  with api.adds [OF assms] obtain s' where s': "add_package SchemeGroupVersion api_types s = Return s'" by auto
  have wf: "wf_scheme s'" using api.keeps [OF assms _ s'] by simp
  have "Scheme_New s' (WithKind SchemeGroupVersion (type_Name t)) = Inr (TPtr t) \<and>
      (\<exists>gvks u. ObjectKinds s' (TPtr t) = Inr (gvks, u) \<and> WithKind SchemeGroupVersion (type_Name t) \<in> set gvks)"
    if "t \<in> set api_types" for t
    using api.New_registered [OF s'] api.kinds_registered [OF wf s'] api_kinds_member [OF that] by blast
  with True s' wf api.idempotent [OF assms _ s'] api.kinds [OF s'] show ?thesis by (simp add: apis_AddToScheme_Return)
next
  case False
  with api.clash [OF assms] show ?thesis by (auto simp: apis_AddToScheme_eq)
qed

theorem scheme_registration_witness:
  "\<exists>s s'. runtime_NewScheme = Return s \<and> wf_scheme s \<and> fits api_kinds unversioned_names s \<and> apis_AddToScheme s = Return (None, s') \<and>
     Scheme_New s' (WithKind SchemeGroupVersion ''CredentialsRequest'') = Inr (TPtr (api_type ''CredentialsRequest''))"
proof -
  from new_scheme obtain s where s: "runtime_NewScheme = Return s" "wf_scheme s" "gvkToType s = Map.empty" "unversionedKinds s = Map.empty"
    by blast
  then have fits: "fits api_kinds unversioned_names s" by (simp add: fits_def)
  have "api_type ''CredentialsRequest'' \<in> set api_types" "type_Name (api_type ''CredentialsRequest'') = ''CredentialsRequest''"
    by (simp_all add: api_types_def api_type_def)
  with scheme_registration [OF s(2)] fits s show ?thesis by (metis (no_types, lifting))
qed

end
