(* ===== verification/World.thy ===== *)
theory World
  imports ApiScheme
begin

text \<open>
  The outside world as the operator sees it: the API server behind the controller-runtime
  client, AWS IAM behind the SDK, the clock, the random source and the process environment.
  None of their code is under \<open>pkg/\<close>, so they are parameters: a record of functions that give
  the answer to a call. An answer may depend on the whole history of calls, so a stateful,
  failing or stale service is as possible as a perfect one, and a theorem over an arbitrary
  environment holds for all of them. Every call is recorded as an event together with its
  answer.
\<close>

section \<open>IAM\<close>

text \<open>\<open>*iam.User\<close>, \<open>*iam.Tag\<close>: the SDK's fields are pointers.\<close>

record iam_Tag =
  tag_Key :: "string option"
  tag_Value :: "string option"

record iam_User =
  iu_Arn :: "string option"
  iu_UserId :: "string option"
  iu_UserName :: "string option"
  iu_Tags :: "iam_Tag list"

record iam_AccessKey =
  ak_AccessKeyId :: "string option"
  ak_SecretAccessKey :: "string option"

record iam_EvaluationResult =
  er_EvalActionName :: "string option"
  er_EvalDecision :: "string option"

text \<open>
  A client is the static credentials and the user-agent suffix it was built with
  (\<open>NewClient\<close> of \<open>pkg/aws/client.go\<close>).
\<close>

record awsClient =
  cl_AccessKeyID :: string
  cl_SecretAccessKey :: string
  cl_InfraName :: string

text \<open>
  One call to IAM with its answer. \<open>GetUser\<close> without an argument asks for the caller. An output
  whose pointer field can be \<open>nil\<close> is an \<open>option\<close>.
\<close>

datatype iam_call =
    GetUser "string option" "gerror + iam_User option"
  | CreateUser string "gerror + iam_User option"
  | DeleteUser string "gerror option"
  | TagUser string "iam_Tag list" "gerror option"
  | GetUserPolicy string string "gerror + string option"
  | PutUserPolicy string string string "gerror option"
  | DeleteUserPolicy string string "gerror option"
  | ListUserPolicies string "gerror + string list"
  | ListAccessKeys string "gerror + string option list"
  | CreateAccessKey string "gerror + iam_AccessKey option"
  | DeleteAccessKey string "string option" "gerror option"
  | SimulatePrincipalPolicy "string option" "string list" "gerror + iam_EvaluationResult list"

fun iam_mutating :: "iam_call \<Rightarrow> bool" where
  "iam_mutating (CreateUser _ _) = True"
| "iam_mutating (DeleteUser _ _) = True"
| "iam_mutating (TagUser _ _ _) = True"
| "iam_mutating (PutUserPolicy _ _ _ _) = True"
| "iam_mutating (DeleteUserPolicy _ _ _) = True"
| "iam_mutating (CreateAccessKey _ _) = True"
| "iam_mutating (DeleteAccessKey _ _ _) = True"
| "iam_mutating _ = False"

text \<open>The IAM user a call is about, where it names one.\<close>

fun iam_subject :: "iam_call \<Rightarrow> string option" where
  "iam_subject (GetUser u _) = u"
| "iam_subject (CreateUser u _) = Some u"
| "iam_subject (DeleteUser u _) = Some u"
| "iam_subject (TagUser u _ _) = Some u"
| "iam_subject (GetUserPolicy u _ _) = Some u"
| "iam_subject (PutUserPolicy u _ _ _) = Some u"
| "iam_subject (DeleteUserPolicy u _ _) = Some u"
| "iam_subject (ListUserPolicies u _) = Some u"
| "iam_subject (ListAccessKeys u _) = Some u"
| "iam_subject (CreateAccessKey u _) = Some u"
| "iam_subject (DeleteAccessKey u _ _) = Some u"
| "iam_subject (SimulatePrincipalPolicy _ _ _) = None"

section \<open>Events\<close>

datatype event =
    EvNow int
  | EvRandom "string option"
  | EvGetSecret NamespacedName "gerror + Secret"
  | EvCreateSecret Secret "gerror option"
  | EvUpdateSecret Secret "gerror option"
  | EvDeleteSecret Secret "gerror option"
  | EvGetNamespace string "gerror option"
  | EvGetCR NamespacedName "gerror + CredentialsRequest"
  | EvListCR string "gerror + CredentialsRequest list"
  | EvUpdateCR CredentialsRequest "gerror + CredentialsRequest"
  | EvUpdateCRStatus CredentialsRequest "gerror + CredentialsRequest"
  | EvGetInfrastructure string "gerror + Infrastructure"
  | EvGetClusterVersion string "gerror + string"
  | EvGetCO string "gerror + ClusterOperator"
  | EvCreateCO ClusterOperator "gerror + ClusterOperator"
  | EvUpdateCOStatus ClusterOperator "gerror option"
  | EvIam awsClient iam_call

type_synonym trace = "event list"
type_synonym 'a io = "(event, 'a) go"

fun secret_write :: "event \<Rightarrow> bool" where
  "secret_write (EvCreateSecret _ _) = True"
| "secret_write (EvUpdateSecret _ _) = True"
| "secret_write (EvDeleteSecret _ _) = True"
| "secret_write _ = False"

fun cr_write :: "event \<Rightarrow> bool" where
  "cr_write (EvUpdateCR _ _) = True"
| "cr_write (EvUpdateCRStatus _ _) = True"
| "cr_write _ = False"

fun co_write :: "event \<Rightarrow> bool" where
  "co_write (EvCreateCO _ _) = True"
| "co_write (EvUpdateCOStatus _ _) = True"
| "co_write _ = False"

fun iam_write :: "event \<Rightarrow> bool" where
  "iam_write (EvIam _ c) = iam_mutating c"
| "iam_write _ = False"

text \<open>An event that changes nothing outside the operator.\<close>

definition read_only :: "event \<Rightarrow> bool" where
  "read_only ev \<longleftrightarrow> \<not> secret_write ev \<and> \<not> cr_write ev \<and> \<not> co_write ev \<and> \<not> iam_write ev"

section \<open>The environment\<close>

record kube_api =
  k_get_secret :: "trace \<Rightarrow> NamespacedName \<Rightarrow> gerror + Secret"
  k_create_secret :: "trace \<Rightarrow> Secret \<Rightarrow> gerror option"
  k_update_secret :: "trace \<Rightarrow> Secret \<Rightarrow> gerror option"
  k_delete_secret :: "trace \<Rightarrow> Secret \<Rightarrow> gerror option"
  k_get_namespace :: "trace \<Rightarrow> string \<Rightarrow> gerror option"
  k_get_cr :: "trace \<Rightarrow> NamespacedName \<Rightarrow> gerror + CredentialsRequest"
  k_list_cr :: "trace \<Rightarrow> string \<Rightarrow> gerror + CredentialsRequest list"
  k_update_cr :: "trace \<Rightarrow> CredentialsRequest \<Rightarrow> gerror + CredentialsRequest"
  k_update_cr_status :: "trace \<Rightarrow> CredentialsRequest \<Rightarrow> gerror + CredentialsRequest"
  k_get_infrastructure :: "trace \<Rightarrow> string \<Rightarrow> gerror + Infrastructure"
  k_get_clusterversion :: "trace \<Rightarrow> string \<Rightarrow> gerror + string"
  k_get_co :: "trace \<Rightarrow> string \<Rightarrow> gerror + ClusterOperator"
  k_create_co :: "trace \<Rightarrow> ClusterOperator \<Rightarrow> gerror + ClusterOperator"
  k_update_co_status :: "trace \<Rightarrow> ClusterOperator \<Rightarrow> gerror option"

record iam_api =
  i_get_user :: "trace \<Rightarrow> awsClient \<Rightarrow> string option \<Rightarrow> gerror + iam_User option"
  i_create_user :: "trace \<Rightarrow> awsClient \<Rightarrow> string \<Rightarrow> gerror + iam_User option"
  i_delete_user :: "trace \<Rightarrow> awsClient \<Rightarrow> string \<Rightarrow> gerror option"
  i_tag_user :: "trace \<Rightarrow> awsClient \<Rightarrow> string \<Rightarrow> iam_Tag list \<Rightarrow> gerror option"
  i_get_user_policy :: "trace \<Rightarrow> awsClient \<Rightarrow> string \<Rightarrow> string \<Rightarrow> gerror + string option"
  i_put_user_policy :: "trace \<Rightarrow> awsClient \<Rightarrow> string \<Rightarrow> string \<Rightarrow> string \<Rightarrow> gerror option"
  i_delete_user_policy :: "trace \<Rightarrow> awsClient \<Rightarrow> string \<Rightarrow> string \<Rightarrow> gerror option"
  i_list_user_policies :: "trace \<Rightarrow> awsClient \<Rightarrow> string \<Rightarrow> gerror + string list"
  i_list_access_keys :: "trace \<Rightarrow> awsClient \<Rightarrow> string \<Rightarrow> gerror + string option list"
  i_create_access_key :: "trace \<Rightarrow> awsClient \<Rightarrow> string \<Rightarrow> gerror + iam_AccessKey option"
  i_delete_access_key :: "trace \<Rightarrow> awsClient \<Rightarrow> string \<Rightarrow> string option \<Rightarrow> gerror option"
  i_simulate_principal_policy ::
    "trace \<Rightarrow> awsClient \<Rightarrow> string option \<Rightarrow> string list \<Rightarrow> gerror + iam_EvaluationResult list"

text \<open>
  The process: clock, random source, \<open>RELEASE_VERSION\<close>, whether an SDK session can be opened
  with the given keys, the media types of the codec factory, and texts that \<open>fmt\<close> prints: an IAM
  output next to an error, a \<open>time.Time\<close>, and the owner references and initializers of an object, whose
  texts contain addresses of pointers.
\<close>

record host =
  h_now :: "trace \<Rightarrow> int"
  h_int63 :: "trace \<Rightarrow> nat \<Rightarrow> 64 word"
  h_release_version :: string
  h_new_session :: "string \<Rightarrow> string \<Rightarrow> gerror option"
  h_SupportedMediaTypes :: "string list"
  h_show_get_user_output :: string
  h_show_time :: "int \<Rightarrow> string"
  h_show_OwnerReferences :: "OwnerReference list option \<Rightarrow> string"
  h_show_Initializers :: "Initializers option \<Rightarrow> string"

record env =
  kube :: kube_api
  iam :: iam_api
  proc :: host
  codec :: ProviderCodec

section \<open>Printed objects\<close>

text \<open>
  The generated \<open>String\<close> methods of \<open>ObjectMeta\<close> and \<open>Secret\<close>, which \<open>%+v\<close> calls. The replacements of a
  word by itself that the generator leaves in them are the identity and not written out. A
  missing deletion timestamp prints as \<open><nil>\<close>.
\<close>

definition ObjectMeta_String :: "host \<Rightarrow> ObjectMeta \<Rightarrow> string" where
  "ObjectMeta_String h m = concat [''&ObjectMeta{'',
     ''Name:'' @ om_Name m @ '','', ''GenerateName:'' @ om_GenerateName m @ '','',
     ''Namespace:'' @ om_Namespace m @ '','', ''SelfLink:'' @ om_SelfLink m @ '','',
     ''UID:'' @ om_UID m @ '','', ''ResourceVersion:'' @ om_ResourceVersion m @ '','',
     ''Generation:'' @ fmt_int (om_Generation m) @ '','',
     ''CreationTimestamp:'' @ strings_Replace1 (h_show_time h (om_CreationTimestamp m)) ''&'' [] @ '','',
     ''DeletionTimestamp:'' @ (case om_DeletionTimestamp m of None \<Rightarrow> ''<nil>'' | Some d \<Rightarrow> h_show_time h d) @ '','',
     ''DeletionGracePeriodSeconds:'' @
       (case om_DeletionGracePeriodSeconds m of None \<Rightarrow> ''nil'' | Some n \<Rightarrow> ''*'' @ fmt_int n) @ '','',
     ''Labels:map[string]string{'' @ map_entries id (om_Labels m) @ ''},'',
     ''Annotations:map[string]string{'' @ map_entries id (om_Annotations m) @ ''},'',
     ''OwnerReferences:'' @ strings_Replace1 (h_show_OwnerReferences h (om_OwnerReferences m)) ''&'' [] @ '','',
     ''Finalizers:'' @ fmt_strings (case om_Finalizers m of None \<Rightarrow> [] | Some fs \<Rightarrow> fs) @ '','',
     ''ClusterName:'' @ om_ClusterName m @ '','',
     ''Initializers:'' @ h_show_Initializers h (om_Initializers m) @ '','',
     ''}'']"

definition Secret_String :: "host \<Rightarrow> Secret \<Rightarrow> string" where
  "Secret_String h s = concat [''&Secret{'',
     ''ObjectMeta:'' @ strings_Replace1 (strings_Replace1 (ObjectMeta_String h (sec_Meta s)) ''ObjectMeta''
        ''k8s_io_apimachinery_pkg_apis_meta_v1.ObjectMeta'') ''&'' [] @ '','',
     ''Data:map[string][]byte{'' @ map_entries fmt_bytes (sec_Data s) @ ''},'',
     ''Type:'' @ sec_Type s @ '','',
     ''StringData:map[string]string{'' @ map_entries id (sec_StringData s) @ ''},'',
     ''}'']"

text \<open>The printed secret shows every entry of its data, key and bytes.\<close>

lemma Secret_String_shows_data:
  assumes "map_get (sec_Data s) k = Some v"
  shows "sublist (k @ '': '' @ fmt_bytes v @ '','') (Secret_String h s)"
proof -
  have "\<exists>pre post. Secret_String h s = pre @ map_entries fmt_bytes (sec_Data s) @ post"
    by (intro exI [of _ "''&Secret{ObjectMeta:'' @ strings_Replace1 (strings_Replace1 (ObjectMeta_String h (sec_Meta s))
         ''ObjectMeta'' ''k8s_io_apimachinery_pkg_apis_meta_v1.ObjectMeta'') ''&'' [] @ '',Data:map[string][]byte{''"]
        exI [of _ "''},Type:'' @ sec_Type s @ '',StringData:map[string]string{'' @ map_entries id (sec_StringData s) @ ''},}''"])
      (simp add: Secret_String_def)
  then have "sublist (map_entries fmt_bytes (sec_Data s)) (Secret_String h s)" by (auto simp: sublist_def)
  with map_entries_sublist [OF assms] show ?thesis by (rule sublist_order.order.trans)
qed

section \<open>The codec\<close>

text \<open>
  \<open>NewCodec\<close> and \<open>newEncoder\<close> of \<open>codec.go\<close>: the error of building the codec, which takes the first
  serializer of the codec factory; the codec that is built is the field \<open>codec\<close>.
\<close>

definition newEncoder :: "host \<Rightarrow> gerror + string" where
  "newEncoder h = (let serializerInfos = h_SupportedMediaTypes h in
     if length serializerInfos = 0 then Inl (PlainError ''unable to find any serlializers'')
     else Inr (serializerInfos ! 0))"

definition NewCodec :: "host \<Rightarrow> gerror option io" where
  "NewCodec h = bind_go (run_outcome NewScheme) (\<lambda>(err, scheme). case err of
      Some err \<Rightarrow> ret (Some err)
    | None \<Rightarrow> (case newEncoder h of Inl err \<Rightarrow> ret (Some err) | Inr encoder \<Rightarrow> ret None))"

text \<open>Building the scheme never fails, so only the serializers decide.\<close>

definition codec_error :: "host \<Rightarrow> gerror option" where
  "codec_error h = (case newEncoder h of Inl err \<Rightarrow> Some err | Inr encoder \<Rightarrow> None)"

lemma NewCodec_eq [simp, go_simps]: "NewCodec h = ret (codec_error h)"
proof -
  from NewScheme_returns obtain s where s: "NewScheme = Return (None, s)" by blast
  show ?thesis unfolding NewCodec_def s by (cases "newEncoder h") (simp_all add: codec_error_def fun_eq_iff)
qed

lemma emits_NewCodec [emits_intros]: "emits P (NewCodec h)" and returns_NewCodec [returns_intros]: "always_returns (NewCodec h)"
  by simp_all

section \<open>Calls\<close>

abbreviation time_Now :: "env \<Rightarrow> int io" where
  "time_Now E \<equiv> request (h_now (proc E)) EvNow"

abbreviation kGetSecret :: "env \<Rightarrow> NamespacedName \<Rightarrow> (gerror + Secret) io" where
  "kGetSecret E n \<equiv> request (\<lambda>t. k_get_secret (kube E) t n) (EvGetSecret n)"

abbreviation kCreateSecret :: "env \<Rightarrow> Secret \<Rightarrow> gerror option io" where
  "kCreateSecret E s \<equiv> request (\<lambda>t. k_create_secret (kube E) t s) (EvCreateSecret s)"

abbreviation kUpdateSecret :: "env \<Rightarrow> Secret \<Rightarrow> gerror option io" where
  "kUpdateSecret E s \<equiv> request (\<lambda>t. k_update_secret (kube E) t s) (EvUpdateSecret s)"

abbreviation kDeleteSecret :: "env \<Rightarrow> Secret \<Rightarrow> gerror option io" where
  "kDeleteSecret E s \<equiv> request (\<lambda>t. k_delete_secret (kube E) t s) (EvDeleteSecret s)"

abbreviation kGetNamespace :: "env \<Rightarrow> string \<Rightarrow> gerror option io" where
  "kGetNamespace E n \<equiv> request (\<lambda>t. k_get_namespace (kube E) t n) (EvGetNamespace n)"

abbreviation kGetCR :: "env \<Rightarrow> NamespacedName \<Rightarrow> (gerror + CredentialsRequest) io" where
  "kGetCR E n \<equiv> request (\<lambda>t. k_get_cr (kube E) t n) (EvGetCR n)"

abbreviation kListCR :: "env \<Rightarrow> string \<Rightarrow> (gerror + CredentialsRequest list) io" where
  "kListCR E ns \<equiv> request (\<lambda>t. k_list_cr (kube E) t ns) (EvListCR ns)"

abbreviation kUpdateCR :: "env \<Rightarrow> CredentialsRequest \<Rightarrow> (gerror + CredentialsRequest) io" where
  "kUpdateCR E cr \<equiv> request (\<lambda>t. k_update_cr (kube E) t cr) (EvUpdateCR cr)"

abbreviation kUpdateCRStatus :: "env \<Rightarrow> CredentialsRequest \<Rightarrow> (gerror + CredentialsRequest) io" where
  "kUpdateCRStatus E cr \<equiv> request (\<lambda>t. k_update_cr_status (kube E) t cr) (EvUpdateCRStatus cr)"

abbreviation kGetInfrastructure :: "env \<Rightarrow> string \<Rightarrow> (gerror + Infrastructure) io" where
  "kGetInfrastructure E n \<equiv>
     request (\<lambda>t. k_get_infrastructure (kube E) t n) (EvGetInfrastructure n)"

abbreviation kGetClusterVersion :: "env \<Rightarrow> string \<Rightarrow> (gerror + string) io" where
  "kGetClusterVersion E n \<equiv>
     request (\<lambda>t. k_get_clusterversion (kube E) t n) (EvGetClusterVersion n)"

abbreviation kGetCO :: "env \<Rightarrow> string \<Rightarrow> (gerror + ClusterOperator) io" where
  "kGetCO E n \<equiv> request (\<lambda>t. k_get_co (kube E) t n) (EvGetCO n)"

abbreviation kCreateCO :: "env \<Rightarrow> ClusterOperator \<Rightarrow> (gerror + ClusterOperator) io" where
  "kCreateCO E co \<equiv> request (\<lambda>t. k_create_co (kube E) t co) (EvCreateCO co)"

abbreviation kUpdateCOStatus :: "env \<Rightarrow> ClusterOperator \<Rightarrow> gerror option io" where
  "kUpdateCOStatus E co \<equiv> request (\<lambda>t. k_update_co_status (kube E) t co) (EvUpdateCOStatus co)"

text \<open>
  \<open>utilrand.String\<close> over the process's random source; a source that never yields another usable
  letter makes it spin for ever.
\<close>

definition utilrand_String :: "env \<Rightarrow> nat \<Rightarrow> string io" where
  "utilrand_String E n =
     bind_go (request (\<lambda>t. rand_String (h_int63 (proc E) t) n) EvRandom)
       (\<lambda>r. case r of None \<Rightarrow> halt Diverged | Some s \<Rightarrow> ret s)"

lemma utilrand_String_length:
  "fst (utilrand_String E n t) = Return s \<Longrightarrow> length s = n"
  by (auto simp: utilrand_String_def fst_bind dest: rand_String_length split: option.splits)

lemma emits_utilrand [emits_intros]: "(\<And>r. P (EvRandom r)) \<Longrightarrow> emits P (utilrand_String E n)"
  unfolding utilrand_String_def by (intro emits_intros) auto

section \<open>Read-only computations\<close>

lemma read_only_simps [simp]:
  "read_only (EvNow i)" "read_only (EvRandom r)" "read_only (EvGetSecret n s)"
  "read_only (EvGetNamespace ns e)" "read_only (EvGetCR n c)" "read_only (EvListCR ns l)"
  "read_only (EvGetInfrastructure nm infra)" "read_only (EvGetClusterVersion nm v)"
  "read_only (EvGetCO nm coo)" "read_only (EvIam cl call) = (\<not> iam_mutating call)"
  "\<not> read_only (EvCreateSecret se e)" "\<not> read_only (EvUpdateSecret se e)"
  "\<not> read_only (EvDeleteSecret se e)" "\<not> read_only (EvUpdateCR cr u)"
  "\<not> read_only (EvUpdateCRStatus cr u)" "\<not> read_only (EvCreateCO co co')"
  "\<not> read_only (EvUpdateCOStatus co e)"
  by (simp_all add: read_only_def)

section \<open>A concrete environment\<close>

text \<open>
  An environment to evaluate the model in: an empty API server that accepts every write, an IAM
  with one user that may do everything, and a codec that stores a status as its user, a
  newline and its policy. Concrete examples override single answers.
\<close>

definition not_found :: gerror where
  "not_found = StatusError ''NotFound'' ''not found''"

definition sample_kube :: kube_api where
  "sample_kube = \<lparr>k_get_secret = (\<lambda>t n. Inl not_found), k_create_secret = (\<lambda>t s. None),
     k_update_secret = (\<lambda>t s. None), k_delete_secret = (\<lambda>t s. None), k_get_namespace = (\<lambda>t n. None),
     k_get_cr = (\<lambda>t n. Inl not_found), k_list_cr = (\<lambda>t n. Inr []), k_update_cr = (\<lambda>t cr. Inr cr),
     k_update_cr_status = (\<lambda>t cr. Inr cr),
     k_get_infrastructure = (\<lambda>t n. Inr \<lparr>InfrastructureName = ''infra'', Platform = ''AWS''\<rparr>),
     k_get_clusterversion = (\<lambda>t n. Inr ''id''), k_get_co = (\<lambda>t n. Inl not_found),
     k_create_co = (\<lambda>t co. Inr co), k_update_co_status = (\<lambda>t co. None)\<rparr>"

definition sample_user :: "string \<Rightarrow> iam_User" where
  "sample_user u = \<lparr>iu_Arn = Some (''arn:aws:iam::1:user/'' @ u), iu_UserId = Some ''1'', iu_UserName = Some u, iu_Tags = []\<rparr>"

definition sample_iam :: iam_api where
  "sample_iam = \<lparr>
     i_get_user = (\<lambda>t c u. Inr (Some (sample_user (case u of None \<Rightarrow> ''admin'' | Some n \<Rightarrow> n)))),
     i_create_user = (\<lambda>t c u. Inr (Some (sample_user u))), i_delete_user = (\<lambda>t c u. None),
     i_tag_user = (\<lambda>t c u tags. None), i_get_user_policy = (\<lambda>t c u p. Inl (AwsError ''NoSuchEntity'' ''no policy'')),
     i_put_user_policy = (\<lambda>t c u p d. None), i_delete_user_policy = (\<lambda>t c u p. None),
     i_list_user_policies = (\<lambda>t c u. Inr []), i_list_access_keys = (\<lambda>t c u. Inr [Some ''OLD'']),
     i_create_access_key = (\<lambda>t c u. Inr (Some \<lparr>ak_AccessKeyId = Some ''AKIA'', ak_SecretAccessKey = Some ''s3cr3t''\<rparr>)),
     i_delete_access_key = (\<lambda>t c u k. None),
     i_simulate_principal_policy = (\<lambda>t c arn acts. Inr (map (\<lambda>a.
        \<lparr>er_EvalActionName = Some a, er_EvalDecision = Some ''allowed''\<rparr>) acts))\<rparr>"

definition sample_host :: host where
  "sample_host = \<lparr>h_now = (\<lambda>t. int (length t)), h_int63 = (\<lambda>t n. 0), h_release_version = ''4.0'',
     h_new_session = (\<lambda>k s. None),
     h_SupportedMediaTypes = [''application/json''], h_show_get_user_output = [],
     h_show_time = (\<lambda>t. ''0001-01-01 00:00:00 +0000 UTC''), h_show_OwnerReferences = (\<lambda>r. ''[]''),
     h_show_Initializers = (\<lambda>i. ''<nil>'')\<rparr>"

definition sample_codec :: ProviderCodec where
  "sample_codec = \<lparr>
     decode_AWSProviderSpec = (\<lambda>raw. Inr \<lparr>aws_spec_TypeMeta = empty_TypeMeta, StatementEntries =
       [\<lparr>se_Effect = ''Allow'', se_Action = Some [''s3:*''], se_Resource = ''*''\<rparr>]\<rparr>),
     decode_AWSProviderStatus = (\<lambda>raw. case strings_SplitN (CHR 0x0A) 2 raw of
         [u, p] \<Rightarrow> Inr \<lparr>aws_status_TypeMeta = empty_TypeMeta, User = u, Policy = p\<rparr>
       | _ \<Rightarrow> Inl ''malformed''),
     encode_AWSProviderStatus = (\<lambda>st. if CHR 0x0A \<in> set (User st) then Inl ''newline''
       else Inr (User st @ [CHR 0x0A] @ Policy st)),
     decode_AzureProviderSpec = (\<lambda>raw. Inr \<lparr>azure_spec_TypeMeta = empty_TypeMeta, RoleBindings = None\<rparr>),
     decode_AzureProviderStatus = (\<lambda>raw. Inr empty_AzureProviderStatus)\<rparr>"

definition sample_env :: "kube_api \<Rightarrow> iam_api \<Rightarrow> env" where
  "sample_env k i = \<lparr>kube = k, iam = i, proc = sample_host, codec = sample_codec\<rparr>"

text \<open>A request with the given encoded provider status.\<close>

definition sample_cr :: "string option \<Rightarrow> CredentialsRequest" where
  "sample_cr status = \<lparr>cr_TypeMeta = empty_TypeMeta,
     cr_Meta = empty_ObjectMeta\<lparr>om_Name := ''registry'', om_Namespace := ''cco''\<rparr>,
     cr_Spec = \<lparr>SecretRef = \<lparr>or_Kind = [], or_Namespace = ''image'', or_Name = ''creds'', or_UID = [],
        or_APIVersion = [], or_ResourceVersion = [], or_FieldPath = []\<rparr>, ProviderSpec = Some ''spec''\<rparr>,
     cr_Status = \<lparr>Provisioned = False, LastSyncTimestamp = None, LastSyncGeneration = 0,
        ProviderStatus = status, Conditions = None\<rparr>\<rparr>"

text \<open>The same request, marked for deletion and held by the deprovision finalizer.\<close>

definition deleting_cr :: "string option \<Rightarrow> CredentialsRequest" where
  "deleting_cr status = (sample_cr status)\<lparr>cr_Meta := (cr_Meta (sample_cr status))\<lparr>
     om_DeletionTimestamp := Some 0, om_Finalizers := Some [FinalizerDeprovision]\<rparr>\<rparr>"

lemmas sample_defs = sample_env_def sample_kube_def sample_iam_def sample_host_def not_found_def

lemma sample_env_simps [simp]:
  "kube (sample_env k i) = k" "iam (sample_env k i) = i" "proc (sample_env k i) = sample_host"
  "codec (sample_env k i) = sample_codec"
  by (simp_all add: sample_env_def)

lemma sample_kube_simps [simp]:
  "k_get_secret sample_kube t n = Inl not_found" "k_create_secret sample_kube t se = None"
  "k_update_secret sample_kube t se = None" "k_get_namespace sample_kube t ns = None"
  "k_update_cr sample_kube t cr = Inr cr" "k_update_cr_status sample_kube t cr = Inr cr"
  "k_get_infrastructure sample_kube t m = Inr \<lparr>InfrastructureName = ''infra'', Platform = ''AWS''\<rparr>"
  "k_get_clusterversion sample_kube t m = Inr ''id''" "k_get_co sample_kube t m = Inl not_found"
  "k_get_cr sample_kube t n = Inl not_found" "k_list_cr sample_kube t m = Inr []"
  "k_create_co sample_kube t co = Inr co" "k_update_co_status sample_kube t co = None"
  by (simp_all add: sample_kube_def)

lemma sample_iam_simps [simp]:
  "i_get_user sample_iam t c u = Inr (Some (sample_user (case u of None \<Rightarrow> ''admin'' | Some n \<Rightarrow> n)))"
  "i_create_user sample_iam t c x = Inr (Some (sample_user x))" "i_delete_user sample_iam t c x = None"
  "i_tag_user sample_iam t c x tags = None" "i_get_user_policy sample_iam t c x p = Inl (AwsError ''NoSuchEntity'' ''no policy'')"
  "i_put_user_policy sample_iam t c x p d = None" "i_delete_user_policy sample_iam t c x p = None"
  "i_list_access_keys sample_iam t c x = Inr [Some ''OLD'']"
  "i_create_access_key sample_iam t c x = Inr (Some \<lparr>ak_AccessKeyId = Some ''AKIA'', ak_SecretAccessKey = Some ''s3cr3t''\<rparr>)"
  "i_delete_access_key sample_iam t c x k = None"
  by (simp_all add: sample_iam_def)

lemma sample_host_simps [simp]:
  "h_new_session sample_host k s = None" "h_now sample_host t = int (length t)" "codec_error sample_host = None"
  by (simp_all add: sample_host_def codec_error_def newEncoder_def)

lemma target_key_sample [simp]: "target_key (sample_cr st) = \<lparr>nn_Namespace = ''image'', nn_Name = ''creds''\<rparr>"
  by (simp add: target_key_def sample_cr_def)

lemma sample_cr_fields [simp]:
  "ProviderStatus (cr_Status (sample_cr st)) = st" "ProviderSpec (cr_Spec (sample_cr st)) = Some ''spec''"
  "cr_Status (deleting_cr st) = cr_Status (sample_cr st)" "cr_Spec (deleting_cr st) = cr_Spec (sample_cr st)"
  "target_key (deleting_cr st) = target_key (sample_cr st)"
  by (simp_all add: sample_cr_def deleting_cr_def target_key_def)

lemma not_found_IsNotFound [simp]: "IsNotFound not_found"
  by (simp add: not_found_def)

lemma sample_codec_roundtrip: "codec_roundtrip sample_codec"
  by (auto simp: codec_roundtrip_def sample_codec_def strings_SplitN_append
      strings_SplitN_one [unfolded One_nat_def]
      split: if_splits)

end
