(* ===== verification/AwsClient.thy ===== *)
theory AwsClient
  imports World
begin

text \<open>
  \<open>pkg/aws/client.go\<close>: the thin wrapper over the IAM SDK (every method forwards its input),
  \<open>NewClient\<close>, and \<open>LoadCredsFromSecret\<close>.
\<close>

definition awsClient_CreateAccessKey :: "env \<Rightarrow> awsClient \<Rightarrow> string \<Rightarrow> (gerror + iam_AccessKey option) io" where
  "awsClient_CreateAccessKey E c u =
     request (\<lambda>t. i_create_access_key (iam E) t c u) (\<lambda>r. EvIam c (CreateAccessKey u r))"

definition awsClient_CreateUser :: "env \<Rightarrow> awsClient \<Rightarrow> string \<Rightarrow> (gerror + iam_User option) io" where
  "awsClient_CreateUser E c u =
     request (\<lambda>t. i_create_user (iam E) t c u) (\<lambda>r. EvIam c (CreateUser u r))"

definition awsClient_DeleteAccessKey :: "env \<Rightarrow> awsClient \<Rightarrow> string \<Rightarrow> string option \<Rightarrow> gerror option io" where
  "awsClient_DeleteAccessKey E c u k =
     request (\<lambda>t. i_delete_access_key (iam E) t c u k) (\<lambda>r. EvIam c (DeleteAccessKey u k r))"

definition awsClient_DeleteUser :: "env \<Rightarrow> awsClient \<Rightarrow> string \<Rightarrow> gerror option io" where
  "awsClient_DeleteUser E c u =
     request (\<lambda>t. i_delete_user (iam E) t c u) (\<lambda>r. EvIam c (DeleteUser u r))"

definition awsClient_DeleteUserPolicy :: "env \<Rightarrow> awsClient \<Rightarrow> string \<Rightarrow> string \<Rightarrow> gerror option io" where
  "awsClient_DeleteUserPolicy E c u p =
     request (\<lambda>t. i_delete_user_policy (iam E) t c u p) (\<lambda>r. EvIam c (DeleteUserPolicy u p r))"

definition awsClient_GetUser :: "env \<Rightarrow> awsClient \<Rightarrow> string option \<Rightarrow> (gerror + iam_User option) io" where
  "awsClient_GetUser E c u =
     request (\<lambda>t. i_get_user (iam E) t c u) (\<lambda>r. EvIam c (GetUser u r))"

definition awsClient_ListAccessKeys :: "env \<Rightarrow> awsClient \<Rightarrow> string \<Rightarrow> (gerror + string option list) io" where
  "awsClient_ListAccessKeys E c u =
     request (\<lambda>t. i_list_access_keys (iam E) t c u) (\<lambda>r. EvIam c (ListAccessKeys u r))"

definition awsClient_ListUserPolicies :: "env \<Rightarrow> awsClient \<Rightarrow> string \<Rightarrow> (gerror + string list) io" where
  "awsClient_ListUserPolicies E c u =
     request (\<lambda>t. i_list_user_policies (iam E) t c u) (\<lambda>r. EvIam c (ListUserPolicies u r))"

definition awsClient_PutUserPolicy :: "env \<Rightarrow> awsClient \<Rightarrow> string \<Rightarrow> string \<Rightarrow> string \<Rightarrow> gerror option io" where
  "awsClient_PutUserPolicy E c u p doc =
     request (\<lambda>t. i_put_user_policy (iam E) t c u p doc) (\<lambda>r. EvIam c (PutUserPolicy u p doc r))"

definition awsClient_GetUserPolicy :: "env \<Rightarrow> awsClient \<Rightarrow> string \<Rightarrow> string \<Rightarrow> (gerror + string option) io" where
  "awsClient_GetUserPolicy E c u p =
     request (\<lambda>t. i_get_user_policy (iam E) t c u p) (\<lambda>r. EvIam c (GetUserPolicy u p r))"

definition awsClient_SimulatePrincipalPolicy ::
    "env \<Rightarrow> awsClient \<Rightarrow> string option \<Rightarrow> string list \<Rightarrow> (gerror + iam_EvaluationResult list) io" where
  "awsClient_SimulatePrincipalPolicy E c arn actions =
     request (\<lambda>t. i_simulate_principal_policy (iam E) t c arn actions)
       (\<lambda>r. EvIam c (SimulatePrincipalPolicy arn actions r))"

definition awsClient_TagUser :: "env \<Rightarrow> awsClient \<Rightarrow> string \<Rightarrow> iam_Tag list \<Rightarrow> gerror option io" where
  "awsClient_TagUser E c u tags =
     request (\<lambda>t. i_tag_user (iam E) t c u tags) (\<lambda>r. EvIam c (TagUser u tags r))"

lemmas awsClient_defs =
  awsClient_CreateAccessKey_def awsClient_CreateUser_def awsClient_DeleteAccessKey_def
  awsClient_DeleteUser_def awsClient_DeleteUserPolicy_def awsClient_GetUser_def
  awsClient_ListAccessKeys_def awsClient_ListUserPolicies_def awsClient_PutUserPolicy_def
  awsClient_GetUserPolicy_def awsClient_SimulatePrincipalPolicy_def awsClient_TagUser_def

text \<open>\<open>NewClient\<close>: fails exactly when the SDK session cannot be opened.\<close>

definition NewClient :: "env \<Rightarrow> string \<Rightarrow> string \<Rightarrow> string \<Rightarrow> gerror + awsClient" where
  "NewClient E accessKeyID secretAccessKey infraName =
     (case h_new_session (proc E) accessKeyID secretAccessKey of
        Some err \<Rightarrow> Inl err
      | None \<Rightarrow> Inr \<lparr>cl_AccessKeyID = accessKeyID, cl_SecretAccessKey = secretAccessKey,
                     cl_InfraName = infraName\<rparr>)"

definition awsCredsSecretIDKey :: string where
  "awsCredsSecretIDKey = ''aws_access_key_id''"

definition awsCredsSecretAccessKey :: string where
  "awsCredsSecretAccessKey = ''aws_secret_access_key''"

definition LoadCredsFromSecret :: "env \<Rightarrow> string \<Rightarrow> string \<Rightarrow> (gerror + string \<times> string) io" where
  "LoadCredsFromSecret E namespace secretName =
     try_go (kGetSecret E \<lparr>nn_Namespace = namespace, nn_Name = secretName\<rparr>) (\<lambda>secret.
       case map_get (sec_Data secret) awsCredsSecretIDKey of
         None \<Rightarrow> ret (Inl (PlainError (''AWS credentials secret '' @ secretName @
                     '' did not contain key '' @ awsCredsSecretIDKey)))
       | Some accessKeyID \<Rightarrow>
           (case map_get (sec_Data secret) awsCredsSecretAccessKey of
              None \<Rightarrow> ret (Inl (PlainError (''AWS credentials secret '' @ secretName @
                          '' did not contain key '' @ awsCredsSecretAccessKey)))
            | Some secretAccessKey \<Rightarrow> ret (Inr (accessKeyID, secretAccessKey))))"

lemma NewClient_Inr:
  "NewClient E a s i = Inr c \<Longrightarrow>
     cl_AccessKeyID c = a \<and> cl_SecretAccessKey c = s \<and> cl_InfraName c = i"
  by (auto simp: NewClient_def split: option.splits)

text \<open>The keys a credentials secret holds, when it holds both.\<close>

definition secret_keys :: "Secret \<Rightarrow> (string \<times> string) option" where
  "secret_keys s = (case (map_get (sec_Data s) awsCredsSecretIDKey,
                          map_get (sec_Data s) awsCredsSecretAccessKey) of
      (Some k, Some v) \<Rightarrow> Some (k, v) | _ \<Rightarrow> None)"

text \<open>
  Loading credentials is one read of the named secret, and succeeds exactly when that read
  returns a secret holding both keys.
\<close>

lemma LoadCredsFromSecret_apply:
  "LoadCredsFromSecret E ns n t =
     (let key = \<lparr>nn_Namespace = ns, nn_Name = n\<rparr>; r = k_get_secret (kube E) t key
      in (Return (case r of
            Inl e \<Rightarrow> Inl e
          | Inr s \<Rightarrow> (case secret_keys s of
              Some kv \<Rightarrow> Inr kv
            | None \<Rightarrow> Inl (PlainError (''AWS credentials secret '' @ n @ '' did not contain key '' @
                (if map_get (sec_Data s) awsCredsSecretIDKey = None
                 then awsCredsSecretIDKey else awsCredsSecretAccessKey))))),
          [EvGetSecret key r]))"
  by (simp add: LoadCredsFromSecret_def secret_keys_def try_go_def bind_request_apply Let_def
      split: sum.splits option.splits)

lemma returns_LoadCreds [returns_intros]: "always_returns (LoadCredsFromSecret E ns n)"
  by (simp add: always_returns_def LoadCredsFromSecret_apply Let_def)

end
