(* ===== verification/Conditions.thy ===== *)
theory Conditions
  imports ApiTypes
begin

text \<open>
  \<open>pkg/controller/utils/condition_utils.go\<close>: the conditions on a CredentialsRequest.
  \<open>metav1.Now()\<close> is the argument \<open>now\<close>. \<open>FindCredentialsRequestCondition\<close> returns a pointer into
  the slice; writing through it is \<open>update_condition\<close>, which changes the first condition of the
  type.

  The lemmas give the full effect of \<open>SetCredentialsRequestCondition\<close>: what the condition of the
  given type reads afterwards, that the other types keep theirs, that no type ever occurs
  twice, and that repeating a call changes nothing.
\<close>

type_synonym UpdateConditionCheck = "string \<Rightarrow> string \<Rightarrow> string \<Rightarrow> string \<Rightarrow> bool"

definition UpdateConditionAlways :: UpdateConditionCheck where
  "UpdateConditionAlways oldReason oldMessage newReason newMessage = True"

definition UpdateConditionIfReasonOrMessageChange :: UpdateConditionCheck where
  "UpdateConditionIfReasonOrMessageChange oldReason oldMessage newReason newMessage \<longleftrightarrow>
     oldReason \<noteq> newReason \<or> oldMessage \<noteq> newMessage"

definition UpdateConditionNever :: UpdateConditionCheck where
  "UpdateConditionNever oldReason oldMessage newReason newMessage = False"

fun FindCredentialsRequestCondition ::
    "CredentialsRequestCondition list \<Rightarrow> CredentialsRequestConditionType \<Rightarrow>
     CredentialsRequestCondition option" where
  "FindCredentialsRequestCondition [] conditionType = None"
| "FindCredentialsRequestCondition (condition # cs) conditionType =
     (if cc_Type condition = conditionType then Some condition
      else FindCredentialsRequestCondition cs conditionType)"

fun update_condition ::
    "CredentialsRequestConditionType \<Rightarrow> (CredentialsRequestCondition \<Rightarrow> CredentialsRequestCondition) \<Rightarrow>
     CredentialsRequestCondition list \<Rightarrow> CredentialsRequestCondition list" where
  "update_condition conditionType f [] = []"
| "update_condition conditionType f (condition # cs) =
     (if cc_Type condition = conditionType then f condition # cs
      else condition # update_condition conditionType f cs)"

definition shouldUpdateCondition ::
    "ConditionStatus \<Rightarrow> string \<Rightarrow> string \<Rightarrow> ConditionStatus \<Rightarrow> string \<Rightarrow> string \<Rightarrow>
     UpdateConditionCheck \<Rightarrow> bool" where
  "shouldUpdateCondition oldStatus oldReason oldMessage newStatus newReason newMessage updateConditionCheck =
     (if oldStatus \<noteq> newStatus then True
      else updateConditionCheck oldReason oldMessage newReason newMessage)"

definition SetCredentialsRequestCondition ::
    "int \<Rightarrow> CredentialsRequestCondition list option \<Rightarrow> CredentialsRequestConditionType \<Rightarrow>
     ConditionStatus \<Rightarrow> string \<Rightarrow> string \<Rightarrow> UpdateConditionCheck \<Rightarrow>
     CredentialsRequestCondition list option" where
  "SetCredentialsRequestCondition now conditions conditionType status reason message updateConditionCheck =
     (let cs = (case conditions of None \<Rightarrow> [] | Some cs \<Rightarrow> cs) in
      case FindCredentialsRequestCondition cs conditionType of
        None \<Rightarrow>
          (if status = ConditionTrue
           then Some (cs @ [\<lparr>cc_Type = conditionType, cc_Status = status, cc_LastProbeTime = now,
                             cc_LastTransitionTime = now, cc_Reason = reason, cc_Message = message\<rparr>])
           else conditions)
      | Some existing \<Rightarrow>
          (if shouldUpdateCondition (cc_Status existing) (cc_Reason existing) (cc_Message existing)
                status reason message updateConditionCheck
           then Some (update_condition conditionType (\<lambda>c. c\<lparr>
                  cc_LastTransitionTime := (if cc_Status c \<noteq> status then now else cc_LastTransitionTime c),
                  cc_Status := status, cc_Reason := reason, cc_Message := message,
                  cc_LastProbeTime := now\<rparr>) cs)
           else conditions))"

section \<open>Lists of conditions\<close>

abbreviation conds :: "CredentialsRequestCondition list option \<Rightarrow> CredentialsRequestCondition list" where
  "conds cs \<equiv> (case cs of None \<Rightarrow> [] | Some l \<Rightarrow> l)"

lemma Find_None_iff: "FindCredentialsRequestCondition cs ty = None \<longleftrightarrow> ty \<notin> cc_Type ` set cs"
  by (induction cs) auto

lemma Find_Some_type: "FindCredentialsRequestCondition cs ty = Some c \<Longrightarrow> cc_Type c = ty \<and> c \<in> set cs"
  by (induction cs) (auto split: if_splits)

lemma Find_append:
  "FindCredentialsRequestCondition (cs @ ds) ty =
     (case FindCredentialsRequestCondition cs ty of
        None \<Rightarrow> FindCredentialsRequestCondition ds ty | Some c \<Rightarrow> Some c)"
  by (induction cs) auto

lemma Find_update:
  assumes "\<And>c. cc_Type (f c) = cc_Type c"
  shows "FindCredentialsRequestCondition (update_condition ty f cs) ty' =
     (if ty' = ty then map_option f (FindCredentialsRequestCondition cs ty)
      else FindCredentialsRequestCondition cs ty')"
  using assms by (induction cs) auto

lemma map_type_update:
  "(\<And>c. cc_Type (f c) = cc_Type c) \<Longrightarrow> map cc_Type (update_condition ty f cs) = map cc_Type cs"
  by (induction cs) auto

lemma update_condition_id: "(\<And>c. cc_Type c = ty \<Longrightarrow> c \<in> set cs \<Longrightarrow> f c = c) \<Longrightarrow> update_condition ty f cs = cs"
  by (induction cs) auto

section \<open>Setting a condition\<close>

text \<open>What a condition of the type reads after the call.\<close>

definition condition_after ::
    "int \<Rightarrow> CredentialsRequestConditionType \<Rightarrow> ConditionStatus \<Rightarrow> string \<Rightarrow> string \<Rightarrow>
     UpdateConditionCheck \<Rightarrow> CredentialsRequestCondition option \<Rightarrow> CredentialsRequestCondition option" where
  "condition_after now ty status reason message check old = (case old of
      None \<Rightarrow> (if status = ConditionTrue
               then Some \<lparr>cc_Type = ty, cc_Status = status, cc_LastProbeTime = now,
                          cc_LastTransitionTime = now, cc_Reason = reason, cc_Message = message\<rparr>
               else None)
    | Some c \<Rightarrow> Some (if cc_Status c \<noteq> status
               then c\<lparr>cc_LastTransitionTime := now, cc_Status := status, cc_Reason := reason,
                      cc_Message := message, cc_LastProbeTime := now\<rparr>
               else if check (cc_Reason c) (cc_Message c) reason message
               then c\<lparr>cc_Reason := reason, cc_Message := message, cc_LastProbeTime := now\<rparr>
               else c))"

lemma Find_Set:
  "FindCredentialsRequestCondition
       (conds (SetCredentialsRequestCondition now cs ty status reason message check)) ty' =
     (if ty' = ty
      then condition_after now ty status reason message check (FindCredentialsRequestCondition (conds cs) ty)
      else FindCredentialsRequestCondition (conds cs) ty')"
proof (cases "FindCredentialsRequestCondition (conds cs) ty")
  case None
  then show ?thesis
    by (cases "status = ConditionTrue")
      (auto simp: SetCredentialsRequestCondition_def condition_after_def Find_append Let_def
        split: option.splits)
next
  case (Some c)
  then show ?thesis
    by (auto simp: SetCredentialsRequestCondition_def condition_after_def shouldUpdateCondition_def
        Find_update Let_def)
qed

lemma map_type_Set:
  "map cc_Type (conds (SetCredentialsRequestCondition now cs ty status reason message check)) =
     map cc_Type (conds cs) @
       (if ty \<notin> cc_Type ` set (conds cs) \<and> status = ConditionTrue then [ty] else [])"
proof (cases "FindCredentialsRequestCondition (conds cs) ty")
  case None
  then have "ty \<notin> cc_Type ` set (conds cs)" by (simp only: Find_None_iff not_False_eq_True)
  with None show ?thesis
    by (simp add: SetCredentialsRequestCondition_def Let_def)
next
  case (Some c)
  then have "ty \<in> cc_Type ` set (conds cs)" by (auto dest: Find_Some_type)
  with Some show ?thesis
    by (simp add: SetCredentialsRequestCondition_def Let_def map_type_update)
qed

text \<open>
  \<open>SetCredentialsRequestCondition\<close> does what its comment says, on every branch: a missing
  condition is appended exactly when the requested status is True; an existing one is rewritten
  when the status differs (and only then its transition time moves) or when the check asks for
  it; conditions of other types are untouched.
\<close>

lemma set_condition_effect:
  "FindCredentialsRequestCondition
       (conds (SetCredentialsRequestCondition now cs ty status reason message check)) ty' =
     (if ty' \<noteq> ty then FindCredentialsRequestCondition (conds cs) ty'
      else case FindCredentialsRequestCondition (conds cs) ty of
          None \<Rightarrow> (if status = ConditionTrue
            then Some \<lparr>cc_Type = ty, cc_Status = status, cc_LastProbeTime = now,
                       cc_LastTransitionTime = now, cc_Reason = reason, cc_Message = message\<rparr>
            else None)
        | Some c \<Rightarrow> Some (if cc_Status c \<noteq> status
            then c\<lparr>cc_LastTransitionTime := now, cc_Status := status, cc_Reason := reason,
                   cc_Message := message, cc_LastProbeTime := now\<rparr>
            else if check (cc_Reason c) (cc_Message c) reason message
            then c\<lparr>cc_Reason := reason, cc_Message := message, cc_LastProbeTime := now\<rparr>
            else c))"
  by (simp add: Find_Set condition_after_def)

text \<open>
  No condition type ever occurs twice: a list with distinct types keeps distinct types under
  every call, the empty list being the start.
\<close>

lemma set_condition_distinct:
  assumes "distinct (map cc_Type (conds cs))"
  shows "distinct (map cc_Type
    (conds (SetCredentialsRequestCondition now cs ty status reason message check)))"
  using assms by (auto simp: map_type_Set)

text \<open>
  Repeating a call is a no-op, whatever the clock says: with the two checks the controllers
  use, the second call returns the list of the first one unchanged, so it causes no status
  write.
\<close>

lemma set_condition_idempotent:
  assumes "check = UpdateConditionIfReasonOrMessageChange \<or> check = UpdateConditionNever"
  shows "SetCredentialsRequestCondition now'
       (SetCredentialsRequestCondition now cs ty status reason message check) ty status reason message check =
     SetCredentialsRequestCondition now cs ty status reason message check"
proof -
  let ?cs' = "SetCredentialsRequestCondition now cs ty status reason message check"
  have found: "FindCredentialsRequestCondition (conds ?cs') ty =
      condition_after now ty status reason message check (FindCredentialsRequestCondition (conds cs) ty)"
    by (simp add: Find_Set)
  show ?thesis
  proof (cases "FindCredentialsRequestCondition (conds ?cs') ty")
    case None
    with found have "status \<noteq> ConditionTrue"
      by (auto simp: condition_after_def split: option.splits if_splits)
    with None show ?thesis by (simp add: SetCredentialsRequestCondition_def [of now' ?cs'] Let_def)
  next
    case (Some c)
    with found assms have "cc_Status c = status" "\<not> check (cc_Reason c) (cc_Message c) reason message"
      by (auto simp: condition_after_def UpdateConditionIfReasonOrMessageChange_def
          UpdateConditionNever_def split: option.splits if_splits)
    with Some show ?thesis
      by (simp add: SetCredentialsRequestCondition_def [of now' ?cs'] shouldUpdateCondition_def Let_def)
  qed
qed

end
