(* ===== verification/ClusterOperatorUtil.thy ===== *)
theory ClusterOperatorUtil
  imports ApiTypes
begin

text \<open>
  \<open>pkg/util/clusteroperator/status.go\<close>: the conditions of the ClusterOperator resource.
  \<open>metav1.Now()\<close> is the argument \<open>now\<close>; no code tells a \<open>nil\<close> slice of conditions from an empty
  one.

  The lemmas relate both functions to the map from condition types to conditions:
  \<open>SetStatusCondition\<close> is an update of that map that leaves an unchanged condition alone, and
  \<open>ConditionsEqual\<close> is equality of the maps without the transition times, on lists whose types
  are distinct.
\<close>

text \<open>The loop over the old conditions; \<open>None\<close> is the early return of the old slice.\<close>

fun SetStatusCondition_loop ::
    "ClusterOperatorStatusCondition \<Rightarrow> ClusterOperatorStatusCondition list \<Rightarrow>
     ClusterOperatorStatusCondition list \<Rightarrow> bool \<Rightarrow> ClusterOperatorStatusCondition list option" where
  "SetStatusCondition_loop condition [] newConditions found =
     Some (if \<not> found then newConditions @ [condition] else newConditions)"
| "SetStatusCondition_loop condition (c # cs) newConditions found =
     (if oc_Type condition = oc_Type c then
        (if oc_Status condition = oc_Status c \<and> oc_Reason condition = oc_Reason c \<and>
            oc_Message condition = oc_Message c
         then None
         else SetStatusCondition_loop condition cs (newConditions @ [condition]) True)
      else SetStatusCondition_loop condition cs (newConditions @ [c]) found)"

definition SetStatusCondition ::
    "int \<Rightarrow> ClusterOperatorStatusCondition list \<Rightarrow> ClusterOperatorStatusCondition \<Rightarrow>
     ClusterOperatorStatusCondition list" where
  "SetStatusCondition now oldConditions condition =
     (case SetStatusCondition_loop (condition\<lparr>oc_LastTransitionTime := now\<rparr>) oldConditions [] False of
        None \<Rightarrow> oldConditions
      | Some newConditions \<Rightarrow> newConditions)"

definition same_ignoring_time ::
    "ClusterOperatorStatusCondition \<Rightarrow> ClusterOperatorStatusCondition \<Rightarrow> bool" where
  "same_ignoring_time conditionA conditionB \<longleftrightarrow>
     oc_Type conditionA = oc_Type conditionB \<and> oc_Status conditionA = oc_Status conditionB \<and>
     oc_Reason conditionA = oc_Reason conditionB \<and> oc_Message conditionA = oc_Message conditionB"

definition ConditionsEqual ::
    "ClusterOperatorStatusCondition list \<Rightarrow> ClusterOperatorStatusCondition list \<Rightarrow> bool" where
  "ConditionsEqual oldConditions newConditions =
     (if length newConditions \<noteq> length oldConditions then False
      else list_all (\<lambda>conditionA. list_ex (same_ignoring_time conditionA) newConditions) oldConditions)"

section \<open>Conditions as a map\<close>

definition cond_map :: "ClusterOperatorStatusCondition list \<Rightarrow> string \<Rightarrow> ClusterOperatorStatusCondition option" where
  "cond_map cs = map_of (map (\<lambda>c. (oc_Type c, c)) cs)"

lemma cond_map_simps [simp]:
  "cond_map [] = Map.empty"
  "cond_map (c # cs) = (cond_map cs)(oc_Type c \<mapsto> c)"
  by (simp_all add: cond_map_def)

lemma cond_map_append: "cond_map (cs @ ds) = cond_map ds ++ cond_map cs"
  by (simp add: cond_map_def)

lemma dom_cond_map: "dom (cond_map cs) = oc_Type ` set cs"
  by (simp add: cond_map_def dom_map_of_conv_image_fst image_image)

lemma cond_map_None_iff: "cond_map cs ty = None \<longleftrightarrow> ty \<notin> oc_Type ` set cs"
  by (metis dom_cond_map domIff)

lemma cond_map_Some: "cond_map cs ty = Some c \<Longrightarrow> c \<in> set cs \<and> oc_Type c = ty"
  by (induction cs) (auto split: if_splits)

lemma cond_map_distinct:
  "distinct (map oc_Type cs) \<Longrightarrow> c \<in> set cs \<Longrightarrow> cond_map cs (oc_Type c) = Some c"
  unfolding cond_map_def by (rule map_of_is_SomeI) (simp_all add: comp_def)

text \<open>Stripping the time, as the comparison does.\<close>

abbreviation no_time :: "ClusterOperatorStatusCondition \<Rightarrow> ClusterOperatorStatusCondition" where
  "no_time c \<equiv> c\<lparr>oc_LastTransitionTime := 0\<rparr>"

lemma same_ignoring_time_iff: "same_ignoring_time a b \<longleftrightarrow> no_time a = no_time b"
  by (cases a; cases b) (simp add: same_ignoring_time_def)

section \<open>Setting a condition\<close>

lemma SetStatusCondition_loop_other:
  "oc_Type c \<notin> oc_Type ` set cs \<Longrightarrow>
     SetStatusCondition_loop c cs new found = Some (new @ cs @ (if found then [] else [c]))"
  by (induction cs arbitrary: new) auto

lemma SetStatusCondition_new:
  "oc_Type c \<notin> oc_Type ` set cs \<Longrightarrow> SetStatusCondition now cs c = cs @ [c\<lparr>oc_LastTransitionTime := now\<rparr>]"
  by (simp add: SetStatusCondition_def SetStatusCondition_loop_other)

lemma SetStatusCondition_loop_found:
  assumes "oc_Type c = oc_Type x" "oc_Type x \<notin> oc_Type ` set (xs @ ys)"
  shows "SetStatusCondition_loop c (xs @ x # ys) new found =
     (if same_ignoring_time c x then None else Some (new @ xs @ c # ys))"
  using assms
proof (induction xs arbitrary: new)
  case Nil
  then show ?case
    by (auto simp: same_ignoring_time_def SetStatusCondition_loop_other)
qed auto

lemma SetStatusCondition_found:
  assumes "oc_Type c = oc_Type x" "oc_Type x \<notin> oc_Type ` set (xs @ ys)"
  shows "SetStatusCondition now (xs @ x # ys) c =
     (if same_ignoring_time c x then xs @ x # ys
      else xs @ c\<lparr>oc_LastTransitionTime := now\<rparr> # ys)"
  using SetStatusCondition_loop_found [of "c\<lparr>oc_LastTransitionTime := now\<rparr>" x xs ys "[]" False] assms
  by (simp add: SetStatusCondition_def same_ignoring_time_def)

text \<open>What the map reads after setting a condition.\<close>

definition cond_after :: "int \<Rightarrow> ClusterOperatorStatusCondition \<Rightarrow>
    ClusterOperatorStatusCondition option \<Rightarrow> ClusterOperatorStatusCondition" where
  "cond_after now c old = (case old of
      Some x \<Rightarrow> if same_ignoring_time c x then x else c\<lparr>oc_LastTransitionTime := now\<rparr>
    | None \<Rightarrow> c\<lparr>oc_LastTransitionTime := now\<rparr>)"

lemma split_distinct_cond:
  assumes "distinct (map oc_Type cs)" "x \<in> set cs"
  obtains xs ys where "cs = xs @ x # ys" "oc_Type x \<notin> oc_Type ` set (xs @ ys)"
proof -
  from assms(2) obtain xs ys where "cs = xs @ x # ys" by (meson split_list)
  with assms(1) that show ?thesis by auto
qed

text \<open>A condition of a type that is there: kept, or replaced where it stands.\<close>

lemma SetStatusCondition_present:
  assumes dist: "distinct (map oc_Type cs)" and x: "x \<in> set cs" "oc_Type c = oc_Type x"
  shows "distinct (map oc_Type (SetStatusCondition now cs c)) \<and>
    cond_map (SetStatusCondition now cs c) = (cond_map cs)(oc_Type c \<mapsto> cond_after now c (Some x))"
proof -
  from dist x obtain xs ys where cs: "cs = xs @ x # ys" "oc_Type x \<notin> oc_Type ` set (xs @ ys)"
    by (metis split_distinct_cond)
  have old: "cond_map cs (oc_Type c) = Some x" using cond_map_distinct [OF dist x(1)] x(2) by simp
  show ?thesis
  proof (cases "same_ignoring_time c x")
    case True
    with cs x(2) have "SetStatusCondition now cs c = cs" using SetStatusCondition_found [OF x(2) cs(2)] by simp
    with True old dist show ?thesis by (simp add: cond_after_def fun_upd_idem)
  next
    case False
    with cs x(2) have eq: "SetStatusCondition now cs c = xs @ c\<lparr>oc_LastTransitionTime := now\<rparr> # ys"
      using SetStatusCondition_found [OF x(2) cs(2)] by simp
    have upd: "cond_map (xs @ z # ys) = (cond_map (xs @ ys))(oc_Type z \<mapsto> z)" if "oc_Type z = oc_Type x" for z
      using cs(2) that cond_map_None_iff [of xs "oc_Type x"]
      by (auto simp: cond_map_append fun_eq_iff map_add_def split: option.splits)
    have "cond_map cs = (cond_map (xs @ ys))(oc_Type x \<mapsto> x)" using upd [of x] cs(1) by simp
    moreover have "distinct (map oc_Type (xs @ c\<lparr>oc_LastTransitionTime := now\<rparr> # ys))" using dist cs(1) x(2) by simp
    ultimately show ?thesis
      using upd [of "c\<lparr>oc_LastTransitionTime := now\<rparr>"] False x(2) unfolding eq by (simp add: cond_after_def)
  qed
qed

lemma SetStatusCondition_map:
  assumes "distinct (map oc_Type cs)"
  shows "distinct (map oc_Type (SetStatusCondition now cs c))"
    and "cond_map (SetStatusCondition now cs c) =
         (cond_map cs)(oc_Type c \<mapsto> cond_after now c (cond_map cs (oc_Type c)))"
proof -
  have "distinct (map oc_Type (SetStatusCondition now cs c)) \<and>
    cond_map (SetStatusCondition now cs c) =
         (cond_map cs)(oc_Type c \<mapsto> cond_after now c (cond_map cs (oc_Type c)))"
  proof (cases "oc_Type c \<in> oc_Type ` set cs")
    case False
    then have "cond_map cs (oc_Type c) = None" by (simp add: cond_map_None_iff)
    with assms show ?thesis
      unfolding SetStatusCondition_new [OF False]
      using False by (auto simp: cond_map_append cond_after_def map_add_def fun_eq_iff
          split: option.splits)
  next
    case True
    then obtain x where x: "x \<in> set cs" "oc_Type c = oc_Type x" by auto
    with SetStatusCondition_present [OF assms x] cond_map_distinct [OF assms x(1)] show ?thesis by simp
  qed
  then show "distinct (map oc_Type (SetStatusCondition now cs c))"
    and "cond_map (SetStatusCondition now cs c) =
         (cond_map cs)(oc_Type c \<mapsto> cond_after now c (cond_map cs (oc_Type c)))"
    by blast+
qed

text \<open>
  C38. \<open>SetStatusCondition\<close> refines an update of the map from condition types to conditions: types
  stay distinct, the given type maps to the given condition stamped with the current time, every
  other type keeps its condition, and a condition that has not changed keeps its old transition
  time.
\<close>

theorem set_status_condition_refines_map:
  assumes "distinct (map oc_Type cs)"
  shows "distinct (map oc_Type (SetStatusCondition now cs c)) \<and>
    cond_map (SetStatusCondition now cs c) = (cond_map cs)(oc_Type c \<mapsto>
      (case cond_map cs (oc_Type c) of
         Some x \<Rightarrow> if same_ignoring_time c x then x else c\<lparr>oc_LastTransitionTime := now\<rparr>
       | None \<Rightarrow> c\<lparr>oc_LastTransitionTime := now\<rparr>))"
  using SetStatusCondition_map [OF assms, of now c] by (simp add: cond_after_def)

abbreviation sample_cond :: "string \<Rightarrow> string \<Rightarrow> int \<Rightarrow> ClusterOperatorStatusCondition" where
  "sample_cond ty st t \<equiv> \<lparr>oc_Type = ty, oc_Status = st, oc_LastTransitionTime = t,
                          oc_Reason = [], oc_Message = []\<rparr>"

theorem set_status_condition_refines_map_witness:
  "cond_map (SetStatusCondition 9 [sample_cond ''Available'' ''False'' 1, sample_cond ''Failing'' ''True'' 2]
      (sample_cond ''Available'' ''True'' 0)) ''Available'' = Some (sample_cond ''Available'' ''True'' 9)"
  using set_status_condition_refines_map
    [of "[sample_cond ''Available'' ''False'' 1, sample_cond ''Failing'' ''True'' 2]" 9
        "sample_cond ''Available'' ''True'' 0"]
  by (simp add: same_ignoring_time_def)

section \<open>Comparing conditions\<close>

lemma ConditionsEqual_subset:
  "ConditionsEqual old new \<longleftrightarrow> length new = length old \<and> no_time ` set old \<subseteq> no_time ` set new"
  by (auto simp: ConditionsEqual_def list_all_iff list_ex_iff same_ignoring_time_iff image_iff
      simp del: ClusterOperatorStatusCondition.update_convs)

lemma distinct_no_time:
  "distinct (map oc_Type cs) \<Longrightarrow> distinct (map no_time cs)"
proof -
  assume "distinct (map oc_Type cs)"
  moreover have "map oc_Type cs = map oc_Type (map no_time cs)" by simp
  ultimately show ?thesis by (metis distinct_map)
qed

lemma ConditionsEqual_set:
  assumes "distinct (map oc_Type old)"
  shows "ConditionsEqual old new \<longleftrightarrow>
    length new = length old \<and> no_time ` set old = no_time ` set new"
proof
  assume eq: "ConditionsEqual old new"
  then have len: "length new = length old" and sub: "set (map no_time old) \<subseteq> set (map no_time new)"
    by (simp_all add: ConditionsEqual_subset)
  have "card (set (map no_time new)) \<le> length new"
    by (metis card_length length_map)
  also have "\<dots> = card (set (map no_time old))"
    using distinct_card [OF distinct_no_time [OF assms]] len by simp
  finally have "set (map no_time old) = set (map no_time new)"
    using sub by (intro card_seteq) auto
  with len show "length new = length old \<and> no_time ` set old = no_time ` set new" by simp
qed (simp add: ConditionsEqual_subset)

text \<open>The entry of a type, read off the set of conditions without times.\<close>

lemma cond_map_no_time:
  assumes "distinct (map oc_Type cs)"
  shows "map_option no_time (cond_map cs ty) = Some d \<longleftrightarrow> oc_Type d = ty \<and> d \<in> no_time ` set cs"
  using assms by (auto dest: cond_map_Some simp: cond_map_distinct)

lemma same_maps:
  assumes "distinct (map oc_Type cs)" "distinct (map oc_Type ds)"
  shows "(\<forall>ty. map_option no_time (cond_map cs ty) = map_option no_time (cond_map ds ty)) \<longleftrightarrow>
    no_time ` set cs = no_time ` set ds"
proof
  assume eq: "\<forall>ty. map_option no_time (cond_map cs ty) = map_option no_time (cond_map ds ty)"
  have "d \<in> no_time ` set cs \<longleftrightarrow> d \<in> no_time ` set ds" for d
    using cond_map_no_time [OF assms(1), of "oc_Type d" d] cond_map_no_time [OF assms(2), of "oc_Type d" d] eq
    by simp
  then show "no_time ` set cs = no_time ` set ds" by blast
next
  assume eq: "no_time ` set cs = no_time ` set ds"
  have "map_option no_time (cond_map cs ty) = Some d \<longleftrightarrow> map_option no_time (cond_map ds ty) = Some d" for ty d
    by (simp only: cond_map_no_time [OF assms(1)] cond_map_no_time [OF assms(2)] eq)
  then show "\<forall>ty. map_option no_time (cond_map cs ty) = map_option no_time (cond_map ds ty)"
    by (metis not_Some_eq)
qed

lemma ConditionsEqual_maps:
  assumes "distinct (map oc_Type old)" "distinct (map oc_Type new)"
  shows "ConditionsEqual old new \<longleftrightarrow>
    (\<forall>ty. map_option no_time (cond_map old ty) = map_option no_time (cond_map new ty))"
proof
  assume "ConditionsEqual old new"
  then have sets: "no_time ` set old = no_time ` set new"
    using ConditionsEqual_set [OF assms(1)] by blast
  then show "\<forall>ty. map_option no_time (cond_map old ty) = map_option no_time (cond_map new ty)"
    using same_maps [OF assms] by blast
next
  assume eq: "\<forall>ty. map_option no_time (cond_map old ty) = map_option no_time (cond_map new ty)"
  then have "no_time ` set old = no_time ` set new" using same_maps [OF assms] by blast
  moreover from this have "length new = length old"
    using distinct_card [OF distinct_no_time [OF assms(1)]] distinct_card [OF distinct_no_time [OF assms(2)]]
    by simp
  ultimately show "ConditionsEqual old new" using ConditionsEqual_set [OF assms(1)] by blast
qed

text \<open>
  C39. On lists without a repeated type (all the operator builds), \<open>ConditionsEqual\<close> decides whether
  the two lists hold the same conditions up to order and transition times, so it is an
  equivalence there.
\<close>

theorem conditions_equal_correct:
  assumes "distinct (map oc_Type old)" "distinct (map oc_Type new)"
  shows "ConditionsEqual old new \<longleftrightarrow>
    (\<forall>ty. map_option no_time (cond_map old ty) = map_option no_time (cond_map new ty))"
  by (rule ConditionsEqual_maps [OF assms])

theorem conditions_equal_correct_witness:
  "\<not> ConditionsEqual [sample_cond ''Available'' ''True'' 1, sample_cond ''Failing'' ''False'' 2]
      [sample_cond ''Failing'' ''True'' 7, sample_cond ''Available'' ''True'' 3]"
  by (subst conditions_equal_correct) (simp_all, rule exI [of _ "''Failing''"], simp)

end
