(* ===== verification/OperatorStatus.thy ===== *)
theory OperatorStatus
  imports World Conditions ClusterOperatorUtil
begin

text \<open>
  \<open>pkg/controller/credentialsrequest/status.go\<close>: the status the operator reports about itself in
  the ClusterOperator resource \<open>cloud-credential\<close>, computed from all credentials requests of the
  operator's namespace.

  The lemmas say what the three reported conditions mean in terms of the requests, that a
  status is written exactly when the stored one differs, and that the function never panics as
  long as creating the resource does not lose the \<open>Progressing\<close> condition.
\<close>

definition cloudCredOperatorNamespace :: string where
  "cloudCredOperatorNamespace = ''openshift-cloud-credential-operator''"

definition cloudCredClusterOperator :: string where
  "cloudCredClusterOperator = ''cloud-credential''"

definition reasonCredentialsFailing :: string where
  "reasonCredentialsFailing = ''CredentialsFailing''"
definition reasonNoCredentialsFailing :: string where
  "reasonNoCredentialsFailing = ''NoCredentialsFailing''"
definition reasonReconciling :: string where
  "reasonReconciling = ''Reconciling''"
definition reasonReconcilingComplete :: string where
  "reasonReconcilingComplete = ''ReconcilingComplete''"

text \<open>
  \<open>getOperatorState\<close>: the list of requests, empty when the operator's namespace is gone. The
  namespace object it also returns is ignored by its only caller.
\<close>

definition getOperatorState :: "env \<Rightarrow> (gerror + CredentialsRequest list) io" where
  "getOperatorState E =
     bind_go (kGetNamespace E cloudCredOperatorNamespace) (\<lambda>err. case err of
       Some e \<Rightarrow> (if IsNotFound e then ret (Inr [])
                 else ret (Inl (PlainError (''error getting Namespace '' @
                        cloudCredOperatorNamespace @ '': '' @ error_text e))))
     | None \<Rightarrow>
         bind_go (kListCR E cloudCredOperatorNamespace) (\<lambda>r. case r of
           Inl e \<Rightarrow> ret (Inl (PlainError (''failed to list CredentialsRequests: '' @ error_text e)))
         | Inr items \<Rightarrow> ret (Inr items)))"

definition computeClusterOperatorVersions :: "env \<Rightarrow> OperandVersion list option" where
  "computeClusterOperatorVersions E =
     Some [\<lparr>ov_Name = ''operator'', ov_Version = h_release_version (proc E)\<rparr>]"

definition failureConditionTypes :: "CredentialsRequestConditionType list" where
  "failureConditionTypes = [InsufficientCloudCredentials, MissingTargetNamespace,
     CredentialsProvisionFailure, CredentialsDeprovisionFailure]"

text \<open>The inner loop of \<open>computeStatusConditions\<close>, with its \<open>break\<close>.\<close>

fun foundFailure :: "CredentialsRequest \<Rightarrow> CredentialsRequestConditionType list \<Rightarrow> bool" where
  "foundFailure cr [] = False"
| "foundFailure cr (t # ts) =
     (case FindCredentialsRequestCondition (cr_conditions cr) t of
        Some failureCond \<Rightarrow> if cc_Status failureCond = ConditionTrue then True else foundFailure cr ts
      | None \<Rightarrow> foundFailure cr ts)"

fun count_loop :: "('a \<Rightarrow> bool) \<Rightarrow> 'a list \<Rightarrow> nat \<Rightarrow> nat" where
  "count_loop p [] n = n"
| "count_loop p (x # xs) n = count_loop p xs (if p x then n + 1 else n)"

text \<open>
  \<open>computeStatusConditions\<close>; the three times are the three \<open>metav1.Now()\<close> inside
  \<open>SetStatusCondition\<close>.
\<close>

definition computeStatusConditions ::
    "int \<Rightarrow> int \<Rightarrow> int \<Rightarrow> ClusterOperatorStatusCondition list \<Rightarrow> CredentialsRequest list \<Rightarrow>
     ClusterOperatorStatusCondition list" where
  "computeStatusConditions now1 now2 now3 conditions credRequests =
     (let total = length credRequests;
          failingCredRequests = count_loop (\<lambda>cr. foundFailure cr failureConditionTypes) credRequests 0;
          failingCondition =
            (if failingCredRequests > 0
             then \<lparr>oc_Type = OperatorFailing, oc_Status = ConditionTrue, oc_LastTransitionTime = 0,
                   oc_Reason = reasonCredentialsFailing,
                   oc_Message = itoa failingCredRequests @ '' of '' @ itoa total @
                     '' credentials requests are failing to sync.''\<rparr>
             else \<lparr>oc_Type = OperatorFailing, oc_Status = ConditionFalse, oc_LastTransitionTime = 0,
                   oc_Reason = reasonNoCredentialsFailing,
                   oc_Message = ''No credentials requests reporting errors.''\<rparr>);
          conditions1 = SetStatusCondition now1 conditions failingCondition;
          credRequestsNotProvisioned = count_loop (\<lambda>cr. \<not> Provisioned (cr_Status cr)) credRequests 0;
          progressingCondition =
            (if credRequestsNotProvisioned > 0 \<or> failingCredRequests > 0
             then \<lparr>oc_Type = OperatorProgressing, oc_Status = ConditionTrue, oc_LastTransitionTime = 0,
                   oc_Reason = reasonReconciling,
                   oc_Message = itoa (total - credRequestsNotProvisioned) @ '' of '' @ itoa total @
                     '' credentials requests provisioned, '' @ itoa failingCredRequests @
                     '' reporting errors.''\<rparr>
             else \<lparr>oc_Type = OperatorProgressing, oc_Status = ConditionFalse, oc_LastTransitionTime = 0,
                   oc_Reason = reasonReconcilingComplete,
                   oc_Message = itoa total @ '' of '' @ itoa total @
                     '' credentials requests provisioned and reconciled.''\<rparr>);
          conditions2 = SetStatusCondition now2 conditions1 progressingCondition;
          availableCondition =
            \<lparr>oc_Type = OperatorAvailable, oc_Status = ConditionTrue, oc_LastTransitionTime = 0,
             oc_Reason = [], oc_Message = []\<rparr>
      in SetStatusCondition now3 conditions2 availableCondition)"

fun findClusterOperatorCondition ::
    "ClusterOperatorStatusCondition list \<Rightarrow> string \<Rightarrow> ClusterOperatorStatusCondition option" where
  "findClusterOperatorCondition [] conditionType = None"
| "findClusterOperatorCondition (condition # cs) conditionType =
     (if oc_Type condition = conditionType then Some condition
      else findClusterOperatorCondition cs conditionType)"

text \<open>Writing through the pointer \<open>findClusterOperatorCondition\<close> returns.\<close>

fun touch_condition ::
    "string \<Rightarrow> int \<Rightarrow> ClusterOperatorStatusCondition list \<Rightarrow> ClusterOperatorStatusCondition list" where
  "touch_condition conditionType now [] = []"
| "touch_condition conditionType now (condition # cs) =
     (if oc_Type condition = conditionType then condition\<lparr>oc_LastTransitionTime := now\<rparr> # cs
      else condition # touch_condition conditionType now cs)"

text \<open>The object \<open>syncOperatorStatus\<close> starts from, kept when the resource is not found.\<close>

definition new_ClusterOperator :: ClusterOperator where
  "new_ClusterOperator = \<lparr>co_Meta = empty_ObjectMeta\<lparr>om_Name := cloudCredClusterOperator\<rparr>,
     co_Conditions = [], co_Versions = None, co_RelatedObjects = None, co_Extension = []\<rparr>"

text \<open>The last part of \<open>syncOperatorStatus\<close>: touch \<open>Progressing\<close>, and write what has changed.\<close>

definition finish_sync ::
    "env \<Rightarrow> ClusterOperatorStatusCondition list \<Rightarrow> OperandVersion list option \<Rightarrow> ClusterOperator \<Rightarrow>
     (gerror option) io" where
  "finish_sync E oldConditions oldVersions co =
     bind_go (if oldVersions \<noteq> co_Versions co
              then bind_go (deref (findClusterOperatorCondition (co_Conditions co) OperatorProgressing)) (\<lambda>_.
                   bind_go (time_Now E) (\<lambda>now.
                   ret (co\<lparr>co_Conditions := touch_condition OperatorProgressing now (co_Conditions co)\<rparr>)))
              else ret co) (\<lambda>co.
     if \<not> ConditionsEqual oldConditions (co_Conditions co) \<or> oldVersions \<noteq> co_Versions co
     then bind_go (kUpdateCOStatus E co) (\<lambda>err. case err of
            Some e \<Rightarrow> ret (Some (PlainError (''failed to update clusteroperator '' @
                        om_Name (co_Meta co) @ '': '' @ error_text e)))
          | None \<Rightarrow> ret None)
     else ret None)"

definition syncOperatorStatus :: "env \<Rightarrow> (gerror option) io" where
  "syncOperatorStatus E =
     bind_go (kGetCO E cloudCredClusterOperator) (\<lambda>got.
     case (case got of Inr co \<Rightarrow> Inr (False, co)
             | Inl err \<Rightarrow> if IsNotFound err then Inr (True, new_ClusterOperator) else Inl err) of
       Inl err \<Rightarrow> ret (Some (PlainError (''failed to get clusteroperator '' @
                    cloudCredClusterOperator @ '': '' @ error_text err)))
     | Inr (isNotFound, co) \<Rightarrow>
     bind_go (getOperatorState E) (\<lambda>state.
     case state of
       Inl err \<Rightarrow> ret (Some (PlainError (''failed to get operator state: '' @ error_text err)))
     | Inr credRequests \<Rightarrow>
     let oldConditions = co_Conditions co; oldVersions = co_Versions co in
     bind_go (time_Now E) (\<lambda>now1. bind_go (time_Now E) (\<lambda>now2. bind_go (time_Now E) (\<lambda>now3.
     let co = co\<lparr>co_Conditions := computeStatusConditions now1 now2 now3 oldConditions credRequests,
                 co_Versions := computeClusterOperatorVersions E\<rparr> in
     bind_go (if isNotFound then kCreateCO E co else ret (Inr co)) (\<lambda>created.
     case created of
       Inl err \<Rightarrow> ret (Some (PlainError (''failed to create clusteroperator '' @
                    om_Name (co_Meta co) @ '': '' @ error_text err)))
     | Inr co \<Rightarrow> finish_sync E oldConditions oldVersions co))))))"

section \<open>What the conditions mean\<close>

lemma count_loop_eq: "count_loop p xs n = n + length (filter p xs)"
  by (induction xs arbitrary: n) auto

lemma foundFailure_iff:
  "foundFailure cr ts \<longleftrightarrow> (\<exists>ty \<in> set ts. \<exists>c.
     FindCredentialsRequestCondition (cr_conditions cr) ty = Some c \<and> cc_Status c = ConditionTrue)"
  by (induction ts) (auto split: option.splits)

lemma cond_after_fields [simp]:
  "oc_Type c = ty \<Longrightarrow> old = None \<or> oc_Type (the old) = ty \<Longrightarrow> oc_Type (cond_after now c old) = ty"
  "oc_Status (cond_after now c old) = oc_Status c"
  "oc_Reason (cond_after now c old) = oc_Reason c"
  "oc_Message (cond_after now c old) = oc_Message c"
  by (auto simp: cond_after_def same_ignoring_time_def split: option.splits)

lemma SetStatusCondition_same:
  assumes "distinct (map oc_Type cs)" "cond_map cs (oc_Type c) = Some x" "same_ignoring_time c x"
  shows "SetStatusCondition now cs c = cs"
proof -
  from assms(2) have x: "x \<in> set cs" "oc_Type c = oc_Type x" by (auto dest: cond_map_Some)
  with assms(1) obtain xs ys where "cs = xs @ x # ys" "oc_Type x \<notin> oc_Type ` set (xs @ ys)"
    by (metis split_distinct_cond)
  with SetStatusCondition_found [OF x(2)] assms(3) show ?thesis by simp
qed

text \<open>The three conditions \<open>computeStatusConditions\<close> sets, as one fold.\<close>

definition failing_condition :: "CredentialsRequest list \<Rightarrow> ClusterOperatorStatusCondition" where
  "failing_condition crs =
     (let n = length (filter (\<lambda>cr. foundFailure cr failureConditionTypes) crs) in
      if n > 0
      then \<lparr>oc_Type = OperatorFailing, oc_Status = ConditionTrue, oc_LastTransitionTime = 0,
            oc_Reason = reasonCredentialsFailing,
            oc_Message = itoa n @ '' of '' @ itoa (length crs) @
              '' credentials requests are failing to sync.''\<rparr>
      else \<lparr>oc_Type = OperatorFailing, oc_Status = ConditionFalse, oc_LastTransitionTime = 0,
            oc_Reason = reasonNoCredentialsFailing,
            oc_Message = ''No credentials requests reporting errors.''\<rparr>)"

definition progressing_condition :: "CredentialsRequest list \<Rightarrow> ClusterOperatorStatusCondition" where
  "progressing_condition crs =
     (let n = length (filter (\<lambda>cr. foundFailure cr failureConditionTypes) crs);
          m = length (filter (\<lambda>cr. \<not> Provisioned (cr_Status cr)) crs) in
      if m > 0 \<or> n > 0
      then \<lparr>oc_Type = OperatorProgressing, oc_Status = ConditionTrue, oc_LastTransitionTime = 0,
            oc_Reason = reasonReconciling,
            oc_Message = itoa (length crs - m) @ '' of '' @ itoa (length crs) @
              '' credentials requests provisioned, '' @ itoa n @ '' reporting errors.''\<rparr>
      else \<lparr>oc_Type = OperatorProgressing, oc_Status = ConditionFalse, oc_LastTransitionTime = 0,
            oc_Reason = reasonReconcilingComplete,
            oc_Message = itoa (length crs) @ '' of '' @ itoa (length crs) @
              '' credentials requests provisioned and reconciled.''\<rparr>)"

definition available_condition :: ClusterOperatorStatusCondition where
  "available_condition = \<lparr>oc_Type = OperatorAvailable, oc_Status = ConditionTrue,
     oc_LastTransitionTime = 0, oc_Reason = [], oc_Message = []\<rparr>"

lemma computeStatusConditions_eq:
  "computeStatusConditions n1 n2 n3 cs crs =
     SetStatusCondition n3 (SetStatusCondition n2 (SetStatusCondition n1 cs (failing_condition crs))
       (progressing_condition crs)) available_condition"
  by (simp add: computeStatusConditions_def failing_condition_def progressing_condition_def
      available_condition_def count_loop_eq Let_def)

lemma the_conditions_types [simp]:
  "oc_Type (failing_condition crs) = OperatorFailing"
  "oc_Type (progressing_condition crs) = OperatorProgressing"
  "oc_Type available_condition = OperatorAvailable"
  by (simp_all add: failing_condition_def progressing_condition_def available_condition_def Let_def)

lemma failing_condition_status:
  "oc_Status (failing_condition crs) =
     (if \<exists>cr \<in> set crs. foundFailure cr failureConditionTypes then ConditionTrue else ConditionFalse)"
  by (auto simp: failing_condition_def Let_def filter_empty_conv)

lemma progressing_condition_status:
  "oc_Status (progressing_condition crs) =
     (if \<exists>cr \<in> set crs. \<not> Provisioned (cr_Status cr) \<or> foundFailure cr failureConditionTypes
      then ConditionTrue else ConditionFalse)"
  by (auto simp: progressing_condition_def Let_def filter_empty_conv)

lemma computeStatusConditions_map:
  assumes "distinct (map oc_Type cs)"
  shows "distinct (map oc_Type (computeStatusConditions n1 n2 n3 cs crs))"
    and "cond_map (computeStatusConditions n1 n2 n3 cs crs) = (cond_map cs)
       (OperatorFailing \<mapsto> cond_after n1 (failing_condition crs) (cond_map cs OperatorFailing),
        OperatorProgressing \<mapsto> cond_after n2 (progressing_condition crs) (cond_map cs OperatorProgressing),
        OperatorAvailable \<mapsto> cond_after n3 available_condition (cond_map cs OperatorAvailable))"
  by (simp_all add: computeStatusConditions_eq SetStatusCondition_map assms)

text \<open>A request that reports a failure.\<close>

definition failing :: "CredentialsRequest \<Rightarrow> bool" where
  "failing cr \<longleftrightarrow> (\<exists>ty \<in> {InsufficientCloudCredentials, MissingTargetNamespace,
     CredentialsProvisionFailure, CredentialsDeprovisionFailure}. \<exists>c \<in> set (cr_conditions cr).
     FindCredentialsRequestCondition (cr_conditions cr) ty = Some c \<and> cc_Status c = ConditionTrue)"

lemma foundFailure_failing: "foundFailure cr failureConditionTypes \<longleftrightarrow> failing cr"
  by (auto simp: failing_def foundFailure_iff failureConditionTypes_def dest: Find_Some_type)

text \<open>
  C20. What the operator reports about itself: Failing is True exactly when some request has one
  of the four failure conditions set to True, Progressing is True exactly when some request is
  not provisioned or is failing, Available is always True, no type is reported twice, and
  conditions of other types that were stored stay as they were. The stored conditions have at
  most one condition of each type to begin with.
\<close>

theorem operator_conditions_meaning:
  assumes "distinct (map oc_Type cs)"
    and "cs' = computeStatusConditions n1 n2 n3 cs crs"
  shows "distinct (map oc_Type cs') \<and>
    map_option oc_Status (cond_map cs' OperatorFailing) =
      Some (if \<exists>cr \<in> set crs. failing cr then ConditionTrue else ConditionFalse) \<and>
    map_option oc_Status (cond_map cs' OperatorProgressing) =
      Some (if \<exists>cr \<in> set crs. \<not> Provisioned (cr_Status cr) \<or> failing cr
            then ConditionTrue else ConditionFalse) \<and>
    map_option oc_Status (cond_map cs' OperatorAvailable) = Some ConditionTrue \<and>
    (\<forall>ty. ty \<notin> {OperatorFailing, OperatorProgressing, OperatorAvailable} \<longrightarrow>
       cond_map cs' ty = cond_map cs ty)"
  unfolding assms(2)
  by (simp add: computeStatusConditions_map [OF assms(1)] failing_condition_status
      progressing_condition_status foundFailure_failing) (simp add: available_condition_def)

abbreviation failing_cr :: CredentialsRequest where
  "failing_cr \<equiv> \<lparr>cr_TypeMeta = empty_TypeMeta, cr_Meta = empty_ObjectMeta,
     cr_Spec = \<lparr>SecretRef = \<lparr>or_Kind = [], or_Namespace = ''ns'', or_Name = ''s'', or_UID = [],
       or_APIVersion = [], or_ResourceVersion = [], or_FieldPath = []\<rparr>, ProviderSpec = None\<rparr>,
     cr_Status = \<lparr>Provisioned = True, LastSyncTimestamp = None, LastSyncGeneration = 0, ProviderStatus = None,
       Conditions = Some [\<lparr>cc_Type = MissingTargetNamespace, cc_Status = ConditionTrue, cc_LastProbeTime = 0,
         cc_LastTransitionTime = 0, cc_Reason = [], cc_Message = []\<rparr>]\<rparr>\<rparr>"

theorem operator_conditions_meaning_witness:
  "distinct (map oc_Type (computeStatusConditions 1 2 3 [] [failing_cr])) \<and>
   map_option oc_Status (cond_map (computeStatusConditions 1 2 3 [] [failing_cr]) OperatorFailing) =
     Some ConditionTrue"
proof -
  have "failing failing_cr" by (simp add: failing_def cr_conditions_def)
  then show ?thesis
    using operator_conditions_meaning [of "[]" "computeStatusConditions 1 2 3 [] [failing_cr]" 1 2 3 "[failing_cr]"]
    by simp
qed

text \<open>Computing again from the same requests changes nothing.\<close>

lemma same_cond_after:
  "old = None \<or> oc_Type (the old) = oc_Type c \<Longrightarrow> same_ignoring_time c (cond_after n c old)"
  by (auto simp: cond_after_def same_ignoring_time_def split: option.splits)

lemma cond_map_type: "cond_map cs ty = None \<or> oc_Type (the (cond_map cs ty)) = ty"
  by (cases "cond_map cs ty") (auto dest: cond_map_Some)

lemma computeStatusConditions_again:
  assumes "distinct (map oc_Type cs)"
  shows "computeStatusConditions m1 m2 m3 (computeStatusConditions n1 n2 n3 cs crs) crs =
    computeStatusConditions n1 n2 n3 cs crs"
proof -
  let ?cs' = "computeStatusConditions n1 n2 n3 cs crs"
  note new = computeStatusConditions_map [OF assms]
  have stored: "\<exists>n. cond_map ?cs' (oc_Type c) = Some (cond_after n c (cond_map cs (oc_Type c)))"
    if "c \<in> {failing_condition crs, progressing_condition crs, available_condition}" for c
    using that by (auto simp: new(2))
  have "SetStatusCondition m ?cs' c = ?cs'"
    if c: "c \<in> {failing_condition crs, progressing_condition crs, available_condition}" for m c
  proof -
    from stored [OF c] obtain n where
      "cond_map ?cs' (oc_Type c) = Some (cond_after n c (cond_map cs (oc_Type c)))" ..
    with SetStatusCondition_same [OF new(1)] same_cond_after [OF cond_map_type]
    show ?thesis by blast
  qed
  then show ?thesis by (subst computeStatusConditions_eq) simp
qed

section \<open>Synchronising\<close>

lemma emits_getOperatorState [emits_intros]:
  "(\<And>n e. P (EvGetNamespace n e)) \<Longrightarrow> (\<And>n l. P (EvListCR n l)) \<Longrightarrow> emits P (getOperatorState E)"
  unfolding getOperatorState_def by (intro emits_intros) auto

lemma returns_getOperatorState [returns_intros]: "always_returns (getOperatorState E)"
  unfolding getOperatorState_def by (intro returns_intros)

lemma map_no_time_touch: "map no_time (touch_condition ty now cs) = map no_time cs"
  by (induction cs) auto

lemma map_type_touch [simp]: "map oc_Type (touch_condition ty now cs) = map oc_Type cs"
  by (induction cs) auto

text \<open>Which conditions a list shows, without times: the list up to order when types are distinct.\<close>

lemma cond_map_touch:
  "map_option no_time (cond_map (touch_condition ty now cs) k) = map_option no_time (cond_map cs k)"
  by (induction cs) auto

text \<open>The conditions and the version are the ones the requests call for.\<close>

definition reports :: "env \<Rightarrow> CredentialsRequest list \<Rightarrow> ClusterOperator \<Rightarrow> bool" where
  "reports E crs co \<longleftrightarrow>
     co_Versions co = computeClusterOperatorVersions E \<and>
     map_option no_time (cond_map (co_Conditions co) OperatorFailing) = Some (no_time (failing_condition crs)) \<and>
     map_option no_time (cond_map (co_Conditions co) OperatorProgressing) = Some (no_time (progressing_condition crs)) \<and>
     map_option no_time (cond_map (co_Conditions co) OperatorAvailable) = Some (no_time available_condition)"

lemma no_time_cond_after:
  "old = None \<or> oc_Type (the old) = oc_Type c \<Longrightarrow> no_time (cond_after n c old) = no_time c"
  using same_cond_after by (metis same_ignoring_time_iff)

lemma computeStatusConditions_reports:
  assumes "distinct (map oc_Type cs)"
    and same: "\<And>ty. map_option no_time (cond_map (co_Conditions co) ty) =
      map_option no_time (cond_map (computeStatusConditions n1 n2 n3 cs crs) ty)"
    and "co_Versions co = computeClusterOperatorVersions E"
  shows "reports E crs co"
  unfolding reports_def
  using assms(3) cond_map_type [of cs]
  by (simp add: same computeStatusConditions_map [OF assms(1)] no_time_cond_after
      del: ClusterOperatorStatusCondition.update_convs)

text \<open>
  The part of \<open>syncOperatorStatus\<close> after the resource and the requests have been read, for a
  resource that exists.
\<close>

lemma syncOperatorStatus_found:
  assumes "k_get_co (kube E) t cloudCredClusterOperator = Inr co"
    and "getOperatorState E (t @ [EvGetCO cloudCredClusterOperator (Inr co)]) = (Return (Inr crs), evs)"
  obtains now1 now2 now3 pre where "\<forall>ev \<in> set pre. read_only ev"
    "syncOperatorStatus E t =
      (let r = finish_sync E (co_Conditions co) (co_Versions co)
                 (co\<lparr>co_Conditions := computeStatusConditions now1 now2 now3 (co_Conditions co) crs,
                     co_Versions := computeClusterOperatorVersions E\<rparr>) (t @ pre)
       in (fst r, pre @ snd r))"
proof -
  have "\<forall>ev \<in> set evs. read_only ev"
    using assms(2) emitsD [OF emits_getOperatorState [of read_only E]] by (metis read_only_simps(4,6) snd_conv)
  moreover define pre where "pre = EvGetCO cloudCredClusterOperator (Inr co) # evs"
  define now1 where "now1 = h_now (proc E) (t @ pre)"
  define now2 where "now2 = h_now (proc E) (t @ pre @ [EvNow now1])"
  define now3 where "now3 = h_now (proc E) (t @ pre @ [EvNow now1, EvNow now2])"
  ultimately have "\<forall>ev \<in> set (pre @ [EvNow now1, EvNow now2, EvNow now3]). read_only ev"
    by (simp add: pre_def)
  moreover have "syncOperatorStatus E t =
      (let r = finish_sync E (co_Conditions co) (co_Versions co)
                 (co\<lparr>co_Conditions := computeStatusConditions now1 now2 now3 (co_Conditions co) crs,
                     co_Versions := computeClusterOperatorVersions E\<rparr>)
                 (t @ pre @ [EvNow now1, EvNow now2, EvNow now3])
       in (fst r, (pre @ [EvNow now1, EvNow now2, EvNow now3]) @ snd r))"
    by (simp add: syncOperatorStatus_def bind_request_apply assms bind_go_def [of "getOperatorState E"]
        Let_def pre_def [symmetric] now1_def [symmetric] now2_def [symmetric] now3_def [symmetric])
      (simp add: pre_def now1_def now2_def now3_def)
  ultimately show ?thesis by (intro that)
qed

lemma finish_sync_cases:
  assumes "findClusterOperatorCondition (co_Conditions co) OperatorProgressing \<noteq> None"
  obtains co' nows where
    "co_Versions co' = co_Versions co"
    "map no_time (co_Conditions co') = map no_time (co_Conditions co)"
    "\<forall>ev \<in> set nows. read_only ev"
    "let changed = \<not> (ConditionsEqual oldC (co_Conditions co) \<and> oldV = co_Versions co);
         err = k_update_co_status (kube E) (t @ nows) co'
     in snd (finish_sync E oldC oldV co t) = nows @ (if changed then [EvUpdateCOStatus co' err] else []) \<and>
        (\<exists>r. fst (finish_sync E oldC oldV co t) = Return r \<and> (r = None \<longleftrightarrow> \<not> changed \<or> err = None))"
proof -
  from assms obtain c where c: "findClusterOperatorCondition (co_Conditions co) OperatorProgressing = Some c" by auto
  show ?thesis
  proof (cases "oldV = co_Versions co")
    case True
    show ?thesis
      by (rule that [of co "[]"]) (auto simp: finish_sync_def True bind_request_apply split: option.splits)
  next
    case False
    let ?now = "h_now (proc E) t"
    show ?thesis
      by (rule that [of "co\<lparr>co_Conditions := touch_condition OperatorProgressing ?now (co_Conditions co)\<rparr>" "[EvNow ?now]"])
        (auto simp: finish_sync_def False c bind_request_apply fst_bind snd_bind map_no_time_touch
          split: option.splits)
  qed
qed

lemma find_cond_map: "findClusterOperatorCondition cs ty = cond_map cs ty"
  by (induction cs) auto

lemma SetStatusCondition_loop_types:
  "case SetStatusCondition_loop c cs new found of
     None \<Rightarrow> oc_Type c \<in> oc_Type ` set cs
   | Some r \<Rightarrow> oc_Type ` set new \<union> oc_Type ` set cs \<subseteq> oc_Type ` set r \<and>
       (found \<or> oc_Type c \<in> oc_Type ` set r)"
proof (induction cs arbitrary: new found)
  case (Cons x cs)
  from Cons.IH [of "new @ [c]" True] Cons.IH [of "new @ [x]" found]
  show ?case by (auto split: option.splits)
qed auto

lemma SetStatusCondition_types:
  "insert (oc_Type c) (oc_Type ` set cs) \<subseteq> oc_Type ` set (SetStatusCondition now cs c)"
  using SetStatusCondition_loop_types [of "c\<lparr>oc_LastTransitionTime := now\<rparr>" cs "[]" False]
  by (auto simp: SetStatusCondition_def split: option.splits)

lemma computeStatusConditions_Progressing:
  "OperatorProgressing \<in> oc_Type ` set (computeStatusConditions n1 n2 n3 cs crs)"
  using SetStatusCondition_types [of "progressing_condition crs"] SetStatusCondition_types [of available_condition]
  unfolding computeStatusConditions_eq by fastforce

lemma find_Progressing_computed [simp]:
  "findClusterOperatorCondition (computeStatusConditions n1 n2 n3 cs crs) OperatorProgressing \<noteq> None"
  using computeStatusConditions_Progressing by (simp add: find_cond_map cond_map_None_iff)

text \<open>Two ways to show the computed conditions: stored already, or written with other transition times.\<close>

lemma stored_reports:
  assumes "distinct (map oc_Type (co_Conditions co))" "co_Versions co = computeClusterOperatorVersions E"
    and "ConditionsEqual (co_Conditions co) (computeStatusConditions n1 n2 n3 (co_Conditions co) crs)"
  shows "reports E crs co"
proof (rule computeStatusConditions_reports [OF assms(1)])
  show "map_option no_time (cond_map (co_Conditions co) ty) =
      map_option no_time (cond_map (computeStatusConditions n1 n2 n3 (co_Conditions co) crs) ty)" for ty
    using assms(3) unfolding ConditionsEqual_maps [OF assms(1) computeStatusConditions_map(1) [OF assms(1)]] by (rule spec)
qed (use assms(2) in simp)

lemma written_reports:
  assumes "distinct (map oc_Type cs)" "co_Versions co = computeClusterOperatorVersions E"
    and "map no_time (co_Conditions co) = map no_time (computeStatusConditions n1 n2 n3 cs crs)"
  shows "reports E crs co"
proof (rule computeStatusConditions_reports [OF assms(1)])
  note distinct = computeStatusConditions_map(1) [OF assms(1)]
  have "distinct (map oc_Type (co_Conditions co))"
    using distinct arg_cong [OF assms(3), of "map oc_Type"] by (simp add: comp_def)
  from spec [OF iffD2 [OF same_maps [OF this distinct] arg_cong [OF assms(3), of set, unfolded set_map]]]
  show "map_option no_time (cond_map (co_Conditions co) ty) =
      map_option no_time (cond_map (computeStatusConditions n1 n2 n3 cs crs) ty)" for ty .
qed (use assms(2) in simp)

text \<open>
  After a successful sync the ClusterOperator shows the true state: for a resource that
  exists, either the stored object already reported the release version and the three
  conditions the listed requests call for and nothing was written, or exactly one status
  update was made, it was accepted, and the object written reports them.
\<close>

theorem operator_status_reported:
  assumes "k_get_co (kube E) t cloudCredClusterOperator = Inr co"
    and "distinct (map oc_Type (co_Conditions co))"
    and "getOperatorState E (t @ [EvGetCO cloudCredClusterOperator (Inr co)]) = (Return (Inr crs), evs)"
    and "fst (syncOperatorStatus E t) = Return None"
  shows "case filter (\<lambda>ev. \<not> read_only ev) (snd (syncOperatorStatus E t)) of
      [] \<Rightarrow> reports E crs co
    | [EvUpdateCOStatus co' None] \<Rightarrow> reports E crs co'
    | _ \<Rightarrow> False"
proof -
  obtain now1 now2 now3 pre where
    pre: "\<forall>ev \<in> set pre. read_only ev" and
    eq: "syncOperatorStatus E t =
      (let r = finish_sync E (co_Conditions co) (co_Versions co)
                 (co\<lparr>co_Conditions := computeStatusConditions now1 now2 now3 (co_Conditions co) crs,
                     co_Versions := computeClusterOperatorVersions E\<rparr>) (t @ pre)
       in (fst r, pre @ snd r))"
    by (rule syncOperatorStatus_found [OF assms(1,3)])
  let ?cs = "computeStatusConditions now1 now2 now3 (co_Conditions co) crs"
  let ?co = "co\<lparr>co_Conditions := ?cs, co_Versions := computeClusterOperatorVersions E\<rparr>"
  let ?err = "\<lambda>nows co'. k_update_co_status (kube E) ((t @ pre) @ nows) co'"
  let ?changed = "\<not> (ConditionsEqual (co_Conditions co) ?cs \<and> co_Versions co = co_Versions ?co)"
  let ?fin = "finish_sync E (co_Conditions co) (co_Versions co) ?co (t @ pre)"
  have "findClusterOperatorCondition (co_Conditions ?co) OperatorProgressing \<noteq> None" by simp
  then obtain co' nows where
    co': "co_Versions co' = co_Versions ?co" "map no_time (co_Conditions co') = map no_time (co_Conditions ?co)" and
    nows: "\<forall>ev \<in> set nows. read_only ev" and
    fin: "let changed = \<not> (ConditionsEqual (co_Conditions co) (co_Conditions ?co) \<and> co_Versions co = co_Versions ?co);
              err = ?err nows co'
     in snd ?fin = nows @ (if changed then [EvUpdateCOStatus co' err] else []) \<and>
        (\<exists>r. fst ?fin = Return r \<and> (r = None \<longleftrightarrow> \<not> changed \<or> err = None))"
    by (rule finish_sync_cases)
  have conds: "co_Conditions ?co = ?cs" by simp
  note co' = co' [unfolded conds] and fin = fin [unfolded conds]
  from fin have evs: "snd ?fin = nows @ (if ?changed then [EvUpdateCOStatus co' (?err nows co')] else [])"
    and ok: "fst ?fin = Return None \<Longrightarrow> ?changed \<Longrightarrow> ?err nows co' = None"
    unfolding Let_def by auto
  have "reports E crs co" if "\<not> ?changed"
    using that by (intro stored_reports [OF assms(2), of E now1 now2 now3]) simp_all
  moreover have "reports E crs co'"
    by (rule written_reports [OF assms(2) _ co'(2)]) (simp add: co'(1))
  moreover have "fst ?fin = Return None" "snd (syncOperatorStatus E t) = pre @ snd ?fin"
    using assms(4) by (simp_all add: eq Let_def)
  moreover have "filter (\<lambda>ev. \<not> read_only ev) pre = []" "filter (\<lambda>ev. \<not> read_only ev) nows = []"
    using pre nows by (simp_all add: filter_empty_conv)
  ultimately show ?thesis using ok by (cases ?changed) (auto simp: evs)
qed

theorem operator_status_reported_witness:
  "case filter (\<lambda>ev. \<not> read_only ev) (snd (syncOperatorStatus
        (sample_env (sample_kube\<lparr>k_get_co := \<lambda>t n. Inr new_ClusterOperator\<rparr>) sample_iam) [])) of
      [] \<Rightarrow> reports (sample_env (sample_kube\<lparr>k_get_co := \<lambda>t n. Inr new_ClusterOperator\<rparr>) sample_iam) []
              new_ClusterOperator
    | [EvUpdateCOStatus co' None] \<Rightarrow>
        reports (sample_env (sample_kube\<lparr>k_get_co := \<lambda>t n. Inr new_ClusterOperator\<rparr>) sample_iam) [] co'
    | _ \<Rightarrow> False"
proof -
  let ?E = "sample_env (sample_kube\<lparr>k_get_co := \<lambda>t n. Inr new_ClusterOperator\<rparr>) sample_iam"
  have co: "k_get_co (kube ?E) [] cloudCredClusterOperator = Inr new_ClusterOperator"
    by (simp add: sample_defs)
  have state: "getOperatorState ?E t = (Return (Inr []),
      [EvGetNamespace cloudCredOperatorNamespace None, EvListCR cloudCredOperatorNamespace (Inr [])])" for t
    by (simp add: getOperatorState_def bind_request_apply sample_defs)
  obtain now1 now2 now3 pre where
    eq: "syncOperatorStatus ?E [] =
      (let r = finish_sync ?E (co_Conditions new_ClusterOperator) (co_Versions new_ClusterOperator)
         (new_ClusterOperator\<lparr>co_Conditions := computeStatusConditions now1 now2 now3 (co_Conditions new_ClusterOperator) [],
                     co_Versions := computeClusterOperatorVersions ?E\<rparr>) ([] @ pre)
       in (fst r, pre @ snd r))"
    by (rule syncOperatorStatus_found [OF co state])
  obtain c where "findClusterOperatorCondition (computeStatusConditions now1 now2 now3 [] []) OperatorProgressing = Some c"
    using find_Progressing_computed by fastforce
  then have "fst (syncOperatorStatus ?E []) = Return None"
    unfolding eq
    by (simp add: finish_sync_def new_ClusterOperator_def computeClusterOperatorVersions_def Let_def
        bind_request_apply fst_bind snd_bind sample_defs)
  from operator_status_reported [OF co _ state this] show ?thesis
    by (simp add: new_ClusterOperator_def)
qed

text \<open>
  Once it has been written, the status settles: if the stored conditions are what an earlier
  sync computed from the same requests and the version is current, a sync succeeds without
  writing anything, whatever the clock says.
\<close>

theorem operator_status_quiescent:
  assumes "k_get_co (kube E) t cloudCredClusterOperator = Inr co"
    and "getOperatorState E (t @ [EvGetCO cloudCredClusterOperator (Inr co)]) = (Return (Inr crs), evs)"
    and "co_Conditions co = computeStatusConditions n1 n2 n3 cs crs" "distinct (map oc_Type cs)"
    and "co_Versions co = computeClusterOperatorVersions E"
  shows "fst (syncOperatorStatus E t) = Return None \<and>
    (\<forall>ev \<in> set (snd (syncOperatorStatus E t)). read_only ev)"
proof -
  obtain now1 now2 now3 pre where
    pre: "\<forall>ev \<in> set pre. read_only ev" and
    eq: "syncOperatorStatus E t =
      (let r = finish_sync E (co_Conditions co) (co_Versions co)
                 (co\<lparr>co_Conditions := computeStatusConditions now1 now2 now3 (co_Conditions co) crs,
                     co_Versions := computeClusterOperatorVersions E\<rparr>) (t @ pre)
       in (fst r, pre @ snd r))"
    by (rule syncOperatorStatus_found [OF assms(1,2)])
  have "ConditionsEqual cs' cs'" for cs'
    by (simp add: ConditionsEqual_subset)
  then have "finish_sync E (co_Conditions co) (co_Versions co)
                 (co\<lparr>co_Conditions := computeStatusConditions now1 now2 now3 (co_Conditions co) crs,
                     co_Versions := computeClusterOperatorVersions E\<rparr>) (t @ pre) = (Return None, [])"
    by (simp add: finish_sync_def assms(3,5) computeStatusConditions_again [OF assms(4)])
  with pre show ?thesis unfolding eq by (simp add: Let_def)
qed

abbreviation settled_co :: ClusterOperator where
  "settled_co \<equiv> new_ClusterOperator\<lparr>co_Conditions := computeStatusConditions 1 2 3 [] [],
     co_Versions := Some [\<lparr>ov_Name = ''operator'', ov_Version = ''4.0''\<rparr>]\<rparr>"

theorem operator_status_quiescent_witness:
  "fst (syncOperatorStatus (sample_env (sample_kube\<lparr>k_get_co := \<lambda>t n. Inr settled_co\<rparr>) sample_iam) []) = Return None"
proof -
  let ?E = "sample_env (sample_kube\<lparr>k_get_co := \<lambda>t n. Inr settled_co\<rparr>) sample_iam"
  have co: "k_get_co (kube ?E) [] cloudCredClusterOperator = Inr settled_co"
    by (simp add: sample_defs)
  have state: "getOperatorState ?E t = (Return (Inr []),
      [EvGetNamespace cloudCredOperatorNamespace None, EvListCR cloudCredOperatorNamespace (Inr [])])" for t
    by (simp add: getOperatorState_def bind_request_apply sample_defs)
  have "co_Conditions settled_co = computeStatusConditions 1 2 3 [] []" by simp
  from operator_status_quiescent [OF co state this] show ?thesis
    by (simp add: computeClusterOperatorVersions_def sample_env_def sample_host_def)
qed

lemma syncOperatorStatus_returns:
  assumes "\<And>t co co'. k_create_co (kube E) t co = Inr co' \<Longrightarrow>
     oc_Type ` set (co_Conditions co) \<subseteq> oc_Type ` set (co_Conditions co')"
  shows "always_returns (syncOperatorStatus E)"
proof -
  have fin: "\<exists>r. fst (finish_sync E oldC oldV co t) = Return r"
    if "OperatorProgressing \<in> oc_Type ` set (co_Conditions co)" for oldC oldV co t
  proof -
    from that obtain c where "findClusterOperatorCondition (co_Conditions co) OperatorProgressing = Some c"
      by (metis cond_map_None_iff find_cond_map not_None_eq)
    then show ?thesis
      by (auto simp: finish_sync_def fst_bind bind_request_apply split: option.splits)
  qed
  have create: "always_returns (bind_go (if nf then kCreateCO E co else ret (Inr co)) (\<lambda>created.
       case created of Inl err \<Rightarrow> ret (Some (f err)) | Inr co \<Rightarrow> finish_sync E oldC oldV co))"
    if "OperatorProgressing \<in> oc_Type ` set (co_Conditions co)" for nf co f oldC oldV
    unfolding always_returns_def
    using subsetD [OF assms that] that by (simp add: fst_bind fin split: sum.splits)
  show ?thesis
    unfolding syncOperatorStatus_def Let_def
    by (rule create returns_intros | simp add: computeStatusConditions_Progressing)+
qed

text \<open>
  \<open>syncOperatorStatus\<close> never panics: the dereference of the \<open>Progressing\<close> condition (\<open>We know
  this should be there\<close>) is safe in every environment in which creating the resource does not
  lose a condition type.
\<close>

lemma sync_operator_status_returns:
  assumes "\<And>t co co'. k_create_co (kube E) t co = Inr co' \<Longrightarrow>
     oc_Type ` set (co_Conditions co) \<subseteq> oc_Type ` set (co_Conditions co')"
  shows "\<exists>r. fst (syncOperatorStatus E t) = Return r"
  by (rule always_returnsD [OF syncOperatorStatus_returns [OF assms]])

end
