(* ===== verification/CloudUtils.thy ===== *)
theory CloudUtils
  imports AwsClient
begin

text \<open>
  \<open>pkg/controller/utils/utils.go\<close>: what AWS credentials are good for. The operator asks IAM who
  the caller is and has IAM simulate the actions; the account's root user is taken to be
  allowed everything.

  The lemmas evaluate the check: it makes at most the two read-only IAM calls and answers
  True exactly for the root user and for a principal that IAM allows every simulated action.
\<close>

definition credMintingActions :: "string list" where
  "credMintingActions = [
    ''iam:CreateAccessKey'', ''iam:CreateUser'', ''iam:DeleteAccessKey'', ''iam:DeleteUser'',
     ''iam:DeleteUserPolicy'', ''iam:GetUser'', ''iam:GetUserPolicy'', ''iam:ListAccessKeys'',
     ''iam:PutUserPolicy'', ''iam:TagUser'', ''iam:SimulatePrincipalPolicy''
   ]"

definition credPassthroughActions :: "string list" where
  "credPassthroughActions = [
    ''iam:GetUser'', ''iam:SimulatePrincipalPolicy'',
     ''elasticloadbalancing:DescribeLoadBalancers'', ''route53:ListHostedZones'',
     ''route53:ChangeResourceRecordSets'', ''tag:GetResources'', ''s3:CreateBucket'',
     ''s3:DeleteBucket'', ''s3:PutBucketTagging'', ''s3:GetBucketTagging'',
     ''s3:PutEncryptionConfiguration'', ''s3:GetEncryptionConfiguration'',
     ''s3:PutLifecycleConfiguration'', ''s3:GetLifecycleConfiguration'', ''s3:GetBucketLocation'',
     ''s3:ListBucket'', ''s3:HeadBucket'', ''s3:GetObject'', ''s3:PutObject'', ''s3:DeleteObject'',
     ''s3:ListBucketMultipartUploads'', ''s3:AbortMultipartUpload'', ''ec2:DescribeImages'',
     ''ec2:DescribeVpcs'', ''ec2:DescribeSubnets'', ''ec2:DescribeAvailabilityZones'',
     ''ec2:DescribeSecurityGroups'', ''ec2:RunInstances'', ''ec2:DescribeInstances'',
     ''ec2:TerminateInstances'', ''elasticloadbalancing:RegisterInstancesWithLoadBalancer'',
     ''elasticloadbalancing:DescribeLoadBalancers'', ''elasticloadbalancing:DescribeTargetGroups'',
     ''elasticloadbalancing:RegisterTargets'', ''ec2:DescribeVpcs'', ''ec2:DescribeSubnets'',
     ''ec2:DescribeAvailabilityZones'', ''ec2:DescribeSecurityGroups'', ''ec2:RunInstances'',
     ''ec2:DescribeInstances'', ''ec2:TerminateInstances'',
     ''elasticloadbalancing:RegisterInstancesWithLoadBalancer'',
     ''elasticloadbalancing:DescribeLoadBalancers'', ''elasticloadbalancing:DescribeTargetGroups'',
     ''elasticloadbalancing:RegisterTargets'', ''iam:GetUser'', ''iam:GetUserPolicy'',
     ''iam:ListAccessKeys''
   ]"

definition infrastructureConfigName :: string where
  "infrastructureConfigName = ''cluster''"

definition LoadInfrastructureName :: "env \<Rightarrow> (gerror + string) io" where
  "LoadInfrastructureName E =
     try_go (kGetInfrastructure E ''cluster'') (\<lambda>infra. ret (Inr (InfrastructureName infra)))"

text \<open>
  \<open>getClientDetails\<close>: the output's \<open>User\<close>, its \<open>Arn\<close> and its \<open>UserId\<close> are dereferenced without a
  check, in this order.
\<close>

definition getClientDetails :: "env \<Rightarrow> awsClient \<Rightarrow> (gerror + iam_User \<times> bool) io" where
  "getClientDetails E c =
     bind_go (awsClient_GetUser E c None) (\<lambda>r. case r of
       Inl err \<Rightarrow> ret (Inl (PlainError (''error querying username: '' @ error_text err)))
     | Inr userp \<Rightarrow>
         bind_go (deref userp) (\<lambda>user.
         bind_go (deref (iu_Arn user)) (\<lambda>arn.
         case arn_Parse arn of
           Inl err \<Rightarrow> ret (Inl (PlainError (''error parsing user's ARN: '' @ err)))
         | Inr parsed \<Rightarrow>
             bind_go (deref (iu_UserId user)) (\<lambda>uid.
             ret (Inr (user, arn_AccountID parsed = uid))))))"

text \<open>The loop over the evaluation results, with its dereferences.\<close>

fun allClear_loop :: "iam_EvaluationResult list \<Rightarrow> bool \<Rightarrow> bool io" where
  "allClear_loop [] allClear = ret allClear"
| "allClear_loop (result # rs) allClear =
     bind_go (deref (er_EvalDecision result)) (\<lambda>decision.
       if decision \<noteq> ''allowed''
       then bind_go (deref (er_EvalActionName result)) (\<lambda>_. allClear_loop rs False)
       else allClear_loop rs allClear)"

definition statement_actions :: "StatementEntry \<Rightarrow> string list" where
  "statement_actions statement = (case se_Action statement of None \<Rightarrow> [] | Some actions \<Rightarrow> actions)"

definition CheckPermissionsUsingQueryClient ::
    "env \<Rightarrow> awsClient \<Rightarrow> awsClient \<Rightarrow> StatementEntry list \<Rightarrow> (gerror + bool) io" where
  "CheckPermissionsUsingQueryClient E queryClient targetClient statementEntries =
     bind_go (getClientDetails E targetClient) (\<lambda>r. case r of
       Inl err \<Rightarrow> ret (Inl (PlainError (''error gathering AWS credentials details: '' @ error_text err)))
     | Inr (targetUser, isRoot) \<Rightarrow>
         if isRoot then ret (Inr True)
         else
           let allowList = concat (map statement_actions statementEntries) in
           bind_go (awsClient_SimulatePrincipalPolicy E queryClient (iu_Arn targetUser) allowList) (\<lambda>r. case r of
             Inl err \<Rightarrow> ret (Inl (PlainError (''error simulating policy: '' @ error_text err)))
           | Inr results \<Rightarrow>
               bind_go (allClear_loop results True) (\<lambda>allClear.
                 if \<not> allClear then ret (Inr False) else ret (Inr True))))"

definition CheckPermissionsAgainstStatementList ::
    "env \<Rightarrow> awsClient \<Rightarrow> StatementEntry list \<Rightarrow> (gerror + bool) io" where
  "CheckPermissionsAgainstStatementList E c statementEntries =
     CheckPermissionsUsingQueryClient E c c statementEntries"

definition CheckPermissionsAgainstActions :: "env \<Rightarrow> awsClient \<Rightarrow> string list \<Rightarrow> (gerror + bool) io" where
  "CheckPermissionsAgainstActions E c actionList =
     CheckPermissionsAgainstStatementList E c
       [\<lparr>se_Effect = ''Allow'', se_Action = Some actionList, se_Resource = ''*''\<rparr>]"

definition CheckCloudCredCreation :: "env \<Rightarrow> awsClient \<Rightarrow> (gerror + bool) io" where
  "CheckCloudCredCreation E c = CheckPermissionsAgainstActions E c credMintingActions"

definition CheckCloudCredPassthrough :: "env \<Rightarrow> awsClient \<Rightarrow> (gerror + bool) io" where
  "CheckCloudCredPassthrough E c = CheckPermissionsAgainstActions E c credPassthroughActions"

text \<open>
  \<open>readCredentialRequest\<close> and \<open>getCredentialRequestStatements\<close>; the decoder of the scheme is a
  parameter, and yields an object of any kind the scheme knows.
\<close>

datatype runtime_Object = Obj_CredentialsRequest CredentialsRequest | Obj_other rtype

definition readCredentialRequest ::
    "(string \<Rightarrow> string + runtime_Object) \<Rightarrow> string \<Rightarrow> (gerror + CredentialsRequest) io" where
  "readCredentialRequest decode cr = (case decode cr of
      Inl err \<Rightarrow> ret (Inl (PlainError (''error decoding credentialrequest: '' @ err)))
    | Inr (Obj_CredentialsRequest newObj) \<Rightarrow> ret (Inr newObj)
    | Inr (Obj_other t) \<Rightarrow> halt (Panicked ''interface conversion''))"

definition getCredentialRequestStatements ::
    "env \<Rightarrow> (string \<Rightarrow> string + runtime_Object) \<Rightarrow> string \<Rightarrow> (gerror + StatementEntry list) io" where
  "getCredentialRequestStatements E decode crBytes =
     bind_go (NewCodec (proc E)) (\<lambda>err. case err of
        Some err \<Rightarrow> ret (Inl (PlainError (''error creating credentialrequest codec: '' @ error_text err)))
      | None \<Rightarrow>
          try_go (readCredentialRequest decode crBytes) (\<lambda>cr.
               bind_go (DecodeProviderSpec (decode_AWSProviderSpec (codec E)) (ProviderSpec (cr_Spec cr))) (\<lambda>r.
               case r of
                 Inl err \<Rightarrow> ret (Inl (PlainError (''error decoding spec.ProviderSpec: '' @ error_text err)))
               | Inr awsSpec \<Rightarrow> ret (Inr (StatementEntries awsSpec)))))"

section \<open>Evaluating the check\<close>

text \<open>
  What IAM documents of the two queries: the caller is a user with a well-formed ARN and an id,
  and a simulation answers every requested action with a decision, \<open>allowed\<close> exactly for the
  actions the principal may perform.
\<close>

definition iam_caller :: "env \<Rightarrow> awsClient \<Rightarrow> iam_User \<Rightarrow> bool \<Rightarrow> bool" where
  "iam_caller E c u root \<longleftrightarrow> (\<forall>t. i_get_user (iam E) t c None = Inr (Some u)) \<and>
     (\<exists>arn a uid. iu_Arn u = Some arn \<and> arn_Parse arn = Inr a \<and> iu_UserId u = Some uid \<and>
        (root \<longleftrightarrow> arn_AccountID a = uid))"

definition simulation_of :: "(string \<Rightarrow> bool) \<Rightarrow> string list \<Rightarrow> iam_EvaluationResult list \<Rightarrow> bool" where
  "simulation_of permits = list_all2 (\<lambda>a r. er_EvalActionName r = Some a \<and>
     (\<exists>d. er_EvalDecision r = Some d \<and> (d = ''allowed'' \<longleftrightarrow> permits a)))"

definition iam_simulates :: "env \<Rightarrow> awsClient \<Rightarrow> iam_User \<Rightarrow> (string \<Rightarrow> bool) \<Rightarrow> bool" where
  "iam_simulates E c u permits \<longleftrightarrow> (\<forall>t actions. \<exists>results.
     i_simulate_principal_policy (iam E) t c (iu_Arn u) actions = Inr results \<and>
     simulation_of permits actions results)"

lemma allClear_loop_simulation:
  "simulation_of permits actions results \<Longrightarrow>
     allClear_loop results b = ret (b \<and> (\<forall>a \<in> set actions. permits a))"
  unfolding simulation_of_def
  by (induction actions results arbitrary: b rule: list_all2_induct) auto

lemma getClientDetails_value:
  "iam_caller E c u root \<Longrightarrow>
     getClientDetails E c t = (Return (Inr (u, root)), [EvIam c (GetUser None (Inr (Some u)))])"
  by (auto simp: iam_caller_def getClientDetails_def awsClient_GetUser_def bind_request_apply)

lemma CheckPermissions_value:
  assumes "iam_caller E target u root" and "iam_simulates E query u permits"
  obtains results where
    "CheckPermissionsUsingQueryClient E query target stmts t =
       (Return (Inr (root \<or> (\<forall>s \<in> set stmts. \<forall>a \<in> set (statement_actions s). permits a))),
        EvIam target (GetUser None (Inr (Some u))) #
        (if root then [] else [EvIam query (SimulatePrincipalPolicy (iu_Arn u)
           (concat (map statement_actions stmts)) (Inr results))]))"
proof -
  let ?t = "t @ [EvIam target (GetUser None (Inr (Some u)))]"
  let ?acts = "concat (map statement_actions stmts)"
  from assms(2) obtain results where
    sim: "i_simulate_principal_policy (iam E) ?t query (iu_Arn u) ?acts = Inr results"
      "simulation_of permits ?acts results"
    unfolding iam_simulates_def by blast
  have "CheckPermissionsUsingQueryClient E query target stmts t =
     (Return (Inr (root \<or> (\<forall>a \<in> set ?acts. permits a))),
        EvIam target (GetUser None (Inr (Some u))) #
        (if root then [] else [EvIam query (SimulatePrincipalPolicy (iu_Arn u) ?acts (Inr results))]))"
    unfolding CheckPermissionsUsingQueryClient_def bind_go_def [of "getClientDetails E target"]
    by (simp add: getClientDetails_value [OF assms(1)] awsClient_SimulatePrincipalPolicy_def
        bind_request_apply sim(1) allClear_loop_simulation [OF sim(2)] Let_def)
  then show ?thesis by (intro that [of results]) simp
qed


lemma sample_iam_simulates:
  "iam_simulates (sample_env k sample_iam) c u (\<lambda>_. True)"
  by (simp add: iam_simulates_def simulation_of_def sample_env_def sample_iam_def list_all2_map2 list.rel_refl)

lemma sample_iam_caller:
  "iam_caller (sample_env k sample_iam) c (sample_user ''admin'') True"
  by (simp add: iam_caller_def sample_env_def sample_iam_def sample_user_def arn_Parse_def)


text \<open>Only the two queries are ever made, and neither changes anything.\<close>

lemma emits_getClientDetails [emits_intros]:
  "(\<And>r. P (EvIam c (GetUser None r))) \<Longrightarrow> emits P (getClientDetails E c)"
  unfolding getClientDetails_def awsClient_GetUser_def by (intro emits_intros) auto

lemma emits_allClear [emits_intros]: "emits P (allClear_loop rs b)"
  by (induction rs arbitrary: b) (auto intro!: emits_intros)

lemma emits_CheckPermissions [emits_intros]:
  assumes "\<And>r. P (EvIam target (GetUser None r))"
    and "\<And>arn acts r. P (EvIam query (SimulatePrincipalPolicy arn acts r))"
  shows "emits P (CheckPermissionsUsingQueryClient E query target stmts)"
  unfolding CheckPermissionsUsingQueryClient_def awsClient_SimulatePrincipalPolicy_def Let_def
  by (intro emits_intros assms)

lemmas check_defs = CheckCloudCredCreation_def CheckCloudCredPassthrough_def
  CheckPermissionsAgainstActions_def CheckPermissionsAgainstStatementList_def

end
