(* ===== verification/SecretAnnotator.thy ===== *)
theory SecretAnnotator
  imports CloudUtils
begin

text \<open>
  \<open>pkg/controller/secretannotator\<close>: the controller that inspects the cluster's root cloud
  credentials and records in an annotation of their secret what they can be used for.

  The lemmas say which mode is recorded for which capabilities, that nothing else of the
  secret changes, and that the controller writes nothing but this secret.
\<close>

definition CloudCredSecretName :: string where "CloudCredSecretName = ''aws-creds''"
definition CloudCredSecretNamespace :: string where "CloudCredSecretNamespace = ''kube-system''"
definition AnnotationKey :: string where "AnnotationKey = ''cloudcredential.openshift.io/mode''"
definition MintAnnotation :: string where "MintAnnotation = ''mint''"
definition PassthroughAnnotation :: string where "PassthroughAnnotation = ''passthrough''"
definition InsufficientAnnotation :: string where "InsufficientAnnotation = ''insufficient''"
definition AwsAccessKeyName :: string where "AwsAccessKeyName = ''aws_access_key_id''"
definition AwsSecretAccessKeyName :: string where "AwsSecretAccessKeyName = ''aws_secret_access_key''"

lemma annotation_values_distinct [simp]:
  "MintAnnotation \<noteq> PassthroughAnnotation" "MintAnnotation \<noteq> InsufficientAnnotation"
  "PassthroughAnnotation \<noteq> MintAnnotation" "PassthroughAnnotation \<noteq> InsufficientAnnotation"
  "InsufficientAnnotation \<noteq> MintAnnotation" "InsufficientAnnotation \<noteq> PassthroughAnnotation"
  by (simp_all add: MintAnnotation_def PassthroughAnnotation_def InsufficientAnnotation_def)

text \<open>The predicate of the watch, for the object of a create, update or delete event.\<close>

definition cloudCredSecretObjectCheck :: "ObjectMeta \<Rightarrow> bool" where
  "cloudCredSecretObjectCheck secret =
     (if om_Namespace secret = CloudCredSecretNamespace \<and> om_Name secret = CloudCredSecretName
      then True else False)"

definition updateSecretAnnotations :: "env \<Rightarrow> Secret \<Rightarrow> string \<Rightarrow> (gerror option) io" where
  "updateSecretAnnotations E secret value =
     (let secretAnnotations = (case sec_Annotations secret of None \<Rightarrow> fmempty | Some m \<Rightarrow> m) in
      kUpdateSecret E (set_sec_Annotations (Some (fmupd AnnotationKey value secretAnnotations)) secret))"

definition validateCloudCredsSecret :: "env \<Rightarrow> Secret \<Rightarrow> (gerror option) io" where
  "validateCloudCredsSecret E secret =
     (case map_get (sec_Data secret) AwsAccessKeyName of
        None \<Rightarrow> updateSecretAnnotations E secret InsufficientAnnotation
      | Some accessKey \<Rightarrow>
     (case map_get (sec_Data secret) AwsSecretAccessKeyName of
        None \<Rightarrow> updateSecretAnnotations E secret InsufficientAnnotation
      | Some secretKey \<Rightarrow>
     bind_go (LoadInfrastructureName E) (\<lambda>r. case r of
        Inl err \<Rightarrow> ret (Some err)
      | Inr infraName \<Rightarrow>
     (case NewClient E accessKey secretKey infraName of
        Inl err \<Rightarrow> ret (Some (PlainError (''error creating aws client: '' @ error_text err)))
      | Inr awsClient \<Rightarrow>
     bind_go (CheckCloudCredCreation E awsClient) (\<lambda>r. case r of
        Inl err \<Rightarrow>
          bind_go (updateSecretAnnotations E secret InsufficientAnnotation) (\<lambda>_.
          ret (Some (PlainError (''failed checking create cloud creds: '' @ error_text err))))
      | Inr cloudCheckResult \<Rightarrow>
          if cloudCheckResult then updateSecretAnnotations E secret MintAnnotation
          else
     bind_go (CheckCloudCredPassthrough E awsClient) (\<lambda>r. case r of
        Inl err \<Rightarrow>
          bind_go (updateSecretAnnotations E secret InsufficientAnnotation) (\<lambda>_.
          ret (Some (PlainError (''failed checking passthrough cloud creds: '' @ error_text err))))
      | Inr cloudCheckResult \<Rightarrow>
          if cloudCheckResult then updateSecretAnnotations E secret PassthroughAnnotation
          else updateSecretAnnotations E secret InsufficientAnnotation))))))"

text \<open>\<open>ReconcileCloudCredSecret.Reconcile\<close>; the result is always the empty one.\<close>

definition ReconcileCloudCredSecret_Reconcile :: "env \<Rightarrow> NamespacedName \<Rightarrow> (gerror option) io" where
  "ReconcileCloudCredSecret_Reconcile E req =
     bind_go (kGetSecret E req) (\<lambda>r. case r of
       Inl err \<Rightarrow> ret (Some err)
     | Inr secret \<Rightarrow> bind_go (validateCloudCredsSecret E secret) (\<lambda>err. case err of
         Some e \<Rightarrow> ret (Some e)
       | None \<Rightarrow> ret None))"

section \<open>The mode that is recorded\<close>

text \<open>The secret with the annotation set and everything else as it was.\<close>

definition annotated :: "Secret \<Rightarrow> string \<Rightarrow> Secret" where
  "annotated secret value = set_sec_Annotations
     (Some (fmupd AnnotationKey value (case sec_Annotations secret of None \<Rightarrow> fmempty | Some m \<Rightarrow> m))) secret"

lemma annotated_fields [simp]:
  "sec_Data (annotated s v) = sec_Data s" "sec_Key (annotated s v) = sec_Key s"
  "sec_Type (annotated s v) = sec_Type s"
  "map_get (sec_Annotations (annotated s v)) k =
     (if k = AnnotationKey then Some v else map_get (sec_Annotations s) k)"
  by (auto simp: annotated_def set_sec_Annotations_def sec_Key_def split: option.splits)

lemma updateSecretAnnotations_eq: "updateSecretAnnotations E s v = kUpdateSecret E (annotated s v)"
  by (simp add: updateSecretAnnotations_def annotated_def Let_def)

text \<open>The mode the capabilities of the credentials call for.\<close>

definition mode_for :: "bool \<Rightarrow> (string \<Rightarrow> bool) \<Rightarrow> string" where
  "mode_for root permits =
     (if root \<or> list_all permits credMintingActions then MintAnnotation
      else if list_all permits credPassthroughActions then PassthroughAnnotation
      else InsufficientAnnotation)"

definition infrastructure_loads :: "env \<Rightarrow> string \<Rightarrow> bool" where
  "infrastructure_loads E n \<longleftrightarrow> (\<forall>t. \<exists>i. k_get_infrastructure (kube E) t ''cluster'' = Inr i \<and> InfrastructureName i = n)"

lemma Check_actions_value:
  assumes "iam_caller E c u root" "iam_simulates E c u permits"
  shows "fst (CheckPermissionsAgainstActions E c acts t) = Return (Inr (root \<or> list_all permits acts))"
    and "\<forall>ev \<in> set (snd (CheckPermissionsAgainstActions E c acts t)). read_only ev"
proof -
  let ?stmts = "[\<lparr>se_Effect = ''Allow'', se_Action = Some acts, se_Resource = ''*''\<rparr>]"
  obtain results where
    "CheckPermissionsUsingQueryClient E c c ?stmts t =
       (Return (Inr (root \<or> (\<forall>s \<in> set ?stmts. \<forall>a \<in> set (statement_actions s). permits a))),
        EvIam c (GetUser None (Inr (Some u))) #
        (if root then [] else [EvIam c (SimulatePrincipalPolicy (iu_Arn u)
           (concat (map statement_actions ?stmts)) (Inr results))]))"
    by (rule CheckPermissions_value [OF assms])
  then show "fst (CheckPermissionsAgainstActions E c acts t) = Return (Inr (root \<or> list_all permits acts))"
    and "\<forall>ev \<in> set (snd (CheckPermissionsAgainstActions E c acts t)). read_only ev"
    by (simp_all add: check_defs statement_actions_def list_all_iff)
qed

lemma validate_value:
  assumes keys: "map_get (sec_Data s) AwsAccessKeyName = Some a" "map_get (sec_Data s) AwsSecretAccessKeyName = Some k"
    and infra: "infrastructure_loads E n" and client: "NewClient E a k n = Inr c"
    and iam: "iam_caller E c u root" "iam_simulates E c u permits"
  obtains pre where "\<forall>ev \<in> set pre. read_only ev"
    "validateCloudCredsSecret E s t =
       (let s' = annotated s (mode_for root permits); err = k_update_secret (kube E) (t @ pre) s'
        in (Return err, pre @ [EvUpdateSecret s' err]))"
proof -
  from infra obtain i where i: "k_get_infrastructure (kube E) t ''cluster'' = Inr i" "InfrastructureName i = n"
    unfolding infrastructure_loads_def by blast
  define t1 where "t1 = t @ [EvGetInfrastructure ''cluster'' (Inr i)]"
  define e2 where "e2 = snd (CheckPermissionsAgainstActions E c credMintingActions t1)"
  define e3 where "e3 = snd (CheckPermissionsAgainstActions E c credPassthroughActions (t1 @ e2))"
  note check = Check_actions_value [OF iam]
  have mint: "CheckPermissionsAgainstActions E c credMintingActions t1 =
      (Return (Inr (root \<or> list_all permits credMintingActions)), e2)"
    and pass: "CheckPermissionsAgainstActions E c credPassthroughActions (t1 @ e2) =
      (Return (Inr (root \<or> list_all permits credPassthroughActions)), e3)"
    by (simp_all add: prod_eq_iff check(1) e2_def e3_def)
  have ro: "\<forall>ev \<in> set e2. read_only ev" "\<forall>ev \<in> set e3. read_only ev"
    using check(2) by (simp_all add: e2_def e3_def)
  let ?pre = "EvGetInfrastructure ''cluster'' (Inr i) # e2 @
     (if root \<or> list_all permits credMintingActions then [] else e3)"
  have t1': "t @ EvGetInfrastructure ''cluster'' (Inr i) # e = t1 @ e" for e by (simp add: t1_def)
  show ?thesis
  proof (rule that [of ?pre])
    show "\<forall>ev \<in> set ?pre. read_only ev" using ro by auto
    show "validateCloudCredsSecret E s t =
       (let s' = annotated s (mode_for root permits); err = k_update_secret (kube E) (t @ ?pre) s'
        in (Return err, ?pre @ [EvUpdateSecret s' err]))"
      by (cases "root \<or> list_all permits credMintingActions"; cases "list_all permits credPassthroughActions")
        (simp_all add: validateCloudCredsSecret_def keys LoadInfrastructureName_def try_go_def i client
          CheckCloudCredCreation_def CheckCloudCredPassthrough_def prod_eq_iff fst_bind snd_bind
          t1_def [symmetric] mint pass updateSecretAnnotations_eq mode_for_def Let_def t1')
  qed
qed

lemma annotator_run:
  assumes "k_get_secret (kube E) t req = Inr s"
    and "map_get (sec_Data s) AwsAccessKeyName = Some a"
    and "map_get (sec_Data s) AwsSecretAccessKeyName = Some k"
    and "infrastructure_loads E n" and "NewClient E a k n = Inr c"
    and "iam_caller E c u root" and "iam_simulates E c u permits"
  obtains pre where "\<forall>ev \<in> set pre. read_only ev"
    "ReconcileCloudCredSecret_Reconcile E req t = (let s' = annotated s (mode_for root permits);
       err = k_update_secret (kube E) (t @ pre) s' in (Return err, pre @ [EvUpdateSecret s' err]))"
proof -
  let ?t = "t @ [EvGetSecret req (Inr s)]"
  obtain pre where pre: "\<forall>ev \<in> set pre. read_only ev" and
    eq: "validateCloudCredsSecret E s ?t =
       (let s' = annotated s (mode_for root permits); err = k_update_secret (kube E) (?t @ pre) s'
        in (Return err, pre @ [EvUpdateSecret s' err]))"
    by (rule validate_value [OF assms(2-)])
  show thesis
  proof (rule that)
    show "\<forall>ev \<in> set (EvGetSecret req (Inr s) # pre). read_only ev" using pre by simp
    show "ReconcileCloudCredSecret_Reconcile E req t = (let s' = annotated s (mode_for root permits);
        err = k_update_secret (kube E) (t @ EvGetSecret req (Inr s) # pre) s'
        in (Return err, (EvGetSecret req (Inr s) # pre) @ [EvUpdateSecret s' err]))"
      unfolding ReconcileCloudCredSecret_Reconcile_def bind_request_apply assms(1) sum.case
      by (simp add: prod_eq_iff fst_bind snd_bind eq Let_def split: option.splits)
  qed
qed

text \<open>
  C18. The annotator records what the credentials are good for: for a secret holding both keys,
  against an IAM that answers as documented, \<open>Reconcile\<close> makes exactly one write, an update of
  that secret in which the mode annotation is \<open>mint\<close> for the root user or when all minting
  actions are permitted, else \<open>passthrough\<close> when all passthrough actions are, else
  \<open>insufficient\<close>, and in which every other annotation and all data are as they were. It
  succeeds exactly when that update does.
\<close>

theorem annotator_records_mode:
  assumes "k_get_secret (kube E) t req = Inr s"
    and "map_get (sec_Data s) AwsAccessKeyName = Some a"
    and "map_get (sec_Data s) AwsSecretAccessKeyName = Some k"
    and "infrastructure_loads E n" and "NewClient E a k n = Inr c"
    and "iam_caller E c u root" and "iam_simulates E c u permits"
  shows "\<exists>pre s' err. snd (ReconcileCloudCredSecret_Reconcile E req t) = pre @ [EvUpdateSecret s' err] \<and>
    (\<forall>ev \<in> set pre. read_only ev) \<and>
    fst (ReconcileCloudCredSecret_Reconcile E req t) = Return err \<and>
    sec_Key s' = sec_Key s \<and> sec_Data s' = sec_Data s \<and>
    (\<forall>key. map_get (sec_Annotations s') key = (if key = AnnotationKey then Some
       (if root \<or> list_all permits credMintingActions then MintAnnotation
        else if list_all permits credPassthroughActions then PassthroughAnnotation
        else InsufficientAnnotation) else map_get (sec_Annotations s) key))"
proof -
  obtain pre where pre: "\<forall>ev \<in> set pre. read_only ev" and
    eq: "ReconcileCloudCredSecret_Reconcile E req t = (let s' = annotated s (mode_for root permits);
       err = k_update_secret (kube E) (t @ pre) s' in (Return err, pre @ [EvUpdateSecret s' err]))"
    by (rule annotator_run [OF assms])
  let ?s = "annotated s (mode_for root permits)"
  from pre eq show ?thesis
    by (intro exI [of _ pre] exI [of _ ?s] exI [of _ "k_update_secret (kube E) (t @ pre) ?s"])
      (simp add: mode_for_def Let_def)
qed

abbreviation aws_creds_secret :: Secret where
  "aws_creds_secret \<equiv> empty_Secret\<lparr>
     sec_Meta := empty_ObjectMeta\<lparr>om_Name := ''aws-creds'', om_Namespace := ''kube-system''\<rparr>,
     sec_Data := Some (fmupd ''aws_access_key_id'' ''AKROOT'' (fmupd ''aws_secret_access_key'' ''xyz'' fmempty))\<rparr>"

theorem annotator_records_mode_witness:
  "\<exists>pre s' err. snd (ReconcileCloudCredSecret_Reconcile
        (sample_env (sample_kube\<lparr>k_get_secret := \<lambda>t n. Inr aws_creds_secret\<rparr>) sample_iam)
        \<lparr>nn_Namespace = ''kube-system'', nn_Name = ''aws-creds''\<rparr> []) = pre @ [EvUpdateSecret s' err] \<and>
     map_get (sec_Annotations s') AnnotationKey = Some ''mint''"
proof -
  let ?E = "sample_env (sample_kube\<lparr>k_get_secret := \<lambda>t n. Inr aws_creds_secret\<rparr>) sample_iam"
  have "k_get_secret (kube ?E) [] \<lparr>nn_Namespace = ''kube-system'', nn_Name = ''aws-creds''\<rparr> = Inr aws_creds_secret"
    "map_get (sec_Data aws_creds_secret) AwsAccessKeyName = Some ''AKROOT''"
    "map_get (sec_Data aws_creds_secret) AwsSecretAccessKeyName = Some ''xyz''"
    "infrastructure_loads ?E ''infra''"
    "NewClient ?E ''AKROOT'' ''xyz'' ''infra'' =
       Inr \<lparr>cl_AccessKeyID = ''AKROOT'', cl_SecretAccessKey = ''xyz'', cl_InfraName = ''infra''\<rparr>"
    by (simp_all add: sample_defs AwsAccessKeyName_def AwsSecretAccessKeyName_def
        infrastructure_loads_def NewClient_def)
  from annotator_records_mode [OF this sample_iam_caller sample_iam_simulates]
  show ?thesis by (auto simp: MintAnnotation_def)
qed

section \<open>What the annotator touches\<close>

lemma emits_validate:
  assumes "\<And>r. P (EvGetInfrastructure ''cluster'' r)" "\<And>v r. P (EvUpdateSecret (annotated s v) r)"
    and "\<And>c u r. P (EvIam c (GetUser u r))" "\<And>c arn as r. P (EvIam c (SimulatePrincipalPolicy arn as r))"
  shows "emits P (validateCloudCredsSecret E s)"
  unfolding validateCloudCredsSecret_def updateSecretAnnotations_eq LoadInfrastructureName_def check_defs
  by (intro emits_intros assms)

text \<open>
  C36. Whatever IAM and the API server answer, the annotator changes nothing but the mode
  annotation of the secret it was asked about, it makes no mutating IAM call, and it writes no
  credentials request and no operator status.
\<close>

theorem annotator_frame:
  assumes "ev \<in> set (snd (ReconcileCloudCredSecret_Reconcile E req t))" "\<not> read_only ev"
  shows "\<exists>s value err. k_get_secret (kube E) t req = Inr s \<and> ev = EvUpdateSecret (annotated s value) err"
proof (cases "k_get_secret (kube E) t req")
  case (Inl e)
  with assms show ?thesis by (simp add: ReconcileCloudCredSecret_Reconcile_def bind_request_apply)
next
  case (Inr s)
  let ?P = "\<lambda>ev. read_only ev \<or> (\<exists>value err. ev = EvUpdateSecret (annotated s value) err)"
  have "emits ?P (bind_go (validateCloudCredsSecret E s) (\<lambda>err. case err of Some e \<Rightarrow> ret (Some e) | None \<Rightarrow> ret None))"
    by (intro emits_intros emits_validate) auto
  from emitsD [OF this] assms Inr show ?thesis
    unfolding ReconcileCloudCredSecret_Reconcile_def bind_request_apply by fastforce
qed

abbreviation keyless_secret :: Secret where
  "keyless_secret \<equiv> aws_creds_secret\<lparr>sec_Data := None\<rparr>"

abbreviation keyless_env :: env where
  "keyless_env \<equiv> sample_env (sample_kube\<lparr>k_get_secret := \<lambda>t n. Inr keyless_secret\<rparr>) sample_iam"

theorem annotator_frame_witness:
  "\<exists>s value err. k_get_secret (kube keyless_env) [] (sec_Key keyless_secret) = Inr s \<and>
     EvUpdateSecret (annotated keyless_secret InsufficientAnnotation) None = EvUpdateSecret (annotated s value) err"
  by (rule annotator_frame)
    (simp_all add: ReconcileCloudCredSecret_Reconcile_def bind_request_apply snd_bind
      validateCloudCredsSecret_def updateSecretAnnotations_eq sample_defs)

end
