(* ===== verification/ActuatorIface.thy ===== *)
theory ActuatorIface
  imports World AwsClient
begin

text \<open>
  \<open>pkg/controller/credentialsrequest/actuator/actuator.go\<close>: the interface between the
  controller and a cloud. An actuator is a record of its four operations. \<open>Create\<close> and \<open>Update\<close>
  are given a pointer to the request and may write through it, so they return the request
  beside the error; \<open>Exists\<close> and \<open>Delete\<close> leave it alone.

  The locale \<open>actuator_laws\<close> is what the controller relies on, of every implementation and in
  every environment: which calls each operation may make. The implementations interpret it in
  their own theories, the dummy one here.
\<close>

record actuator =
  act_Create :: "CredentialsRequest \<Rightarrow> (CredentialsRequest \<times> gerror option) io"
  act_Delete :: "CredentialsRequest \<Rightarrow> (gerror option) io"
  act_Update :: "CredentialsRequest \<Rightarrow> (CredentialsRequest \<times> gerror option) io"
  act_Exists :: "CredentialsRequest \<Rightarrow> (gerror + bool) io"

text \<open>
  \<open>ActuatorError\<close> is a constructor of \<open>gerror\<close>, \<open>Error()\<close> is \<open>error_text\<close>. A type assertion to
  \<open>ActuatorStatus\<close> succeeds for \<open>ActuatorError\<close> only, and then gives its reason.
\<close>

fun ActuatorStatus_Reason :: "gerror \<Rightarrow> CredentialsRequestConditionType option" where
  "ActuatorStatus_Reason (ActuatorError reason message) = Some reason"
| "ActuatorStatus_Reason _ = None"

definition DummyActuator_Exists :: "CredentialsRequest \<Rightarrow> (gerror + bool) io" where
  "DummyActuator_Exists cr = ret (Inr True)"

definition DummyActuator_Create :: "CredentialsRequest \<Rightarrow> (CredentialsRequest \<times> gerror option) io" where
  "DummyActuator_Create cr = ret (cr, None)"

definition DummyActuator_Update :: "CredentialsRequest \<Rightarrow> (CredentialsRequest \<times> gerror option) io" where
  "DummyActuator_Update cr = ret (cr, None)"

definition DummyActuator_Delete :: "CredentialsRequest \<Rightarrow> (gerror option) io" where
  "DummyActuator_Delete cr = ret None"

definition DummyActuator :: actuator where
  "DummyActuator = \<lparr>act_Create = DummyActuator_Create, act_Delete = DummyActuator_Delete,
     act_Update = DummyActuator_Update, act_Exists = DummyActuator_Exists\<rparr>"

section \<open>The contract\<close>

text \<open>
  The calls an actuator may make: reads, IAM calls, status updates of requests, and creations or
  updates of secrets. Deleting credentials writes nothing in the cluster.
\<close>

definition provision_event :: "event \<Rightarrow> bool" where
  "provision_event ev \<longleftrightarrow> (case ev of
      EvUpdateCR _ _ \<Rightarrow> False | EvDeleteSecret _ _ \<Rightarrow> False
    | EvCreateCO _ _ \<Rightarrow> False | EvUpdateCOStatus _ _ \<Rightarrow> False | _ \<Rightarrow> True)"

definition deprovision_event :: "event \<Rightarrow> bool" where
  "deprovision_event ev \<longleftrightarrow> (case ev of EvIam _ _ \<Rightarrow> True | _ \<Rightarrow> read_only ev)"

text \<open>A secret that is written is the target of the request and names the request.\<close>

definition for_request :: "CredentialsRequest \<Rightarrow> Secret \<Rightarrow> bool" where
  "for_request cr s \<longleftrightarrow> sec_Key s = target_key cr \<and>
     map_get (sec_Annotations s) AnnotationCredentialsRequest = Some (cr_ref cr)"

definition on_target :: "CredentialsRequest \<Rightarrow> event \<Rightarrow> bool" where
  "on_target cr ev \<longleftrightarrow> (case ev of
      EvCreateSecret s _ \<Rightarrow> for_request cr s | EvUpdateSecret s _ \<Rightarrow> for_request cr s | _ \<Rightarrow> True)"

text \<open>The same request, up to its status.\<close>

definition same_request :: "CredentialsRequest \<Rightarrow> CredentialsRequest \<Rightarrow> bool" where
  "same_request cr cr' \<longleftrightarrow>
     cr_Spec cr' = cr_Spec cr \<and> cr_Name cr' = cr_Name cr \<and> cr_Namespace cr' = cr_Namespace cr"

lemma same_request_refl [simp]: "same_request cr cr"
  by (simp add: same_request_def)

lemma same_request_trans: "same_request a b \<Longrightarrow> same_request b c \<Longrightarrow> same_request a c"
  by (simp add: same_request_def)

lemma same_request_key: "same_request cr cr' \<Longrightarrow> target_key cr' = target_key cr \<and> cr_ref cr' = cr_ref cr"
  by (simp add: same_request_def target_key_def cr_ref_def)

lemma on_target_same: "same_request cr cr' \<Longrightarrow> on_target cr' ev \<longleftrightarrow> on_target cr ev"
  by (auto simp: on_target_def for_request_def same_request_key split: event.splits)

text \<open>
  What the API documents of the calls an actuator makes: a read returns the object it was
  asked for, and a status update returns the request it was given, with another status and
  other server-side metadata.
\<close>

definition api_faithful :: "env \<Rightarrow> bool" where
  "api_faithful E \<longleftrightarrow>
     (\<forall>t n s. k_get_secret (kube E) t n = Inr s \<longrightarrow> sec_Key s = n) \<and>
     (\<forall>t cr cr'. k_update_cr_status (kube E) t cr = Inr cr' \<longrightarrow> same_request cr cr')"

locale actuator_laws =
  fixes E :: env and A :: actuator
  assumes exists_reads: "emits read_only (act_Exists A cr)"
    and create_calls: "emits provision_event (act_Create A cr)"
    and update_calls: "emits provision_event (act_Update A cr)"
    and delete_calls: "emits deprovision_event (act_Delete A cr)"
    and create_target: "api_faithful E \<Longrightarrow> emits (on_target cr) (act_Create A cr)"
    and update_target: "api_faithful E \<Longrightarrow> emits (on_target cr) (act_Update A cr)"
    and create_same: "api_faithful E \<Longrightarrow> yields (act_Create A cr) (\<lambda>r. same_request cr (fst r))"
    and update_same: "api_faithful E \<Longrightarrow> yields (act_Update A cr) (\<lambda>r. same_request cr (fst r))"
begin

text \<open>No operation changes the request itself or the operator's status.\<close>

lemma exists_provision: "emits provision_event (act_Exists A cr)"
  by (rule emits_mono [OF exists_reads]) (auto simp: provision_event_def split: event.splits)

lemma delete_provision: "emits provision_event (act_Delete A cr)"
  by (rule emits_mono [OF delete_calls])
    (auto simp: provision_event_def deprovision_event_def split: event.splits)

end

interpretation dummy: actuator_laws E DummyActuator for E
  by unfold_locales
    (simp_all add: DummyActuator_def DummyActuator_Exists_def DummyActuator_Create_def
      DummyActuator_Update_def DummyActuator_Delete_def yields_ret)

end
