(* ===== verification/AwsPolicy.thy ===== *)
theory AwsPolicy
  imports World
begin

text \<open>
  The parts of \<open>pkg/aws/actuator/actuator.go\<close> that compute: the policy document that is
  attached to a minted user and its JSON text, the comparison of the stored document with the
  desired one, the generated user name, and the texts of AWS errors.

  \<open>json.Marshal\<close> of the document cannot fail and is written out for the two struct types.
\<close>

section \<open>Policy documents\<close>

record PolicyStatement =
  ps_Effect :: string
  ps_Action :: "string list option"
  ps_Resource :: string

record PolicyDocument =
  pd_Version :: string
  pd_Statement :: "PolicyStatement list"

definition json_field :: "string \<Rightarrow> string \<Rightarrow> string" where
  "json_field name value = json_string name @ '':'' @ value"

definition json_statement :: "PolicyStatement \<Rightarrow> string" where
  "json_statement st = ''{'' @ json_field ''Effect'' (json_string (ps_Effect st)) @ '','' @
     json_field ''Action'' (json_string_array (ps_Action st)) @ '','' @
     json_field ''Resource'' (json_string (ps_Resource st)) @ ''}''"

definition json_Marshal :: "PolicyDocument \<Rightarrow> string" where
  "json_Marshal doc = ''{'' @ json_field ''Version'' (json_string (pd_Version doc)) @ '','' @
     json_field ''Statement'' (''['' @ join_with (CHR '','') (map json_statement (pd_Statement doc)) @ '']'') @ ''}''"

definition addGetUserStatement :: "PolicyDocument \<Rightarrow> string \<Rightarrow> PolicyDocument" where
  "addGetUserStatement policyDoc userARN = policyDoc\<lparr>pd_Statement := pd_Statement policyDoc @
     [\<lparr>ps_Effect = ''Allow'', ps_Action = Some [''iam:GetUser''], ps_Resource = userARN\<rparr>]\<rparr>"

definition policy_statement :: "StatementEntry \<Rightarrow> PolicyStatement" where
  "policy_statement se = \<lparr>ps_Effect = se_Effect se, ps_Action = se_Action se, ps_Resource = se_Resource se\<rparr>"

definition desired_document :: "StatementEntry list \<Rightarrow> string \<Rightarrow> PolicyDocument" where
  "desired_document entries userARN = addGetUserStatement
     \<lparr>pd_Version = ''2012-10-17'', pd_Statement = map policy_statement entries\<rparr> userARN"

definition getDesiredUserPolicy :: "StatementEntry list \<Rightarrow> string \<Rightarrow> string" where
  "getDesiredUserPolicy entries userARN = json_Marshal (desired_document entries userARN)"

section \<open>Names\<close>

definition generateUserName :: "env \<Rightarrow> string \<Rightarrow> string \<Rightarrow> (gerror + string) io" where
  "generateUserName E infraName credentialName =
     (if credentialName = [] then ret (Inl (PlainError ''empty credential name''))
      else
        let infraPrefix = (if infraName \<noteq> []
              then (if length infraName > 20 then take 20 infraName else infraName) @ ''-'' else []);
            credentialName' = (if length credentialName > 37 then take 37 credentialName else credentialName)
        in bind_go (utilrand_String E 5) (\<lambda>suffix.
             ret (Inr (infraPrefix @ credentialName' @ ''-'' @ suffix))))"

definition getPolicyName :: "string \<Rightarrow> string" where
  "getPolicyName userName = userName @ ''-policy''"

section \<open>AWS errors\<close>

definition ErrCodeLimitExceededException :: string where
  "ErrCodeLimitExceededException = ''LimitExceeded''"
definition ErrCodeEntityAlreadyExistsException :: string where
  "ErrCodeEntityAlreadyExistsException = ''EntityAlreadyExists''"
definition ErrCodeNoSuchEntityException :: string where
  "ErrCodeNoSuchEntityException = ''NoSuchEntity''"
definition ErrCodeServiceFailureException :: string where
  "ErrCodeServiceFailureException = ''ServiceFailure''"

definition formatAWSErr :: "string \<Rightarrow> string \<Rightarrow> gerror" where
  "formatAWSErr code text =
     (if code = ErrCodeLimitExceededException
      then PlainError (''AWS Error: '' @ ErrCodeLimitExceededException @ '' - '' @ text)
      else if code = ErrCodeEntityAlreadyExistsException
      then PlainError (''AWS Error: '' @ ErrCodeEntityAlreadyExistsException @ '' - '' @ text)
      else if code = ErrCodeNoSuchEntityException
      then PlainError (''AWS Error: '' @ ErrCodeNoSuchEntityException @ '' - '' @ text)
      else if code = ErrCodeServiceFailureException
      then PlainError (''AWS Error: '' @ ErrCodeServiceFailureException @ '' - '' @ text)
      else PlainError (''AWS Error: '' @ text))"

section \<open>The document determines the statements\<close>

definition ascii_statement :: "PolicyStatement \<Rightarrow> bool" where
  "ascii_statement st \<longleftrightarrow> ascii (ps_Effect st) \<and> pred_option (list_all ascii) (ps_Action st) \<and> ascii (ps_Resource st)"

lemma json_statement_inj:
  assumes "ascii_statement st" "ascii_statement st'"
    and eq: "json_statement st @ r = json_statement st' @ r'"
  shows "st = st' \<and> r = r'"
proof -
  note a = assms(1,2) [unfolded ascii_statement_def]
  have "json_string (ps_Effect st) @ '','' @ json_field ''Action'' (json_string_array (ps_Action st)) @ '','' @
      json_field ''Resource'' (json_string (ps_Resource st)) @ ''}'' @ r =
    json_string (ps_Effect st') @ '','' @ json_field ''Action'' (json_string_array (ps_Action st')) @ '','' @
      json_field ''Resource'' (json_string (ps_Resource st')) @ ''}'' @ r'"
    using eq by (simp add: json_statement_def json_field_def)
  from json_string_inj [OF _ _ this] a have eff: "ps_Effect st = ps_Effect st'"
    and "json_string_array (ps_Action st) @ '','' @ json_field ''Resource'' (json_string (ps_Resource st)) @ ''}'' @ r =
      json_string_array (ps_Action st') @ '','' @ json_field ''Resource'' (json_string (ps_Resource st')) @ ''}'' @ r'"
    by (simp_all add: json_field_def)
  from json_string_array_inj [OF _ _ this(2)] a have act: "ps_Action st = ps_Action st'"
    and "json_string (ps_Resource st) @ ''}'' @ r = json_string (ps_Resource st') @ ''}'' @ r'"
    by (simp_all add: json_field_def)
  from json_string_inj [OF _ _ this(2)] a have "ps_Resource st = ps_Resource st'" "r = r'" by simp_all
  with eff act show ?thesis by simp
qed

lemma join_with_Cons: "join_with sep (x # xs) = x @ concat (map (\<lambda>y. sep # y) xs)"
  by (induction xs arbitrary: x) auto

lemma json_rest_statements_inj:
  assumes "list_all ascii_statement xs" "list_all ascii_statement ys"
    and "concat (map (\<lambda>y. CHR '','' # json_statement y) xs) @ CHR '']'' # r =
      concat (map (\<lambda>y. CHR '','' # json_statement y) ys) @ CHR '']'' # r'"
  shows "xs = ys"
  using assms
proof (induction xs arbitrary: ys)
  case Nil
  then show ?case by (cases ys) auto
next
  case (Cons x xs)
  then obtain y us where ys: "ys = y # us" by (cases ys) auto
  with Cons.prems have "json_statement x @ (concat (map (\<lambda>y. CHR '','' # json_statement y) xs) @ CHR '']'' # r) =
      json_statement y @ (concat (map (\<lambda>y. CHR '','' # json_statement y) us) @ CHR '']'' # r')" by simp
  from json_statement_inj [OF _ _ this] Cons.prems(1,2) ys
  have "x = y" "concat (map (\<lambda>y. CHR '','' # json_statement y) xs) @ CHR '']'' # r =
      concat (map (\<lambda>y. CHR '','' # json_statement y) us) @ CHR '']'' # r'"
    by simp_all
  with Cons ys show ?case by simp
qed

lemma json_statements_inj:
  assumes "list_all ascii_statement xs" "list_all ascii_statement ys" "xs \<noteq> []" "ys \<noteq> []"
    and eq: "join_with (CHR '','') (map json_statement xs) @ CHR '']'' # r =
      join_with (CHR '','') (map json_statement ys) @ CHR '']'' # r'"
  shows "xs = ys"
proof -
  obtain x us y vs where Cons: "xs = x # us" "ys = y # vs"
    using assms(3,4) by (meson neq_Nil_conv)
  have "concat (map (\<lambda>y. CHR '','' # json_statement y) (x # us)) @ CHR '']'' # r =
      concat (map (\<lambda>y. CHR '','' # json_statement y) (y # vs)) @ CHR '']'' # r'"
    using eq Cons by (simp add: join_with_Cons comp_def)
  with json_rest_statements_inj [of "x # us" "y # vs"] assms(1,2) Cons show ?thesis by simp
qed

lemma desired_document_statements:
  "pd_Statement (desired_document entries arn) = map policy_statement entries @
     [\<lparr>ps_Effect = ''Allow'', ps_Action = Some [''iam:GetUser''], ps_Resource = arn\<rparr>]"
  by (simp add: desired_document_def addGetUserStatement_def)

lemma getDesiredUserPolicy_inj:
  assumes "list_all ascii_statement (map policy_statement es)" "ascii arn"
    and "list_all ascii_statement (map policy_statement es')" "ascii arn'"
    and eq: "getDesiredUserPolicy es arn = getDesiredUserPolicy es' arn'"
  shows "es = es' \<and> arn = arn'"
proof -
  have "pd_Statement (desired_document es arn) = pd_Statement (desired_document es' arn')"
    by (rule json_statements_inj [of _ _ "''}''" "''}''"])
      (use assms in \<open>simp_all add: desired_document_statements ascii_statement_def
        getDesiredUserPolicy_def json_Marshal_def json_field_def desired_document_def addGetUserStatement_def
        list_all_iff ascii_def\<close>)
  then have "map policy_statement es = map policy_statement es'" "arn = arn'"
    by (simp_all add: desired_document_statements)
  moreover have "inj policy_statement"
    by (rule injI) (simp add: policy_statement_def)
  ultimately show ?thesis by (simp add: inj_map_eq_map)
qed

text \<open>
  C32. The policy text determines the policy: two requests whose (ASCII) statements or user ARNs
  differ have different desired policy documents, so comparing texts, as the actuator does,
  never misses a change of the request.
\<close>

theorem desired_policy_injective:
  assumes "list_all ascii_statement (map policy_statement es)" "ascii arn"
    and "list_all ascii_statement (map policy_statement es')" "ascii arn'"
  shows "getDesiredUserPolicy es arn = getDesiredUserPolicy es' arn' \<longleftrightarrow> es = es' \<and> arn = arn'"
  using getDesiredUserPolicy_inj [OF assms] by blast

abbreviation sample_entry :: "string list \<Rightarrow> StatementEntry" where
  "sample_entry acts \<equiv> \<lparr>se_Effect = ''Allow'', se_Action = Some acts, se_Resource = ''*''\<rparr>"

theorem desired_policy_injective_witness:
  "getDesiredUserPolicy [sample_entry [''s3:GetObject'', ''s3:PutObject'']] ''arn:a'' \<noteq>
   getDesiredUserPolicy [sample_entry [''s3:GetObject''], sample_entry [''s3:PutObject'']] ''arn:a''"
  by (subst desired_policy_injective) (simp_all add: ascii_statement_def policy_statement_def ascii_def)

text \<open>
  C33. Generated user names fit the limits of IAM: a name is the infrastructure name cut to 20
  bytes and a dash (both left out when it is empty), the request's name cut to 37 bytes, a dash
  and five random letters, at most 64 bytes in all, and the policy name made from it has at
  most 128; only an empty request name is refused; and generation ends whenever each value of
  the random source holds at least one usable letter.
\<close>

theorem generate_user_name_bounds:
  "(\<forall>u. fst (generateUserName E infraName name t) = Return (Inr u) \<longrightarrow>
      length u \<le> 64 \<and> length (getPolicyName u) \<le> 128 \<and>
      (\<exists>suffix. length suffix = 5 \<and>
         u = (if infraName = [] then [] else take 20 infraName @ ''-'') @ take 37 name @ ''-'' @ suffix)) \<and>
   (\<forall>e. fst (generateUserName E infraName name t) = Return (Inl e) \<longrightarrow> name = []) \<and>
   ((\<forall>t k. usable (h_int63 (proc E) t k) 12) \<longrightarrow> (\<exists>r. fst (generateUserName E infraName name t) = Return r))"
proof (intro conjI allI impI)
  fix u
  assume u: "fst (generateUserName E infraName name t) = Return (Inr u)"
  then obtain suffix where suffix: "fst (utilrand_String E 5 t) = Return suffix"
    and eq: "u = (if infraName = [] then [] else take 20 infraName @ ''-'') @ take 37 name @ ''-'' @ suffix"
    by (auto simp: generateUserName_def fst_bind Let_def split: if_splits outcome.splits)
  from suffix have "length suffix = 5" by (rule utilrand_String_length)
  then show "length u \<le> 64" "length (getPolicyName u) \<le> 128"
    by (auto simp: eq getPolicyName_def min_def)
  show "\<exists>suffix. length suffix = 5 \<and>
     u = (if infraName = [] then [] else take 20 infraName @ ''-'') @ take 37 name @ ''-'' @ suffix"
    using eq \<open>length suffix = 5\<close> by blast
next
  fix e
  assume "fst (generateUserName E infraName name t) = Return (Inl e)"
  then show "name = []"
    by (auto simp: generateUserName_def fst_bind Let_def split: if_splits outcome.splits)
next
  assume "\<forall>t k. usable (h_int63 (proc E) t k) 12"
  then have "\<exists>s. rand_String (h_int63 (proc E) t) 5 = Some s" by (intro rand_String_returns) blast
  then show "\<exists>r. fst (generateUserName E infraName name t) = Return r"
    by (auto simp: generateUserName_def utilrand_String_def fst_bind Let_def)
qed

theorem generate_user_name_bounds_witness:
  "\<exists>r. fst (generateUserName (sample_env sample_kube sample_iam) ''infra'' ''registry'' []) = Return r"
proof -
  have "\<forall>t k. usable (h_int63 (proc (sample_env sample_kube sample_iam)) t k) 12"
    by (auto simp: sample_env_def sample_host_def usable_def alphanumsIdx_def intro: exI [of _ 0])
  then show ?thesis
    using generate_user_name_bounds [of "sample_env sample_kube sample_iam" "''infra''" "''registry''" "[]"]
    by blast
qed

end
