(* ===== verification/AwsActuator.thy ===== *)
theory AwsActuator
  imports ActuatorIface AwsPolicy CloudUtils SecretAnnotator
begin

text \<open>
  \<open>pkg/aws/actuator/actuator.go\<close>: provisioning and removing credentials in AWS. Every operation
  is modelled with all of its calls, early returns and unchecked dereferences, in the order of
  the code; logging is left out. A client that could not be built (\<open>nil\<close>) is \<open>None\<close>.

  \<open>syncMint\<close> is split at its comments into the steps \<open>mint_status\<close> (pick and record names),
  \<open>mint_user\<close>, \<open>mint_tags\<close>, \<open>mint_policy\<close> and \<open>mint_key\<close>, put together in \<open>mint_steps\<close> and \<open>mint_rest\<close>.
\<close>

definition rootAWSCredsSecretNamespace :: string where "rootAWSCredsSecretNamespace = ''kube-system''"
definition rootAWSCredsSecret :: string where "rootAWSCredsSecret = ''aws-creds''"
definition roAWSCredsSecretNamespace :: string where
  "roAWSCredsSecretNamespace = ''openshift-cloud-credential-operator''"
definition roAWSCredsSecret :: string where "roAWSCredsSecret = ''cloud-credential-operator-iam-ro-creds''"
definition openshiftClusterIDKey :: string where "openshiftClusterIDKey = ''openshiftClusterID''"
definition clusterVersionObjectName :: string where "clusterVersionObjectName = ''version''"

section \<open>Specs and statuses of a request\<close>

definition aws_DecodeProviderStatus :: "env \<Rightarrow> CredentialsRequest \<Rightarrow> gerror + AWSProviderStatus" where
  "aws_DecodeProviderStatus E cr =
     (case ProviderStatus (cr_Status cr) of
        None \<Rightarrow> Inr empty_AWSProviderStatus
      | Some raw \<Rightarrow>
          (case DecodeProviderStatus (decode_AWSProviderStatus (codec E)) (Some raw) empty_AWSProviderStatus of
             Inl err \<Rightarrow> Inl (PlainError (''error decoding v1 provider status: '' @ error_text err))
           | Inr awsStatus \<Rightarrow> Inr awsStatus))"

definition aws_DecodeProviderSpec :: "env \<Rightarrow> CredentialsRequest \<Rightarrow> (gerror + AWSProviderSpec) io" where
  "aws_DecodeProviderSpec E cr =
     (case ProviderSpec (cr_Spec cr) of
        Some raw \<Rightarrow>
          bind_go (DecodeProviderSpec (decode_AWSProviderSpec (codec E)) (Some raw)) (\<lambda>r. case r of
            Inl err \<Rightarrow> ret (Inl (PlainError (''error decoding provider v1 spec: '' @ error_text err)))
          | Inr awsSpec \<Rightarrow> ret (Inr awsSpec))
      | None \<Rightarrow> ret (Inl (PlainError ''no providerSpec defined'')))"

text \<open>
  \<open>updateProviderStatus\<close> writes through the pointer: the request it returns is what the pointer
  holds afterwards. An encoding error leaves the provider status \<open>nil\<close>; a successful update
  leaves what the API server answered.
\<close>

definition updateProviderStatus ::
    "env \<Rightarrow> CredentialsRequest \<Rightarrow> AWSProviderStatus \<Rightarrow> (CredentialsRequest \<times> gerror option) io" where
  "updateProviderStatus E cr awsStatus =
     (case EncodeProviderStatus (encode_AWSProviderStatus (codec E)) awsStatus of
        Inl err \<Rightarrow> ret (cr\<lparr>cr_Status := (cr_Status cr)\<lparr>ProviderStatus := None\<rparr>\<rparr>, Some err)
      | Inr raw \<Rightarrow>
          let st = (cr_Status cr)\<lparr>ProviderStatus := Some raw\<rparr>;
              st = (if Conditions st = None then st\<lparr>Conditions := Some []\<rparr> else st);
              cr = cr\<lparr>cr_Status := st\<rparr>
          in bind_go (kUpdateCRStatus E cr) (\<lambda>r. case r of
               Inl err \<Rightarrow> ret (cr, Some err)
             | Inr cr' \<Rightarrow> ret (cr', None)))"

section \<open>Secrets\<close>

definition Exists :: "env \<Rightarrow> CredentialsRequest \<Rightarrow> (gerror + bool) io" where
  "Exists E cr =
     (case aws_DecodeProviderStatus E cr of
        Inl err \<Rightarrow> ret (Inl err)
      | Inr awsStatus \<Rightarrow>
          if User awsStatus = [] then ret (Inr False)
          else bind_go (kGetSecret E (target_key cr)) (\<lambda>r. case r of
                 Inl err \<Rightarrow> if IsNotFound err then ret (Inr False) else ret (Inl err)
               | Inr existingSecret \<Rightarrow> ret (Inr True)))"

text \<open>\<open>loadExistingSecret\<close>: on any error of the read the secret is the zero one, with an empty name.\<close>

definition loadExistingSecret :: "env \<Rightarrow> CredentialsRequest \<Rightarrow> (Secret \<times> string \<times> string) io" where
  "loadExistingSecret E cr =
     bind_go (kGetSecret E (target_key cr)) (\<lambda>r. case r of
       Inl err \<Rightarrow> ret (empty_Secret, [], [])
     | Inr existingSecret \<Rightarrow> ret (existingSecret,
         map_get_str (sec_Data existingSecret) ''aws_access_key_id'',
         map_get_str (sec_Data existingSecret) ''aws_secret_access_key''))"

definition new_target_secret :: "CredentialsRequest \<Rightarrow> string \<Rightarrow> string \<Rightarrow> string \<Rightarrow> Secret" where
  "new_target_secret cr accessKeyID secretAccessKey userPolicy = empty_Secret\<lparr>
     sec_Meta := empty_ObjectMeta\<lparr>
       om_Name := or_Name (SecretRef (cr_Spec cr)), om_Namespace := or_Namespace (SecretRef (cr_Spec cr)),
       om_Annotations := Some (fmupd AnnotationAWSPolicyLastApplied userPolicy
                              (fmupd AnnotationCredentialsRequest (cr_ref cr) fmempty))\<rparr>,
     sec_Data := Some (fmupd ''aws_secret_access_key'' secretAccessKey
                      (fmupd ''aws_access_key_id'' accessKeyID fmempty))\<rparr>"

text \<open>Writing the two keys to the data map; a \<open>nil\<close> map panics.\<close>

definition set_key_data :: "Secret \<Rightarrow> string \<Rightarrow> string \<Rightarrow> Secret io" where
  "set_key_data secret accessKeyID secretAccessKey =
     (case sec_Data secret of
        None \<Rightarrow> halt (Panicked ''assignment to entry in nil map'')
      | Some m \<Rightarrow> ret (secret\<lparr>sec_Data := Some (fmupd ''aws_secret_access_key'' secretAccessKey
                                           (fmupd ''aws_access_key_id'' accessKeyID m))\<rparr>))"

definition syncAccessKeySecret ::
    "env \<Rightarrow> CredentialsRequest \<Rightarrow> string \<Rightarrow> string \<Rightarrow> Secret \<Rightarrow> string \<Rightarrow> (gerror option) io" where
  "syncAccessKeySecret E cr accessKeyID secretAccessKey existingSecret userPolicy =
     (if sec_Name existingSecret = [] then
        (if accessKeyID = [] \<or> secretAccessKey = []
         then ret (Some (ActuatorError CredentialsProvisionFailure
                ''new access key secret needed but no key data provided''))
         else kCreateSecret E (new_target_secret cr accessKeyID secretAccessKey userPolicy))
      else
        let origSecret = existingSecret;
            annotations = (case sec_Annotations existingSecret of None \<Rightarrow> fmempty | Some m \<Rightarrow> m);
            existingSecret = set_sec_Annotations (Some (fmupd AnnotationAWSPolicyLastApplied userPolicy
                               (fmupd AnnotationCredentialsRequest (cr_ref cr) annotations))) existingSecret
        in bind_go (if accessKeyID \<noteq> [] \<and> secretAccessKey \<noteq> []
                    then set_key_data existingSecret accessKeyID secretAccessKey
                    else ret existingSecret) (\<lambda>existingSecret.
           if existingSecret \<noteq> origSecret
           then bind_go (kUpdateSecret E existingSecret) (\<lambda>err. case err of
                  Some e \<Rightarrow> ret (Some (ActuatorError CredentialsProvisionFailure ''error updating secret''))
                | None \<Rightarrow> ret None)
           else ret None))"

definition isSecretAnnotated :: "Secret \<Rightarrow> bool" where
  "isSecretAnnotated secret =
     (if sec_Annotations secret = None then False
      else case map_get (sec_Annotations secret) AnnotationKey of None \<Rightarrow> False | Some _ \<Rightarrow> True)"

definition root_creds_key :: NamespacedName where
  "root_creds_key = \<lparr>nn_Namespace = rootAWSCredsSecretNamespace, nn_Name = rootAWSCredsSecret\<rparr>"

definition getCloudCredentialsSecret :: "env \<Rightarrow> (gerror + Secret) io" where
  "getCloudCredentialsSecret E =
     bind_go (kGetSecret E root_creds_key) (\<lambda>r. case r of
       Inl err \<Rightarrow> ret (Inl (ActuatorError CredentialsProvisionFailure
                    (''unable to fetch root cloud cred secret: '' @ error_text err)))
     | Inr cloudCredSecret \<Rightarrow>
         if \<not> isSecretAnnotated cloudCredSecret
         then ret (Inl (ActuatorError CredentialsProvisionFailure
                ''cannot proceed without cloud cred secret annotation''))
         else ret (Inr cloudCredSecret))"

section \<open>Clients\<close>

definition buildRootAWSClient :: "env \<Rightarrow> string \<Rightarrow> (gerror + awsClient) io" where
  "buildRootAWSClient E infraName =
     try_go (LoadCredsFromSecret E rootAWSCredsSecretNamespace rootAWSCredsSecret)
       (\<lambda>(accessKeyID, secretAccessKey). ret (NewClient E accessKeyID secretAccessKey infraName))"

text \<open>
  The second half of \<open>buildReadAWSClient\<close>: build the client, try it, and fall back to the root
  client when its keys are not live yet.
\<close>

definition probeReadAWSClient :: "env \<Rightarrow> CredentialsRequest \<Rightarrow> string \<Rightarrow> string \<Rightarrow> string \<Rightarrow> (gerror + awsClient) io" where
  "probeReadAWSClient E cr infraName accessKeyID secretAccessKey =
     (case NewClient E accessKeyID secretAccessKey infraName of
        Inl err \<Rightarrow> ret (Inl err)
      | Inr client \<Rightarrow>
     (case aws_DecodeProviderStatus E cr of
        Inl err \<Rightarrow> ret (Inl err)
      | Inr awsStatus \<Rightarrow>
     bind_go (awsClient_GetUser E client (Some (User awsStatus))) (\<lambda>r. case r of
        Inl (AwsError code text) \<Rightarrow>
          if code = ''InvalidClientTokenId'' then buildRootAWSClient E infraName else ret (Inr client)
      | _ \<Rightarrow> ret (Inr client))))"

definition buildReadAWSClient :: "env \<Rightarrow> CredentialsRequest \<Rightarrow> string \<Rightarrow> (gerror + awsClient) io" where
  "buildReadAWSClient E cr infraName =
     (if or_Name (SecretRef (cr_Spec cr)) = roAWSCredsSecret \<and>
         or_Namespace (SecretRef (cr_Spec cr)) = roAWSCredsSecretNamespace
      then try_go (LoadCredsFromSecret E rootAWSCredsSecretNamespace rootAWSCredsSecret)
             (\<lambda>(accessKeyID, secretAccessKey). probeReadAWSClient E cr infraName accessKeyID secretAccessKey)
      else bind_go (LoadCredsFromSecret E roAWSCredsSecretNamespace roAWSCredsSecret) (\<lambda>r. case r of
             Inl err \<Rightarrow> if IsNotFound err then buildRootAWSClient E infraName
                        else probeReadAWSClient E cr infraName [] []
           | Inr (accessKeyID, secretAccessKey) \<Rightarrow>
               probeReadAWSClient E cr infraName accessKeyID secretAccessKey))"

definition loadClusterUUID :: "env \<Rightarrow> (gerror + string) io" where
  "loadClusterUUID E = kGetClusterVersion E clusterVersionObjectName"

section \<open>Users, tags, policies and keys\<close>

fun userHasTag_loop :: "iam_Tag list \<Rightarrow> string \<Rightarrow> string \<Rightarrow> bool io" where
  "userHasTag_loop [] key val = ret False"
| "userHasTag_loop (t # ts) key val =
     bind_go (deref (tag_Key t)) (\<lambda>k.
       if k = key
       then bind_go (deref (tag_Value t)) (\<lambda>v. if v = val then ret True else userHasTag_loop ts key val)
       else userHasTag_loop ts key val)"

definition userHasTag :: "iam_User \<Rightarrow> string \<Rightarrow> string \<Rightarrow> bool io" where
  "userHasTag user key val = userHasTag_loop (iu_Tags user) key val"

definition cluster_tag :: "string \<Rightarrow> string" where
  "cluster_tag infraName = ''kubernetes.io/cluster/'' @ infraName"

definition userHasExpectedTags :: "iam_User option \<Rightarrow> string \<Rightarrow> string \<Rightarrow> bool io" where
  "userHasExpectedTags user infraName clusterUUID =
     (case user of
        None \<Rightarrow> ret False
      | Some u \<Rightarrow> if infraName \<noteq> [] then userHasTag u (cluster_tag infraName) ''owned''
                  else userHasTag u openshiftClusterIDKey clusterUUID)"

definition expected_tags :: "string \<Rightarrow> string \<Rightarrow> iam_Tag list" where
  "expected_tags infraName clusterUUID =
     (if infraName \<noteq> [] then [\<lparr>tag_Key = Some (cluster_tag infraName), tag_Value = Some ''owned''\<rparr>]
      else [\<lparr>tag_Key = Some openshiftClusterIDKey, tag_Value = Some clusterUUID\<rparr>])"

definition tagUser :: "env \<Rightarrow> awsClient \<Rightarrow> string \<Rightarrow> string \<Rightarrow> string \<Rightarrow> (gerror option) io" where
  "tagUser E c username infraName clusterUUID =
     awsClient_TagUser E c username (expected_tags infraName clusterUUID)"

text \<open>\<open>createUser\<close>; \<open>Inr None\<close> is the \<open>nil\<close> output it returns for a user that already exists.\<close>

definition createUser :: "env \<Rightarrow> awsClient \<Rightarrow> string \<Rightarrow> (gerror + iam_User option option) io" where
  "createUser E c username =
     bind_go (awsClient_CreateUser E c username) (\<lambda>r. case r of
       Inl (AwsError code text) \<Rightarrow>
         if code = ErrCodeEntityAlreadyExistsException then ret (Inr None)
         else ret (Inl (formatAWSErr code text))
     | Inl err \<Rightarrow> ret (Inl (PlainError (''unknown error creating user in AWS: '' @ error_text err)))
     | Inr userOut \<Rightarrow> ret (Inr (Some userOut)))"

definition getCurrentUserPolicy :: "env \<Rightarrow> awsClient \<Rightarrow> string \<Rightarrow> string \<Rightarrow> (gerror + string) io" where
  "getCurrentUserPolicy E c userName policyName =
     bind_go (awsClient_GetUserPolicy E c userName policyName) (\<lambda>r. case r of
       Inl (AwsError code text) \<Rightarrow>
         if code = ErrCodeNoSuchEntityException then ret (Inr [])
         else ret (Inl (formatAWSErr code text))
     | Inl err \<Rightarrow> ret (Inl err)
     | Inr doc \<Rightarrow> bind_go (deref doc) (\<lambda>urlEncoded. case QueryUnescape urlEncoded of
         Inl s \<Rightarrow> ret (Inl (EscapeError s))
       | Inr currentUserPolicy \<Rightarrow> ret (Inr currentUserPolicy)))"

definition awsPolicyEqualsDesiredPolicy ::
    "env \<Rightarrow> string \<Rightarrow> AWSProviderStatus \<Rightarrow> awsClient \<Rightarrow> (gerror + bool) io" where
  "awsPolicyEqualsDesiredPolicy E desiredUserPolicy awsStatus readAWSClient =
     try_go (getCurrentUserPolicy E readAWSClient (User awsStatus) (Policy awsStatus)) (\<lambda>currentUserPolicy.
       if currentUserPolicy \<noteq> desiredUserPolicy then ret (Inr False) else ret (Inr True))"

definition setUserPolicy :: "env \<Rightarrow> awsClient \<Rightarrow> string \<Rightarrow> string \<Rightarrow> string \<Rightarrow> (gerror option) io" where
  "setUserPolicy E c userName policyName userPolicy =
     bind_go (awsClient_PutUserPolicy E c userName policyName userPolicy) (\<lambda>err. case err of
       None \<Rightarrow> ret None
     | Some (AwsError code text) \<Rightarrow> ret (Some (formatAWSErr code text))
     | Some e \<Rightarrow> ret (Some (PlainError (''unknown error setting user policy in AWS: '' @ error_text e))))"

fun accessKeyExists_loop :: "string option list \<Rightarrow> string \<Rightarrow> bool io" where
  "accessKeyExists_loop [] existingAccessKey = ret False"
| "accessKeyExists_loop (key # keys) existingAccessKey =
     bind_go (deref key) (\<lambda>k. if k = existingAccessKey then ret True
       else accessKeyExists_loop keys existingAccessKey)"

definition accessKeyExists :: "string option list \<Rightarrow> string \<Rightarrow> bool io" where
  "accessKeyExists allUserKeys existingAccessKey =
     (if existingAccessKey = [] then ret False else accessKeyExists_loop allUserKeys existingAccessKey)"

fun deleteAllAccessKeys :: "env \<Rightarrow> awsClient \<Rightarrow> string \<Rightarrow> string option list \<Rightarrow> (gerror option) io" where
  "deleteAllAccessKeys E c username [] = ret None"
| "deleteAllAccessKeys E c username (kmd # kmds) =
     bind_go (deref kmd) (\<lambda>_.
     bind_go (awsClient_DeleteAccessKey E c username kmd) (\<lambda>err. case err of
       Some e \<Rightarrow> ret (Some e)
     | None \<Rightarrow> deleteAllAccessKeys E c username kmds))"

definition createAccessKey :: "env \<Rightarrow> awsClient \<Rightarrow> string \<Rightarrow> (gerror + iam_AccessKey) io" where
  "createAccessKey E c username =
     bind_go (awsClient_CreateAccessKey E c username) (\<lambda>r. case r of
       Inl err \<Rightarrow> ret (Inl (PlainError (''error creating access key for user '' @ username @ '': '' @ error_text err)))
     | Inr keyp \<Rightarrow> bind_go (deref keyp) (\<lambda>accessKey.
         bind_go (deref (ak_AccessKeyId accessKey)) (\<lambda>_. ret (Inr accessKey))))"

section \<open>Is there anything to do?\<close>

text \<open>
  The checks \<open>needsUpdate\<close> makes for a minted user. An error of the comparison of policies counts
  as a difference; a failure to list the keys is returned.
\<close>

definition needsUpdate_minted ::
    "env \<Rightarrow> string \<Rightarrow> string \<Rightarrow> AWSProviderSpec \<Rightarrow> AWSProviderStatus \<Rightarrow> awsClient \<Rightarrow> (gerror + bool) io" where
  "needsUpdate_minted E infraName accessKey awsSpec awsStatus readAWSClient =
     bind_go (awsClient_GetUser E readAWSClient (Some (User awsStatus))) (\<lambda>r. case r of
       Inl err \<Rightarrow> ret (Inl (PlainError (''unable to read info for username '' @
                    h_show_get_user_output (proc E) @ '': '' @ error_text err)))
     | Inr user \<Rightarrow>
     try_go (loadClusterUUID E) (\<lambda>clusterUUID.
     bind_go (userHasExpectedTags user infraName clusterUUID) (\<lambda>tagged.
     if \<not> tagged then ret (Inr True)
     else
     try_go (awsClient_ListAccessKeys E readAWSClient (User awsStatus)) (\<lambda>allUserKeys.
     bind_go (accessKeyExists allUserKeys accessKey) (\<lambda>keyExists.
     if \<not> keyExists then ret (Inr True)
     else
     bind_go (deref user) (\<lambda>u. bind_go (deref (iu_Arn u)) (\<lambda>arn.
     let desiredUserPolicy = getDesiredUserPolicy (StatementEntries awsSpec) arn in
     bind_go (awsPolicyEqualsDesiredPolicy E desiredUserPolicy awsStatus readAWSClient) (\<lambda>r.
     if r \<noteq> Inr True then ret (Inr True) else ret (Inr False)))))))))"

definition needsUpdate :: "env \<Rightarrow> CredentialsRequest \<Rightarrow> string \<Rightarrow> (gerror + bool) io" where
  "needsUpdate E cr infraName =
     try_go (Exists E cr) (\<lambda>exists.
     if \<not> exists then ret (Inr True)
     else
     bind_go (loadExistingSecret E cr) (\<lambda>(_, accessKey, secretKey).
     case NewClient E accessKey secretKey infraName of
       Inl err \<Rightarrow> ret (Inl err)
     | Inr awsClient \<Rightarrow>
     try_go (aws_DecodeProviderSpec E cr) (\<lambda>awsSpec.
     case aws_DecodeProviderStatus E cr of
       Inl err \<Rightarrow> ret (Inl (PlainError (''unable to decode ProviderStatus: '' @ error_text err)))
     | Inr awsStatus \<Rightarrow>
     bind_go (buildReadAWSClient E cr infraName) (\<lambda>r. case r of
       Inl err \<Rightarrow> ret (Inl (PlainError ''unable to check whether AWS user is properly tagged''))
     | Inr readAWSClient \<Rightarrow>
     if User awsStatus \<noteq> [] then needsUpdate_minted E infraName accessKey awsSpec awsStatus readAWSClient
     else
     bind_go (CheckPermissionsUsingQueryClient E readAWSClient awsClient (StatementEntries awsSpec)) (\<lambda>r. case r of
       Inl err \<Rightarrow> ret (Inl (PlainError (''error validating whether current creds are good enough: '' @ error_text err)))
     | Inr goodEnough \<Rightarrow> if \<not> goodEnough then ret (Inr True) else ret (Inr False))))))"

section \<open>Minting\<close>

definition no_root_client :: gerror where
  "no_root_client = PlainError (''no root AWS client available, cred secret may not exist: '' @
     rootAWSCredsSecretNamespace @ ''/'' @ rootAWSCredsSecret)"

text \<open>Pick the user and policy names and record them in the request's status, lines 347 to 370.\<close>

definition mint_status ::
    "env \<Rightarrow> CredentialsRequest \<Rightarrow> AWSProviderStatus \<Rightarrow> string \<Rightarrow> (CredentialsRequest \<times> (gerror + AWSProviderStatus)) io" where
  "mint_status E cr awsStatus infraName =
     bind_go
       (if User awsStatus = []
        then bind_go (generateUserName E infraName (cr_Name cr)) (\<lambda>r. case r of
               Inl err \<Rightarrow> ret (cr, Inl err)
             | Inr username \<Rightarrow>
                 let awsStatus = awsStatus\<lparr>User := username, Policy := getPolicyName username\<rparr> in
                 bind_go (updateProviderStatus E cr awsStatus) (\<lambda>(cr, err). case err of
                   Some e \<Rightarrow> ret (cr, Inl e)
                 | None \<Rightarrow> ret (cr, Inr awsStatus)))
        else ret (cr, Inr awsStatus)) (\<lambda>(cr, r). case r of
       Inl err \<Rightarrow> ret (cr, Inl err)
     | Inr awsStatus \<Rightarrow>
         if Policy awsStatus = [] \<and> User awsStatus \<noteq> []
         then let awsStatus = awsStatus\<lparr>Policy := getPolicyName (User awsStatus)\<rparr> in
              bind_go (updateProviderStatus E cr awsStatus) (\<lambda>(cr, err). case err of
                Some e \<Rightarrow> ret (cr, Inl e)
              | None \<Rightarrow> ret (cr, Inr awsStatus))
         else ret (cr, Inr awsStatus))"

text \<open>Look the user up and create it if IAM does not know it, lines 383 to 411.\<close>

definition mint_user ::
    "env \<Rightarrow> awsClient option \<Rightarrow> awsClient \<Rightarrow> string \<Rightarrow> (gerror + iam_User option) io" where
  "mint_user E rootAWSClient readAWSClient user =
     bind_go (awsClient_GetUser E readAWSClient (Some user)) (\<lambda>r. case r of
       Inr userOut \<Rightarrow> ret (Inr userOut)
     | Inl (AwsError code text) \<Rightarrow>
         if code = ErrCodeNoSuchEntityException
         then (case rootAWSClient of
                 None \<Rightarrow> ret (Inl no_root_client)
               | Some root \<Rightarrow> try_go (createUser E root user) (\<lambda>createOut.
                   bind_go (deref createOut) (\<lambda>userOut. ret (Inr userOut))))
         else ret (Inl (formatAWSErr code text))
     | Inl err \<Rightarrow> ret (Inl (PlainError (''unknown error getting user from AWS: '' @ error_text err))))"

text \<open>Tag the user if a tag is missing, lines 413 to 428.\<close>

definition mint_tags ::
    "env \<Rightarrow> awsClient option \<Rightarrow> string \<Rightarrow> string \<Rightarrow> iam_User option \<Rightarrow> (gerror + unit) io" where
  "mint_tags E rootAWSClient user infraName userOut =
     try_go (loadClusterUUID E) (\<lambda>clusterUUID.
     bind_go (userHasExpectedTags userOut infraName clusterUUID) (\<lambda>tagged.
     if \<not> tagged
     then (case rootAWSClient of
             None \<Rightarrow> ret (Inl no_root_client)
           | Some root \<Rightarrow> bind_go (tagUser E root user infraName clusterUUID) (\<lambda>err. case err of
               Some e \<Rightarrow> ret (Inl e) | None \<Rightarrow> ret (Inr ())))
     else ret (Inr ())))"

text \<open>Put the desired policy if the attached one differs, lines 430 to 446; gives the desired one.\<close>

definition mint_policy ::
    "env \<Rightarrow> awsClient option \<Rightarrow> awsClient \<Rightarrow> AWSProviderSpec \<Rightarrow> AWSProviderStatus \<Rightarrow> iam_User option \<Rightarrow>
     (gerror + string) io" where
  "mint_policy E rootAWSClient readAWSClient awsSpec awsStatus userOut =
     bind_go (deref userOut) (\<lambda>u. bind_go (deref (iu_Arn u)) (\<lambda>arn.
     let desiredUserPolicy = getDesiredUserPolicy (StatementEntries awsSpec) arn in
     bind_go (awsPolicyEqualsDesiredPolicy E desiredUserPolicy awsStatus readAWSClient) (\<lambda>r.
     if r \<noteq> Inr True
     then (case rootAWSClient of
             None \<Rightarrow> ret (Inl no_root_client)
           | Some root \<Rightarrow> bind_go (setUserPolicy E root (User awsStatus) (Policy awsStatus) desiredUserPolicy) (\<lambda>err.
               case err of Some e \<Rightarrow> ret (Inl e) | None \<Rightarrow> ret (Inr desiredUserPolicy)))
     else ret (Inr desiredUserPolicy))))"

text \<open>
  A new key pair, lines 473 to 499: delete every key the user has (IAM allows two), then create
  one.
\<close>

definition generate_key ::
    "env \<Rightarrow> awsClient option \<Rightarrow> string \<Rightarrow> string option list \<Rightarrow> (gerror + string \<times> string) io" where
  "generate_key E rootAWSClient user allUserKeys =
     (case rootAWSClient of
        None \<Rightarrow> ret (Inl no_root_client)
      | Some root \<Rightarrow>
          bind_go (deleteAllAccessKeys E root user allUserKeys) (\<lambda>err. case err of
            Some e \<Rightarrow> ret (Inl e)
          | None \<Rightarrow>
              try_go (createAccessKey E root user) (\<lambda>accessKey.
              bind_go (deref (ak_AccessKeyId accessKey)) (\<lambda>accessKeyString.
              bind_go (deref (ak_SecretAccessKey accessKey)) (\<lambda>secretAccessKeyString.
              ret (Inr (accessKeyString, secretAccessKeyString)))))))"

text \<open>
  Replace the access key unless the one in the secret is live, lines 455 to 499; gives the
  secret as it was read and the new key pair, empty strings when none was made.
\<close>

definition choose_key ::
    "env \<Rightarrow> awsClient option \<Rightarrow> CredentialsRequest \<Rightarrow> string \<Rightarrow> string option list \<Rightarrow>
     (gerror + Secret \<times> string \<times> string) io" where
  "choose_key E rootAWSClient cr user allUserKeys =
     bind_go (loadExistingSecret E cr) (\<lambda>(existingSecret, existingAccessKeyID, _).
     bind_go (accessKeyExists allUserKeys existingAccessKeyID) (\<lambda>keyExists.
     if sec_Name existingSecret = [] \<or> existingAccessKeyID = [] \<or> \<not> keyExists
     then try_go (generate_key E rootAWSClient user allUserKeys) (\<lambda>(accessKey, secretKey).
            ret (Inr (existingSecret, accessKey, secretKey)))
     else ret (Inr (existingSecret, [], []))))"

definition mint_key ::
    "env \<Rightarrow> awsClient option \<Rightarrow> awsClient \<Rightarrow> CredentialsRequest \<Rightarrow> string \<Rightarrow>
     (gerror + Secret \<times> string \<times> string) io" where
  "mint_key E rootAWSClient readAWSClient cr user =
     try_go (awsClient_ListAccessKeys E readAWSClient user) (choose_key E rootAWSClient cr user)"

text \<open>The steps one after the other, with the root client that could be built, if any, lines 377 to 506.\<close>

definition mint_steps ::
    "env \<Rightarrow> awsClient option \<Rightarrow> CredentialsRequest \<Rightarrow> string \<Rightarrow> AWSProviderSpec \<Rightarrow> AWSProviderStatus \<Rightarrow>
     (gerror + unit) io" where
  "mint_steps E rootAWSClient cr infraName awsSpec awsStatus =
     try_go (buildReadAWSClient E cr infraName) (\<lambda>readAWSClient.
     try_go (mint_user E rootAWSClient readAWSClient (User awsStatus)) (\<lambda>userOut.
     try_go (mint_tags E rootAWSClient (User awsStatus) infraName userOut) (\<lambda>_.
     try_go (mint_policy E rootAWSClient readAWSClient awsSpec awsStatus userOut) (\<lambda>desiredUserPolicy.
     try_go (mint_key E rootAWSClient readAWSClient cr (User awsStatus)) (\<lambda>(existingSecret, k, s).
     bind_go (syncAccessKeySecret E cr k s existingSecret desiredUserPolicy) (\<lambda>err. case err of
       Some e \<Rightarrow> ret (Inl e) | None \<Rightarrow> ret (Inr ())))))))"

text \<open>\<open>syncMint\<close> from line 372 on. A root client that cannot be built is not an error yet.\<close>

definition mint_rest ::
    "env \<Rightarrow> CredentialsRequest \<Rightarrow> string \<Rightarrow> AWSProviderSpec \<Rightarrow> AWSProviderStatus \<Rightarrow> (gerror option) io" where
  "mint_rest E cr infraName awsSpec awsStatus =
     bind_go (buildRootAWSClient E infraName) (\<lambda>r.
     let rootAWSClient = (case r of Inl _ \<Rightarrow> None | Inr c \<Rightarrow> Some c) in
     bind_go (mint_steps E rootAWSClient cr infraName awsSpec awsStatus)
       (\<lambda>r. ret (case r of Inl e \<Rightarrow> Some e | Inr _ \<Rightarrow> None)))"

definition syncMint ::
    "env \<Rightarrow> CredentialsRequest \<Rightarrow> string \<Rightarrow> (CredentialsRequest \<times> gerror option) io" where
  "syncMint E cr infraName =
     bind_go (aws_DecodeProviderSpec E cr) (\<lambda>r. case r of
       Inl err \<Rightarrow> ret (cr, Some err)
     | Inr awsSpec \<Rightarrow>
     case aws_DecodeProviderStatus E cr of
       Inl err \<Rightarrow> ret (cr, Some err)
     | Inr awsStatus \<Rightarrow>
     bind_go (mint_status E cr awsStatus infraName) (\<lambda>(cr, r). case r of
       Inl err \<Rightarrow> ret (cr, Some err)
     | Inr awsStatus \<Rightarrow>
         bind_go (mint_rest E cr infraName awsSpec awsStatus) (\<lambda>err. ret (cr, err))))"

section \<open>Operations\<close>

definition syncPassthrough :: "env \<Rightarrow> CredentialsRequest \<Rightarrow> Secret \<Rightarrow> (gerror option) io" where
  "syncPassthrough E cr cloudCredsSecret =
     bind_go (loadExistingSecret E cr) (\<lambda>(existingSecret, _, _).
     let accessKeyID = map_get_str (sec_Data cloudCredsSecret) AwsAccessKeyName;
         secretAccessKey = map_get_str (sec_Data cloudCredsSecret) AwsSecretAccessKeyName in
     bind_go (syncAccessKeySecret E cr accessKeyID secretAccessKey existingSecret []) (\<lambda>err. case err of
       Some e \<Rightarrow> ret (Some (ActuatorError CredentialsProvisionFailure
                   (''error creating/updating secret: '' @ error_text e)))
     | None \<Rightarrow> ret None))"

definition sync :: "env \<Rightarrow> CredentialsRequest \<Rightarrow> (CredentialsRequest \<times> gerror option) io" where
  "sync E cr =
     bind_go (LoadInfrastructureName E) (\<lambda>r. case r of
       Inl err \<Rightarrow> ret (cr, Some err)
     | Inr infraName \<Rightarrow>
     bind_go (needsUpdate E cr infraName) (\<lambda>r. case r of
       Inl err \<Rightarrow> ret (cr, Some (ActuatorError CredentialsProvisionFailure
                    (''error determining whether a credentials update is needed: '' @ error_text err)))
     | Inr needed \<Rightarrow>
     if \<not> needed then ret (cr, None)
     else
     bind_go (getCloudCredentialsSecret E) (\<lambda>r. case r of
       Inl err \<Rightarrow> ret (cr, Some err)
     | Inr cloudCredsSecret \<Rightarrow>
     let mode = map_get_str (sec_Annotations cloudCredsSecret) AnnotationKey in
     if mode = InsufficientAnnotation
     then ret (cr, Some (ActuatorError InsufficientCloudCredentials
            ''cloud credentials insufficient to satisfy credentials request''))
     else if mode = PassthroughAnnotation
     then bind_go (syncPassthrough E cr cloudCredsSecret) (\<lambda>err. ret (cr, err))
     else if mode = MintAnnotation
     then bind_go (syncMint E cr infraName) (\<lambda>(cr, err). case err of
            Some e \<Rightarrow> ret (cr, Some (ActuatorError CredentialsProvisionFailure
                        (''error syncing creds in mint-mode: '' @ error_text e)))
          | None \<Rightarrow> ret (cr, None))
     else ret (cr, None))))"

text \<open>An AWS error with the code \<open>NoSuchEntity\<close>, which \<open>Delete\<close> takes for success.\<close>

definition delete_policy :: "env \<Rightarrow> awsClient \<Rightarrow> AWSProviderStatus \<Rightarrow> (gerror + unit) io" where
  "delete_policy E c awsStatus =
     bind_go (awsClient_DeleteUserPolicy E c (User awsStatus) (Policy awsStatus)) (\<lambda>err. case err of
       None \<Rightarrow> ret (Inr ())
     | Some (AwsError code text) \<Rightarrow>
         if code = ErrCodeNoSuchEntityException then ret (Inr ()) else ret (Inl (formatAWSErr code text))
     | Some e \<Rightarrow> ret (Inl (PlainError (''unknown error deleting user policy from AWS: '' @ error_text e))))"

definition delete_user :: "env \<Rightarrow> awsClient \<Rightarrow> AWSProviderStatus \<Rightarrow> (gerror option) io" where
  "delete_user E c awsStatus =
     bind_go (awsClient_DeleteUser E c (User awsStatus)) (\<lambda>err. case err of
       None \<Rightarrow> ret None
     | Some (AwsError code text) \<Rightarrow>
         if code = ErrCodeNoSuchEntityException then ret None else ret (Some (formatAWSErr code text))
     | Some e \<Rightarrow> ret (Some (PlainError (''unknown error deleting user from AWS: '' @ error_text e))))"

definition Delete :: "env \<Rightarrow> CredentialsRequest \<Rightarrow> (gerror option) io" where
  "Delete E cr =
     (case aws_DecodeProviderStatus E cr of
        Inl err \<Rightarrow> ret (Some err)
      | Inr awsStatus \<Rightarrow>
     if User awsStatus = [] then ret None
     else
     bind_go (LoadInfrastructureName E) (\<lambda>r. case r of
        Inl err \<Rightarrow> ret (Some err)
      | Inr infraName \<Rightarrow>
     bind_go (buildRootAWSClient E infraName) (\<lambda>r. case r of
        Inl err \<Rightarrow> ret (Some err)
      | Inr awsClient \<Rightarrow>
     bind_go (delete_policy E awsClient awsStatus) (\<lambda>r. case r of
        Inl err \<Rightarrow> ret (Some err)
      | Inr _ \<Rightarrow>
     bind_go (awsClient_ListAccessKeys E awsClient (User awsStatus)) (\<lambda>r. case r of
        Inl (AwsError code text) \<Rightarrow>
          if code = ErrCodeNoSuchEntityException then ret None else ret (Some (formatAWSErr code text))
      | Inl err \<Rightarrow> ret (Some err)
      | Inr allUserKeys \<Rightarrow>
     bind_go (deleteAllAccessKeys E awsClient (User awsStatus) allUserKeys) (\<lambda>err. case err of
        Some e \<Rightarrow> ret (Some e)
      | None \<Rightarrow> delete_user E awsClient awsStatus))))))"

definition Create :: "env \<Rightarrow> CredentialsRequest \<Rightarrow> (CredentialsRequest \<times> gerror option) io" where
  "Create E cr = sync E cr"

definition Update :: "env \<Rightarrow> CredentialsRequest \<Rightarrow> (CredentialsRequest \<times> gerror option) io" where
  "Update E cr = sync E cr"

definition AWSActuator :: "env \<Rightarrow> actuator" where
  "AWSActuator E = \<lparr>act_Create = Create E, act_Delete = Delete E, act_Update = Update E, act_Exists = Exists E\<rparr>"

text \<open>\<open>NewAWSActuator\<close> fails exactly when no codec can be made.\<close>

definition NewAWSActuator :: "env \<Rightarrow> (gerror + actuator) io" where
  "NewAWSActuator E = bind_go (NewCodec (proc E)) (\<lambda>err. case err of
      Some err \<Rightarrow> ret (Inl (PlainError (''error creating AWS codec: '' @ error_text err)))
    | None \<Rightarrow> ret (Inr (AWSActuator E)))"

end
