(* ===== verification/AwsSync.thy ===== *)
theory AwsSync
  imports AwsActuator
begin

text \<open>
  Properties of the AWS actuator. The first section classifies every call each of its steps can
  make; the contract of the actuator interface and the least-privilege property are read off
  that. The later sections follow the order of calls: names are recorded before a user
  exists, old access keys are deleted before a new one is made, and a settled request causes no
  write.
\<close>

section \<open>Where the root client comes from\<close>

text \<open>A client that holds the keys read from \<open>kube-system/aws-creds\<close>.\<close>

definition root_client :: "env \<Rightarrow> awsClient \<Rightarrow> bool" where
  "root_client E c \<longleftrightarrow> (\<exists>t s. k_get_secret (kube E) t root_creds_key = Inr s \<and>
     secret_keys s = Some (cl_AccessKeyID c, cl_SecretAccessKey c))"

lemma buildRootAWSClient_yields:
  "yields (buildRootAWSClient E infraName) (\<lambda>r. \<forall>c. r = Inr c \<longrightarrow> root_client E c)"
  unfolding buildRootAWSClient_def
proof (rule yields_try)
  show "yields (LoadCredsFromSecret E rootAWSCredsSecretNamespace rootAWSCredsSecret)
     (\<lambda>r. \<forall>k v. r = Inr (k, v) \<longrightarrow>
       (\<exists>t s. k_get_secret (kube E) t root_creds_key = Inr s \<and> secret_keys s = Some (k, v)))"
    by (auto simp: yields_def LoadCredsFromSecret_apply Let_def root_creds_key_def
        split: sum.splits option.splits)
qed (auto simp: root_client_def intro!: yields_ret dest!: NewClient_Inr)

section \<open>The calls of each step\<close>

lemma emits_LoadCreds [emits_intros]:
  "(\<And>n r. P (EvGetSecret n r)) \<Longrightarrow> emits P (LoadCredsFromSecret E ns n)"
  by (auto simp: emits_def LoadCredsFromSecret_apply Let_def)

lemma emits_infra [emits_intros]:
  "(\<And>n r. P (EvGetInfrastructure n r)) \<Longrightarrow> emits P (LoadInfrastructureName E)"
  unfolding LoadInfrastructureName_def by (intro emits_intros)

lemma emits_buildRoot [emits_intros]:
  "(\<And>n r. P (EvGetSecret n r)) \<Longrightarrow> emits P (buildRootAWSClient E infraName)"
  unfolding buildRootAWSClient_def by (intro emits_intros)

lemma emits_case_gerror [emits_intros]:
  "(\<And>a b. emits P (f1 a b)) \<Longrightarrow> (\<And>a b. emits P (f2 a b)) \<Longrightarrow> (\<And>a b. emits P (f3 a b)) \<Longrightarrow>
   (\<And>a. emits P (f4 a)) \<Longrightarrow> (\<And>a. emits P (f5 a)) \<Longrightarrow>
   emits P (case e of StatusError a b \<Rightarrow> f1 a b | AwsError a b \<Rightarrow> f2 a b | ActuatorError a b \<Rightarrow> f3 a b
     | EscapeError a \<Rightarrow> f4 a | PlainError a \<Rightarrow> f5 a)"
  by (cases e) auto

lemma emits_probe [emits_intros]:
  assumes "\<And>n r. P (EvGetSecret n r)" "\<And>c u r. P (EvIam c (GetUser u r))"
  shows "emits P (probeReadAWSClient E cr infraName k s)"
  unfolding probeReadAWSClient_def awsClient_GetUser_def by (intro emits_intros assms)

lemma emits_buildRead [emits_intros]:
  assumes "\<And>n r. P (EvGetSecret n r)" "\<And>c u r. P (EvIam c (GetUser u r))"
  shows "emits P (buildReadAWSClient E cr infraName)"
  unfolding buildReadAWSClient_def by (intro emits_intros assms)

lemma emits_userHasTag [emits_intros]: "emits P (userHasTag u k v)"
proof -
  have "emits P (userHasTag_loop ts k v)" for ts
    by (induction ts) (simp_all only: userHasTag_loop.simps, (intro emits_intros; assumption)+)
  then show ?thesis by (simp add: userHasTag_def)
qed

lemma emits_tags [emits_intros]: "emits P (userHasExpectedTags u infraName uuid)"
  unfolding userHasExpectedTags_def by (intro emits_intros)

lemma emits_accessKeyExists [emits_intros]: "emits P (accessKeyExists ks k)"
proof -
  have "emits P (accessKeyExists_loop ks k)"
    by (induction ks) (simp_all only: accessKeyExists_loop.simps, (intro emits_intros; assumption)+)
  then show ?thesis by (simp add: accessKeyExists_def)
qed

lemma emits_loadExisting [emits_intros]:
  "(\<And>r. P (EvGetSecret (target_key cr) r)) \<Longrightarrow> emits P (loadExistingSecret E cr)"
  unfolding loadExistingSecret_def by (intro emits_intros)

lemma emits_aws_spec [emits_intros]: "emits P (aws_DecodeProviderSpec E cr)"
  unfolding aws_DecodeProviderSpec_def DecodeProviderSpec_def by (intro emits_intros)

lemma emits_policyEquals [emits_intros]:
  "(\<And>c u p r. P (EvIam c (GetUserPolicy u p r))) \<Longrightarrow> emits P (awsPolicyEqualsDesiredPolicy E d st c)"
  unfolding awsPolicyEqualsDesiredPolicy_def getCurrentUserPolicy_def awsClient_GetUserPolicy_def
  by (intro emits_intros)

lemma emits_Exists [emits_intros]: "(\<And>n r. P (EvGetSecret n r)) \<Longrightarrow> emits P (Exists E cr)"
  unfolding Exists_def by (intro emits_intros)

lemma emits_needsUpdate: "emits read_only (needsUpdate E cr infraName)"
  unfolding needsUpdate_def needsUpdate_minted_def loadClusterUUID_def awsClient_GetUser_def
    awsClient_ListAccessKeys_def Let_def
  by (intro emits_intros) auto

lemma emits_createUser [emits_intros]:
  "(\<And>r. P (EvIam c (CreateUser u r))) \<Longrightarrow> emits P (createUser E c u)"
  unfolding createUser_def awsClient_CreateUser_def by (intro emits_intros)

lemma emits_tagUser [emits_intros]:
  "(\<And>tags r. P (EvIam c (TagUser u tags r))) \<Longrightarrow> emits P (tagUser E c u infraName uuid)"
  unfolding tagUser_def awsClient_TagUser_def by (intro emits_intros)

lemma emits_setUserPolicy [emits_intros]:
  "(\<And>r. P (EvIam c (PutUserPolicy u p d r))) \<Longrightarrow> emits P (setUserPolicy E c u p d)"
  unfolding setUserPolicy_def awsClient_PutUserPolicy_def by (intro emits_intros)

lemma emits_deleteAll [emits_intros]:
  "(\<And>k r. P (EvIam c (DeleteAccessKey u k r))) \<Longrightarrow> emits P (deleteAllAccessKeys E c u ks)"
proof (induction ks)
  case (Cons k ks)
  show ?case
    unfolding deleteAllAccessKeys.simps awsClient_DeleteAccessKey_def
    by (intro emits_intros Cons.IH Cons.prems)
qed (simp only: deleteAllAccessKeys.simps emits_ret)

lemma emits_createAccessKey [emits_intros]:
  "(\<And>r. P (EvIam c (CreateAccessKey u r))) \<Longrightarrow> emits P (createAccessKey E c u)"
  unfolding createAccessKey_def awsClient_CreateAccessKey_def by (intro emits_intros)

lemma emits_set_key_data [emits_intros]: "emits P (set_key_data s k v)"
  unfolding set_key_data_def by (intro emits_intros)

text \<open>
  The calls of the second half of minting, for a user: reads, mutating IAM calls about this
  user with the root client, and writes of secrets.
\<close>

definition mint_event :: "env \<Rightarrow> string \<Rightarrow> event \<Rightarrow> bool" where
  "mint_event E u ev \<longleftrightarrow> (case ev of
      EvIam c call \<Rightarrow> iam_mutating call \<longrightarrow> root_client E c \<and> iam_subject call = Some u
    | EvCreateSecret _ _ \<Rightarrow> True | EvUpdateSecret _ _ \<Rightarrow> True
    | _ \<Rightarrow> read_only ev)"

lemma emits_mint_user:
  "(\<And>c. root = Some c \<Longrightarrow> root_client E c) \<Longrightarrow> emits (mint_event E u) (mint_user E root read u)"
  unfolding mint_user_def awsClient_GetUser_def
  by (intro emits_intros) (auto simp: mint_event_def)

lemma emits_mint_tags:
  "(\<And>c. root = Some c \<Longrightarrow> root_client E c) \<Longrightarrow> emits (mint_event E u) (mint_tags E root u infraName userOut)"
  unfolding mint_tags_def loadClusterUUID_def
  by (intro emits_intros) (auto simp: mint_event_def)

lemma emits_mint_policy:
  "(\<And>c. root = Some c \<Longrightarrow> root_client E c) \<Longrightarrow>
     emits (mint_event E (User st)) (mint_policy E root read spec st userOut)"
  unfolding mint_policy_def Let_def
  by (intro emits_intros) (auto simp: mint_event_def)

lemma emits_mint_key:
  "(\<And>c. root = Some c \<Longrightarrow> root_client E c) \<Longrightarrow> emits (mint_event E u) (mint_key E root read cr u)"
  unfolding mint_key_def choose_key_def generate_key_def awsClient_ListAccessKeys_def
  by (intro emits_intros) (auto simp: mint_event_def)

lemma emits_syncAccessKeySecret:
  "(\<And>s r. P (EvCreateSecret s r)) \<Longrightarrow> (\<And>s r. P (EvUpdateSecret s r)) \<Longrightarrow>
     emits P (syncAccessKeySecret E cr k s0 existing policy)"
  unfolding syncAccessKeySecret_def Let_def by (intro emits_intros)

lemma emits_mint_steps:
  "(\<And>c. root = Some c \<Longrightarrow> root_client E c) \<Longrightarrow>
     emits (mint_event E (User st)) (mint_steps E root cr infraName spec st)"
  unfolding mint_steps_def
  by (intro emits_intros emits_mint_user emits_mint_tags emits_mint_policy emits_mint_key
        emits_syncAccessKeySecret) (simp_all add: mint_event_def)

lemma emits_mint_rest: "emits (mint_event E (User st)) (mint_rest E cr infraName spec st)"
  unfolding mint_rest_def Let_def
  by (rule emits_bind_yields [OF _ buildRootAWSClient_yields])
    (auto intro!: emits_intros emits_mint_steps simp: mint_event_def split: sum.splits)

section \<open>The contract of the interface\<close>

lemma emits_updateProviderStatus [emits_intros]:
  "(\<And>cr r. P (EvUpdateCRStatus cr r)) \<Longrightarrow> emits P (updateProviderStatus E cr st)"
  unfolding updateProviderStatus_def Let_def by (intro emits_intros)

lemma emits_generateUserName [emits_intros]:
  "(\<And>r. P (EvRandom r)) \<Longrightarrow> emits P (generateUserName E i n)"
  unfolding generateUserName_def Let_def by (intro emits_intros)

lemma emits_mint_status [emits_intros]:
  "(\<And>r. P (EvRandom r)) \<Longrightarrow> (\<And>cr r. P (EvUpdateCRStatus cr r)) \<Longrightarrow> emits P (mint_status E cr st infraName)"
  unfolding mint_status_def Let_def by (intro emits_intros)

text \<open>A call of \<open>sync\<close> for some user, and one of \<open>Delete\<close>.\<close>

lemma emits_syncMint:
  assumes "\<And>r. P (EvRandom r)" "\<And>cr r. P (EvUpdateCRStatus cr r)" "\<And>u ev. mint_event E u ev \<Longrightarrow> P ev"
  shows "emits P (syncMint E cr infraName)"
  unfolding syncMint_def
  by (intro emits_intros assms emits_mono [OF emits_mint_rest])

lemma emits_syncPassthrough:
  assumes "\<And>n r. P (EvGetSecret n r)" "\<And>s r. P (EvCreateSecret s r)" "\<And>s r. P (EvUpdateSecret s r)"
  shows "emits P (syncPassthrough E cr root)"
  unfolding syncPassthrough_def Let_def
  by (intro emits_intros emits_syncAccessKeySecret assms)

lemma emits_sync:
  assumes "\<And>ev. read_only ev \<Longrightarrow> P ev" "\<And>cr r. P (EvUpdateCRStatus cr r)"
    and "\<And>s r. P (EvCreateSecret s r)" "\<And>s r. P (EvUpdateSecret s r)" "\<And>u ev. mint_event E u ev \<Longrightarrow> P ev"
  shows "emits P (sync E cr)"
  unfolding sync_def getCloudCredentialsSecret_def Let_def
  by (intro emits_intros emits_syncMint emits_syncPassthrough emits_mono [OF emits_needsUpdate] assms)
    simp_all

definition delete_event :: "env \<Rightarrow> string \<Rightarrow> event \<Rightarrow> bool" where
  "delete_event E u ev \<longleftrightarrow> (case ev of
      EvIam c call \<Rightarrow> root_client E c \<and> iam_subject call = Some u
    | _ \<Rightarrow> read_only ev)"

lemma emits_Delete:
  assumes "aws_DecodeProviderStatus E cr = Inr st"
  shows "emits (delete_event E (User st)) (Delete E cr)"
proof -
  let ?P = "delete_event E (User st)"
  have after: "emits ?P (bind_go (delete_policy E c st) f)"
    if "root_client E c" "\<And>x. emits ?P (f x)" for c and f :: "gerror + unit \<Rightarrow> gerror option io"
    using that unfolding delete_policy_def awsClient_DeleteUserPolicy_def
    by (intro emits_intros) (auto simp: delete_event_def)
  show ?thesis
    unfolding Delete_def assms sum.case
    by (intro emits_intros after emits_bind_yields [OF _ buildRootAWSClient_yields])
      (auto intro!: emits_intros after simp: delete_event_def awsClient_ListAccessKeys_def
        delete_user_def awsClient_DeleteUser_def)
qed

text \<open>Secrets are written under the target's name and refer back to the request.\<close>

definition read_target :: "CredentialsRequest \<Rightarrow> Secret \<Rightarrow> bool" where
  "read_target cr s \<longleftrightarrow> sec_Name s = [] \<or> sec_Key s = target_key cr"

lemma loadExisting_target:
  "api_faithful E \<Longrightarrow> yields (loadExistingSecret E cr) (\<lambda>(s, _). read_target cr s)"
  by (auto simp: yields_def loadExistingSecret_def fst_bind api_faithful_def read_target_def
      empty_Secret_def empty_ObjectMeta_def split: sum.splits)

lemma new_target_secret_for: "for_request cr (new_target_secret cr k v policy)"
  by (simp add: for_request_def new_target_secret_def sec_Key_def target_key_def)

lemma set_key_data_fields:
  "yields (set_key_data s k v) (\<lambda>s'. sec_Meta s' = sec_Meta s)"
  by (auto simp: yields_def set_key_data_def split: option.splits)

lemma syncAccessKeySecret_target:
  assumes "read_target cr existing"
  shows "emits (on_target cr) (syncAccessKeySecret E cr k v existing policy)"
proof (cases "sec_Name existing = []")
  case True
  then show ?thesis
    unfolding syncAccessKeySecret_def
    by (auto intro!: emits_intros simp: on_target_def new_target_secret_for)
next
  case False
  define s where "s = set_sec_Annotations (Some (fmupd AnnotationAWSPolicyLastApplied policy
     (fmupd AnnotationCredentialsRequest (cr_ref cr)
       (case sec_Annotations existing of None \<Rightarrow> fmempty | Some m \<Rightarrow> m)))) existing"
  have ok: "for_request cr s'" if "sec_Meta s' = sec_Meta s" for s'
    using that assms False
    by (auto simp: for_request_def read_target_def sec_Key_def s_def set_sec_Annotations_def)
  have meta: "yields (if k \<noteq> [] \<and> v \<noteq> [] then set_key_data s k v else ret s) (\<lambda>s'. sec_Meta s' = sec_Meta s)"
    by (auto intro: set_key_data_fields yields_ret)
  show ?thesis
    unfolding syncAccessKeySecret_def Let_def s_def [symmetric] if_not_P [OF False]
    by (rule emits_bind_yields [OF _ meta]; intro emits_intros) (simp_all add: on_target_def ok)
qed

lemma mint_key_target:
  assumes "api_faithful E"
  shows "yields (mint_key E root read cr u) (\<lambda>r. \<forall>s k v. r = Inr (s, k, v) \<longrightarrow> read_target cr s)"
proof -
  have "yields (choose_key E root cr u ks) (\<lambda>r. \<forall>s k v. r = Inr (s, k, v) \<longrightarrow> read_target cr s)" for ks
    unfolding choose_key_def
    by (rule yields_bind [OF loadExisting_target [OF assms]])
      (intro yields_intros yields_bind_any yields_try [OF yields_True]; simp)
  then show ?thesis
    unfolding mint_key_def by (intro yields_try [OF yields_True]) simp_all
qed

lemma mint_steps_target:
  assumes "api_faithful E"
  shows "emits (on_target cr) (mint_steps E root cr infraName spec st)"
proof -
  have quiet: "on_target cr ev" if "\<not> secret_write ev" for ev
    using that by (auto simp: on_target_def split: event.splits)
  have key: "emits (on_target cr) (mint_key E root read cr u)" for read u
    unfolding mint_key_def choose_key_def generate_key_def awsClient_ListAccessKeys_def
    by (intro emits_intros quiet) simp_all
  have save: "emits (on_target cr) (case x of (existingSecret, k, s) \<Rightarrow>
      bind_go (syncAccessKeySecret E cr k s existingSecret policy) (\<lambda>err. case err of
        Some e \<Rightarrow> ret (Inl e) | None \<Rightarrow> ret (Inr ())))"
    if "\<forall>s k v. Inr x = Inr (s, k, v) \<longrightarrow> read_target cr s" for x policy
    using that by (cases x) (auto intro!: emits_intros syncAccessKeySecret_target)
  have "emits (on_target cr) (buildReadAWSClient E cr infraName)"
    by (intro emits_intros quiet) simp_all
  moreover have "emits (on_target cr) (mint_user E root read u)" for read u
    unfolding mint_user_def awsClient_GetUser_def by (intro emits_intros quiet) simp_all
  moreover have "emits (on_target cr) (mint_tags E root u infraName userOut)" for u userOut
    unfolding mint_tags_def loadClusterUUID_def by (intro emits_intros quiet) simp_all
  moreover have "emits (on_target cr) (mint_policy E root read spec st userOut)" for read userOut
    unfolding mint_policy_def Let_def by (intro emits_intros quiet) simp_all
  ultimately show ?thesis
    unfolding mint_steps_def
    by (intro emits_try emits_try_yields [OF key mint_key_target [OF assms] save])
qed

lemma updateProviderStatus_same:
  "api_faithful E \<Longrightarrow> yields (updateProviderStatus E cr st) (\<lambda>r. same_request cr (fst r))"
  unfolding updateProviderStatus_def Let_def
  by (auto simp: yields_def fst_bind api_faithful_def same_request_def split: sum.splits)

lemma mint_status_same:
  assumes "api_faithful E"
  shows "yields (mint_status E cr st infraName) (\<lambda>r. same_request cr (fst r))"
proof -
  have upd: "yields (bind_go (updateProviderStatus E cr' st') (\<lambda>(cr, err). case err of
      Some e \<Rightarrow> ret (cr, Inl e) | None \<Rightarrow> ret (cr, Inr st'))) (\<lambda>r. same_request cr (fst r))"
    if "same_request cr cr'" for cr' st'
    by (rule yields_bind [OF updateProviderStatus_same [OF assms]])
      (auto intro!: yields_ret same_request_trans [OF that] split: option.splits prod.splits)
  show ?thesis
    unfolding mint_status_def Let_def
  proof (rule yields_bind [where R = "\<lambda>r. same_request cr (fst r)"])
    show "yields (if User st = []
        then bind_go (generateUserName E infraName (cr_Name cr)) (\<lambda>r. case r of
               Inl err \<Rightarrow> ret (cr, Inl err)
             | Inr username \<Rightarrow>
                 bind_go (updateProviderStatus E cr (st\<lparr>User := username, Policy := getPolicyName username\<rparr>))
                   (\<lambda>(cr, err). case err of
                   Some e \<Rightarrow> ret (cr, Inl e)
                 | None \<Rightarrow> ret (cr, Inr (st\<lparr>User := username, Policy := getPolicyName username\<rparr>))))
        else ret (cr, Inr st)) (\<lambda>r. same_request cr (fst r))"
      by (auto intro!: yields_ret yields_bind [OF yields_True] upd split: sum.splits)
  qed (auto intro!: yields_ret upd split: sum.splits prod.splits)
qed

lemma syncMint_contract:
  assumes "api_faithful E"
  shows "emits (on_target cr) (syncMint E cr infraName)"
    and "yields (syncMint E cr infraName) (\<lambda>r. same_request cr (fst r))"
proof -
  have rest: "emits (on_target cr) (mint_rest E cr' infraName spec st)" if "same_request cr cr'" for cr' spec st
  proof -
    have "emits (on_target cr') (mint_steps E root cr' infraName spec st)" for root
      by (rule mint_steps_target [OF assms])
    then have "emits (on_target cr) (mint_steps E root cr' infraName spec st)" for root
      by (rule emits_mono) (simp add: on_target_same [OF that])
    then show ?thesis
      unfolding mint_rest_def Let_def by (intro emits_intros) (simp_all add: on_target_def)
  qed
  have status: "emits (on_target cr) (bind_go (mint_status E cr st infraName) f)"
    if "\<And>cr' r. same_request cr cr' \<Longrightarrow> emits (on_target cr) (f (cr', r))"
    for st and f :: "_ \<Rightarrow> (CredentialsRequest \<times> gerror option) io"
  proof (rule emits_bind_yields [OF _ mint_status_same [OF assms]])
    show "emits (on_target cr) (mint_status E cr st infraName)"
      by (intro emits_intros) (simp_all add: on_target_def)
  qed (use that in auto)
  show "emits (on_target cr) (syncMint E cr infraName)"
    unfolding syncMint_def
    by (rule emits_bind [OF emits_aws_spec])
      (auto intro!: emits_intros rest status split: sum.splits)
  have "yields (bind_go (mint_status E cr st infraName) (\<lambda>(cr, r). case r of
      Inl err \<Rightarrow> ret (cr, Some err)
    | Inr st \<Rightarrow> bind_go (mint_rest E cr infraName spec st) (\<lambda>err. ret (cr, err)))) (\<lambda>r. same_request cr (fst r))"
    for spec st
    by (rule yields_bind [OF mint_status_same [OF assms]])
      (intro yields_intros yields_bind_any; simp)
  then show "yields (syncMint E cr infraName) (\<lambda>r. same_request cr (fst r))"
    unfolding syncMint_def
    by (intro yields_bind_any [of _ _ "aws_DecodeProviderSpec E cr"] yields_intros) simp_all
qed

lemma sync_contract:
  assumes "api_faithful E"
  shows "emits (on_target cr) (sync E cr)"
    and "yields (sync E cr) (\<lambda>r. same_request cr (fst r))"
proof -
  have pass: "emits (on_target cr) (syncPassthrough E cr root)" for root
    unfolding syncPassthrough_def Let_def
    by (rule emits_bind_yields [OF _ loadExisting_target [OF assms]])
      (auto intro!: emits_intros syncAccessKeySecret_target simp: on_target_def)
  have ro: "on_target cr ev" if "read_only ev" for ev
    using that by (auto simp: on_target_def split: event.splits)
  show "emits (on_target cr) (sync E cr)"
    unfolding sync_def getCloudCredentialsSecret_def Let_def
    by (intro emits_intros syncMint_contract(1) [OF assms] pass emits_mono [OF emits_needsUpdate] ro) simp_all
  have "yields (bind_go (syncMint E cr infraName) (\<lambda>(cr, err). case err of
      Some e \<Rightarrow> ret (cr, Some (f e)) | None \<Rightarrow> ret (cr, None))) (\<lambda>r. same_request cr (fst r))"
    for infraName and f :: "gerror \<Rightarrow> gerror"
    by (rule yields_bind [OF syncMint_contract(2) [OF assms]]) (intro yields_intros; simp)
  note mint = this and any = yields_bind_any [where m = "LoadInfrastructureName E"]
    yields_bind_any [where m = "needsUpdate E cr i" for i] yields_bind_any [where m = "getCloudCredentialsSecret E"]
    yields_bind_any [where m = "syncPassthrough E cr s" for s]
  show "yields (sync E cr) (\<lambda>r. same_request cr (fst r))"
    unfolding sync_def Let_def by (intro any yields_intros mint) simp_all
qed

interpretation aws: actuator_laws E "AWSActuator E" for E
proof unfold_locales
  fix cr
  have mint: "provision_event ev" if "mint_event E u ev" for u ev
    using that by (auto simp: provision_event_def mint_event_def split: event.splits)
  have ro: "provision_event ev" if "read_only ev" for ev
    using that by (auto simp: provision_event_def split: event.splits)
  have sync: "emits provision_event (sync E cr)"
    by (rule emits_sync) (erule ro mint | simp add: provision_event_def)+
  show "emits read_only (act_Exists (AWSActuator E) cr)"
    unfolding AWSActuator_def actuator.select_convs by (intro emits_intros) simp
  show "emits provision_event (act_Create (AWSActuator E) cr)"
    and "emits provision_event (act_Update (AWSActuator E) cr)"
    using sync by (simp_all add: AWSActuator_def Create_def Update_def)
  show "emits deprovision_event (act_Delete (AWSActuator E) cr)"
  proof (cases "aws_DecodeProviderStatus E cr")
    case (Inr st)
    from emits_Delete [OF this] show ?thesis
      unfolding AWSActuator_def actuator.select_convs
      by (rule emits_mono) (auto simp: deprovision_event_def delete_event_def split: event.splits)
  qed (simp add: AWSActuator_def Delete_def)
next
  fix cr
  assume E: "api_faithful E"
  show "emits (on_target cr) (act_Create (AWSActuator E) cr)"
    and "emits (on_target cr) (act_Update (AWSActuator E) cr)"
    and "yields (act_Create (AWSActuator E) cr) (\<lambda>r. same_request cr (fst r))"
    and "yields (act_Update (AWSActuator E) cr) (\<lambda>r. same_request cr (fst r))"
    using sync_contract [OF E] by (simp_all add: AWSActuator_def Create_def Update_def)
qed

section \<open>Privileges\<close>

text \<open>
  C4. Least privilege: every call of the AWS actuator that changes anything in IAM, in any
  operation and whatever the services answer, is made with the keys of the root credentials
  secret \<open>kube-system/aws-creds\<close>; the read-only credentials and the keys of the target secret are
  used for queries only.
\<close>

theorem aws_mutations_use_root_keys:
  assumes "ev \<in> set (snd (act_Create (AWSActuator E) cr t)) \<union> set (snd (act_Update (AWSActuator E) cr t)) \<union>
      set (snd (act_Delete (AWSActuator E) cr t)) \<union> set (snd (act_Exists (AWSActuator E) cr t))"
    and "ev = EvIam c call" "iam_mutating call"
  shows "\<exists>t s. k_get_secret (kube E) t \<lparr>nn_Namespace = ''kube-system'', nn_Name = ''aws-creds''\<rparr> = Inr s \<and>
    map_get (sec_Data s) ''aws_access_key_id'' = Some (cl_AccessKeyID c) \<and>
    map_get (sec_Data s) ''aws_secret_access_key'' = Some (cl_SecretAccessKey c)"
proof -
  let ?P = "\<lambda>ev. \<forall>c call. ev = EvIam c call \<longrightarrow> iam_mutating call \<longrightarrow> root_client E c"
  have sync: "emits ?P (sync E cr)"
    by (rule emits_sync) (auto simp: mint_event_def)
  have del: "emits ?P (Delete E cr)"
  proof (cases "aws_DecodeProviderStatus E cr")
    case (Inr st)
    from emits_Delete [OF this] show ?thesis by (rule emits_mono) (auto simp: delete_event_def)
  qed (simp add: Delete_def)
  have ex: "emits ?P (Exists E cr)" by (intro emits_intros) simp
  have "root_client E c"
    using assms emitsD [OF sync] emitsD [OF del] emitsD [OF ex]
    by (auto simp: AWSActuator_def Create_def Update_def)
  then show ?thesis
    by (auto simp: root_client_def secret_keys_def root_creds_key_def rootAWSCredsSecretNamespace_def
        rootAWSCredsSecret_def awsCredsSecretIDKey_def awsCredsSecretAccessKey_def split: option.splits)
qed

text \<open>An environment with root keys, and a status that names user \<open>u\<close> in the encoding of the sample codec.\<close>

definition minted_status :: string where
  "minted_status = ''u'' @ [CHR 0x0A] @ ''u-policy''"

definition rooted_env :: env where
  "rooted_env = sample_env (sample_kube\<lparr>
     k_get_secret := \<lambda>t n. if n = root_creds_key
       then Inr (set_sec_Annotations (Some (fmupd AnnotationKey ''mint'' fmempty)) aws_creds_secret)
       else Inl not_found,
     k_get_cr := \<lambda>t n. Inr (deleting_cr (Some minted_status))\<rparr>) sample_iam"

definition root_cl :: awsClient where
  "root_cl = \<lparr>cl_AccessKeyID = ''AKROOT'', cl_SecretAccessKey = ''xyz'', cl_InfraName = ''infra''\<rparr>"

lemma rooted_env_root [simp]:
  "buildRootAWSClient rooted_env ''infra'' t = (Return (Inr root_cl),
     [EvGetSecret root_creds_key (k_get_secret (kube rooted_env) [] root_creds_key)])"
  by (simp add: buildRootAWSClient_def try_go_def prod_eq_iff fst_bind snd_bind LoadCredsFromSecret_apply Let_def
      root_creds_key_def [symmetric] secret_keys_def awsCredsSecretIDKey_def awsCredsSecretAccessKey_def
      NewClient_def rooted_env_def root_cl_def set_sec_Annotations_def)

lemma rooted_env_infra [simp]:
  "LoadInfrastructureName rooted_env t = (Return (Inr ''infra''),
     [EvGetInfrastructure ''cluster'' (Inr \<lparr>InfrastructureName = ''infra'', Platform = ''AWS''\<rparr>)])"
  by (simp add: LoadInfrastructureName_def try_go_def bind_request_apply rooted_env_def)

lemma minted_decodes [simp]:
  "ProviderStatus (cr_Status cr) = Some minted_status \<Longrightarrow> aws_DecodeProviderStatus rooted_env cr =
     Inr \<lparr>aws_status_TypeMeta = empty_TypeMeta, User = ''u'', Policy = ''u-policy''\<rparr>"
  by (simp add: aws_DecodeProviderStatus_def DecodeProviderStatus_def rooted_env_def sample_codec_def minted_status_def)

lemma rooted_iam [simp]: "iam rooted_env = sample_iam" "codec rooted_env = sample_codec" "proc rooted_env = sample_host"
  by (simp_all add: rooted_env_def)

lemma rooted_delete:
  "ProviderStatus (cr_Status cr) = Some minted_status \<Longrightarrow> Delete rooted_env cr t = (Return None,
     [EvGetInfrastructure ''cluster'' (Inr \<lparr>InfrastructureName = ''infra'', Platform = ''AWS''\<rparr>),
      EvGetSecret root_creds_key (k_get_secret (kube rooted_env) [] root_creds_key),
      EvIam root_cl (DeleteUserPolicy ''u'' ''u-policy'' None),
      EvIam root_cl (ListAccessKeys ''u'' (Inr [Some ''OLD''])),
      EvIam root_cl (DeleteAccessKey ''u'' (Some ''OLD'') None),
      EvIam root_cl (DeleteUser ''u'' None)])"
  by (simp add: Delete_def prod_eq_iff fst_bind snd_bind bind_request_apply delete_policy_def delete_user_def
      awsClient_defs)

theorem aws_mutations_use_root_keys_witness:
  "EvIam root_cl (DeleteUser ''u'' None) \<in> set (snd (act_Delete (AWSActuator rooted_env) (sample_cr (Some minted_status)) [])) \<and>
   (\<exists>t s. k_get_secret (kube rooted_env) t \<lparr>nn_Namespace = ''kube-system'', nn_Name = ''aws-creds''\<rparr> = Inr s \<and>
      map_get (sec_Data s) ''aws_access_key_id'' = Some ''AKROOT'' \<and> cl_AccessKeyID root_cl = ''AKROOT'')"
proof -
  have keys: "cl_AccessKeyID root_cl = ''AKROOT''" by (simp add: root_cl_def)
  have "EvIam root_cl (DeleteUser ''u'' None) \<in> set (snd (act_Delete (AWSActuator rooted_env) (sample_cr (Some minted_status)) []))"
    by (simp add: AWSActuator_def rooted_delete)
  then show ?thesis
    using aws_mutations_use_root_keys [of "EvIam root_cl (DeleteUser ''u'' None)" rooted_env
        "sample_cr (Some minted_status)" "[]" root_cl "DeleteUser ''u'' None"] keys by auto
qed

end
