(* ===== verification/AwsOrder.thy ===== *)
theory AwsOrder
  imports AwsSync
begin

text \<open>
  The order in which the AWS actuator makes its calls, and the calls of \<open>Delete\<close>: a user name is
  recorded in the request's status before anything is created under it, old access keys are
  deleted before a new one is made, and a successful \<open>Delete\<close> has removed the policy, every
  listed key and the user.
\<close>

section \<open>Names are recorded first\<close>

text \<open>
  The name is in the status the request came with, or an accepted status update among the
  calls made so far has stored it.
\<close>

definition recorded :: "env \<Rightarrow> CredentialsRequest \<Rightarrow> string \<Rightarrow> event list \<Rightarrow> bool" where
  "recorded E cr u evs \<longleftrightarrow>
     (\<exists>st. aws_DecodeProviderStatus E cr = Inr st \<and> User st = u \<and> u \<noteq> []) \<or>
     (\<exists>cr1 cr2 raw st. EvUpdateCRStatus cr1 (Inr cr2) \<in> set evs \<and>
        ProviderStatus (cr_Status cr1) = Some raw \<and>
        encode_AWSProviderStatus (codec E) st = Inr raw \<and> User st = u)"

definition names_recorded :: "env \<Rightarrow> CredentialsRequest \<Rightarrow> event \<Rightarrow> event list \<Rightarrow> bool" where
  "names_recorded E cr ev pre \<longleftrightarrow> (\<forall>c call. ev = EvIam c call \<longrightarrow> iam_mutating call \<longrightarrow>
     (\<exists>u. iam_subject call = Some u \<and> recorded E cr u pre))"

lemma recorded_mono: "recorded E cr u xs \<Longrightarrow> set xs \<subseteq> set ys \<Longrightarrow> recorded E cr u ys"
  unfolding recorded_def by blast

lemma monotone_names: "monotone_guard (names_recorded E cr)"
  unfolding monotone_guard_def names_recorded_def by (fastforce elim: recorded_mono)

lemma updateProviderStatus_records:
  assumes "fst (updateProviderStatus E cr0 st t) = Return (cr', None)"
  shows "recorded E cr (User st) (snd (updateProviderStatus E cr0 st t))"
  using assms
  by (auto simp: updateProviderStatus_def EncodeProviderStatus_def Let_def fst_bind snd_bind recorded_def
      split: sum.splits if_splits) (metis+)?

lemma mint_status_records:
  assumes dec: "aws_DecodeProviderStatus E cr = Inr st0"
    and ret: "fst (mint_status E cr st0 infraName t) = Return (cr', Inr st)"
  shows "recorded E cr (User st) (snd (mint_status E cr st0 infraName t))"
proof (cases "User st0 = []")
  case False
  with ret have "User st = User st0"
    by (auto simp: mint_status_def fst_bind Let_def split: if_splits outcome.splits option.splits)
  with dec False show ?thesis by (auto simp: recorded_def)
next
  case True
  from ret obtain u cr1 where
    u: "fst (generateUserName E infraName (cr_Name cr) t) = Return (Inr u)" and
    upd: "fst (updateProviderStatus E cr (st0\<lparr>User := u, Policy := getPolicyName u\<rparr>)
        (t @ snd (generateUserName E infraName (cr_Name cr) t))) = Return (cr1, None)" and
    st: "User st = u"
    by (auto simp: mint_status_def fst_bind snd_bind Let_def True getPolicyName_def
        split: if_splits outcome.splits option.splits sum.splits prod.splits)
  have "recorded E cr u (snd (updateProviderStatus E cr (st0\<lparr>User := u, Policy := getPolicyName u\<rparr>)
        (t @ snd (generateUserName E infraName (cr_Name cr) t))))"
    using updateProviderStatus_records [OF upd] by simp
  then show ?thesis
    unfolding st by (rule recorded_mono) (auto simp: mint_status_def snd_bind fst_bind Let_def True u upd)
qed

lemma syncMint_names: "ordered (names_recorded E cr) (syncMint E cr infraName)"
  unfolding syncMint_def
proof (rule ordered_bind [OF monotone_names])
  show "ordered (names_recorded E cr) (aws_DecodeProviderSpec E cr)"
    by (rule ordered_emits) (rule emits_aws_spec)
  fix r :: "gerror + AWSProviderSpec"
  have "ordered (names_recorded E cr) (bind_go (mint_status E cr st infraName) (\<lambda>(cr, r). case r of
       Inl err \<Rightarrow> ret (cr, Some err)
     | Inr st \<Rightarrow> bind_go (mint_rest E cr infraName spec st) (\<lambda>err. ret (cr, err))))"
    if dec: "aws_DecodeProviderStatus E cr = Inr st" for st spec
    unfolding ordered_def
  proof
    fix t
    let ?es = "snd (mint_status E cr st infraName t)"
    have quiet: "guarded (names_recorded E cr) ?es"
      using emitsD [OF emits_mint_status [of "\<lambda>ev. \<forall>pre. names_recorded E cr ev pre"]]
      by (intro guarded_all) (simp add: names_recorded_def)
    show "guarded (names_recorded E cr) (snd (bind_go (mint_status E cr st infraName) (\<lambda>(cr, r). case r of
       Inl err \<Rightarrow> ret (cr, Some err)
     | Inr st \<Rightarrow> bind_go (mint_rest E cr infraName spec st) (\<lambda>err. ret (cr, err))) t))"
    proof (cases "\<exists>cr' st'. fst (mint_status E cr st infraName t) = Return (cr', Inr st')")
      case True
      then obtain cr' st' where ret: "fst (mint_status E cr st infraName t) = Return (cr', Inr st')" by blast
      have rec: "recorded E cr (User st') ?es" by (rule mint_status_records [OF dec ret])
      have "names_recorded E cr ev (?es @ pre)"
        if "ev \<in> set (snd (mint_rest E cr' infraName spec st' t'))" for ev pre t'
        using emitsD [OF emits_mint_rest that] recorded_mono [OF rec]
        by (auto simp: names_recorded_def mint_event_def)
      then have "guarded (\<lambda>ev pre. names_recorded E cr ev (?es @ pre)) (snd (mint_rest E cr' infraName spec st' t'))" for t'
        by (intro guarded_all)
      with quiet show ?thesis by (simp add: snd_bind ret guarded_append split: outcome.splits)
    next
      case False
      with quiet show ?thesis by (auto simp: snd_bind split: outcome.splits sum.splits prod.splits)
    qed
  qed
  then show "ordered (names_recorded E cr) (case r of
       Inl err \<Rightarrow> ret (cr, Some err)
     | Inr awsSpec \<Rightarrow> case aws_DecodeProviderStatus E cr of
         Inl err \<Rightarrow> ret (cr, Some err)
       | Inr awsStatus \<Rightarrow> bind_go (mint_status E cr awsStatus infraName) (\<lambda>(cr, r). case r of
           Inl err \<Rightarrow> ret (cr, Some err)
         | Inr st \<Rightarrow> bind_go (mint_rest E cr infraName awsSpec st) (\<lambda>err. ret (cr, err))))"
    by (intro ordered_splits) simp_all
qed

text \<open>The calls of \<open>sync\<close> other than those of \<open>syncMint\<close> are reads and writes of secrets.\<close>

lemma ordered_sync:
  assumes R: "monotone_guard R" and mint: "\<And>infraName. ordered R (syncMint E cr infraName)"
    and ro: "\<And>ev pre. read_only ev \<Longrightarrow> R ev pre"
    and sec: "\<And>s r pre. R (EvCreateSecret s r) pre" "\<And>s r pre. R (EvUpdateSecret s r) pre"
  shows "ordered R (sync E cr)"
proof -
  have "ordered R (LoadInfrastructureName E)"
    by (intro ordered_emits emits_intros allI ro) simp
  moreover have "ordered R (needsUpdate E cr infraName)" for infraName
    by (intro ordered_emits emits_mono [OF emits_needsUpdate]) (simp add: ro)
  moreover have "ordered R (getCloudCredentialsSecret E)"
    unfolding getCloudCredentialsSecret_def by (intro ordered_emits emits_intros allI ro) simp
  moreover have "ordered R (syncPassthrough E cr s)" for s
    by (intro ordered_emits emits_syncPassthrough allI ro sec) simp
  ultimately show ?thesis
    unfolding sync_def Let_def by (intro ordered_bind [OF R] ordered_splits mint)
qed

text \<open>
  C5. No orphans: whenever \<open>sync\<close> makes a mutating IAM call, it is about one named user, and that
  name was in the status the request came with or has already been stored by an accepted
  status update, so a crash at any point leaves no IAM user the operator does not know about.
\<close>

theorem aws_user_recorded_before_use:
  assumes "snd (sync E cr t) = pre @ EvIam c call # post" and "iam_mutating call"
  shows "\<exists>u. iam_subject call = Some u \<and>
    ((\<exists>st. aws_DecodeProviderStatus E cr = Inr st \<and> User st = u \<and> u \<noteq> []) \<or>
     (\<exists>cr1 cr2 raw st. EvUpdateCRStatus cr1 (Inr cr2) \<in> set pre \<and>
        ProviderStatus (cr_Status cr1) = Some raw \<and>
        encode_AWSProviderStatus (codec E) st = Inr raw \<and> User st = u))"
proof -
  have "ordered (names_recorded E cr) (sync E cr)"
    by (rule ordered_sync [OF monotone_names syncMint_names]) (auto simp: names_recorded_def)
  from orderedD [OF this assms(1)] assms(2) show ?thesis
    by (simp add: names_recorded_def recorded_def)
qed

text \<open>A run of \<open>sync\<close> that mints: the target secret is missing and the user has no tags, policy or keys.\<close>

abbreviation sample_st :: AWSProviderStatus where
  "sample_st \<equiv> \<lparr>aws_status_TypeMeta = empty_TypeMeta, User = ''u'', Policy = ''u-policy''\<rparr>"

abbreviation minted_cr :: CredentialsRequest where
  "minted_cr \<equiv> sample_cr (Some minted_status)"

abbreviation root_secret :: Secret where
  "root_secret \<equiv> set_sec_Annotations (Some (fmupd AnnotationKey ''mint'' fmempty)) aws_creds_secret"

lemma rooted_get_secret [simp]:
  "k_get_secret (kube rooted_env) t n = (if n = root_creds_key then Inr root_secret else Inl not_found)"
  by (simp add: rooted_env_def)

lemma rooted_faithful: "api_faithful rooted_env"
  by (auto simp: api_faithful_def rooted_env_def sec_Key_def set_sec_Annotations_def root_creds_key_def
      rootAWSCredsSecretNamespace_def rootAWSCredsSecret_def split: if_splits)

lemma sample_keys_distinct [simp]:
  "\<lparr>nn_Namespace = ''image'', nn_Name = ''creds''\<rparr> \<noteq> root_creds_key"
  "\<lparr>nn_Namespace = roAWSCredsSecretNamespace, nn_Name = roAWSCredsSecret\<rparr> \<noteq> root_creds_key"
  "''creds'' \<noteq> roAWSCredsSecret"
  by (simp_all add: root_creds_key_def rootAWSCredsSecretNamespace_def roAWSCredsSecretNamespace_def
      roAWSCredsSecret_def)

lemma rooted_needsUpdate:
  "needsUpdate rooted_env minted_cr ''infra'' t =
     (Return (Inr True), [EvGetSecret \<lparr>nn_Namespace = ''image'', nn_Name = ''creds''\<rparr> (Inl not_found)])"
  by (simp add: needsUpdate_def Exists_def try_go_def prod_eq_iff fst_bind snd_bind)

lemma rooted_cloud:
  "getCloudCredentialsSecret rooted_env t = (Return (Inr root_secret), [EvGetSecret root_creds_key (Inr root_secret)])"
  by (simp add: getCloudCredentialsSecret_def bind_request_apply isSecretAnnotated_def set_sec_Annotations_def)

lemma rooted_read:
  "buildReadAWSClient rooted_env minted_cr ''infra'' t = (Return (Inr root_cl),
     [EvGetSecret \<lparr>nn_Namespace = roAWSCredsSecretNamespace, nn_Name = roAWSCredsSecret\<rparr> (Inl not_found),
      EvGetSecret root_creds_key (Inr root_secret)])"
  by (simp add: buildReadAWSClient_def prod_eq_iff fst_bind snd_bind LoadCredsFromSecret_apply Let_def
      sample_cr_def)

lemma rooted_user:
  "mint_user rooted_env (Some root_cl) root_cl ''u'' t =
     (Return (Inr (Some (sample_user ''u''))), [EvIam root_cl (GetUser (Some ''u'') (Inr (Some (sample_user ''u''))))])"
  by (simp add: mint_user_def awsClient_defs bind_request_apply)

lemma rooted_uuid [simp]: "k_get_clusterversion (kube rooted_env) t n = Inr ''id''"
  by (simp add: rooted_env_def)

lemma rooted_tags:
  "mint_tags rooted_env (Some root_cl) ''u'' ''infra'' (Some (sample_user ''u'')) t =
     (Return (Inr ()), [EvGetClusterVersion clusterVersionObjectName (Inr ''id''),
       EvIam root_cl (TagUser ''u'' (expected_tags ''infra'' ''id'') None)])"
  by (simp add: mint_tags_def loadClusterUUID_def try_go_def bind_request_apply userHasExpectedTags_def
      userHasTag_def sample_user_def tagUser_def awsClient_defs)

lemma desired_policy_nonempty [simp]: "getDesiredUserPolicy es arn \<noteq> []" "[] \<noteq> getDesiredUserPolicy es arn"
  by (simp_all add: getDesiredUserPolicy_def json_Marshal_def)

lemma rooted_policy:
  "mint_policy rooted_env (Some root_cl) root_cl spec sample_st (Some (sample_user ''u'')) t =
     (let d = getDesiredUserPolicy (StatementEntries spec) ''arn:aws:iam::1:user/u'' in
      (Return (Inr d), [EvIam root_cl (GetUserPolicy ''u'' ''u-policy'' (Inl (AwsError ''NoSuchEntity'' ''no policy''))),
         EvIam root_cl (PutUserPolicy ''u'' ''u-policy'' d None)]))"
  by (simp add: mint_policy_def awsPolicyEqualsDesiredPolicy_def getCurrentUserPolicy_def setUserPolicy_def
      awsClient_defs sample_user_def try_go_def bind_request_apply prod_eq_iff fst_bind snd_bind Let_def
      ErrCodeNoSuchEntityException_def)

abbreviation new_key :: iam_AccessKey where
  "new_key \<equiv> \<lparr>ak_AccessKeyId = Some ''AKIA'', ak_SecretAccessKey = Some ''s3cr3t''\<rparr>"

lemma rooted_key:
  "mint_key rooted_env (Some root_cl) root_cl minted_cr ''u'' t =
     (Return (Inr (empty_Secret, ''AKIA'', ''s3cr3t'')),
      [EvIam root_cl (ListAccessKeys ''u'' (Inr [Some ''OLD''])),
       EvGetSecret \<lparr>nn_Namespace = ''image'', nn_Name = ''creds''\<rparr> (Inl not_found),
       EvIam root_cl (DeleteAccessKey ''u'' (Some ''OLD'') None),
       EvIam root_cl (CreateAccessKey ''u'' (Inr (Some new_key)))])"
  by (simp add: mint_key_def choose_key_def generate_key_def createAccessKey_def loadExistingSecret_def
      accessKeyExists_def empty_Secret_def empty_ObjectMeta_def awsClient_defs try_go_def bind_request_apply
      prod_eq_iff fst_bind snd_bind)

lemma rooted_sync_calls:
  "{EvIam root_cl (TagUser ''u'' (expected_tags ''infra'' ''id'') None),
    EvIam root_cl (CreateAccessKey ''u'' (Inr (Some new_key)))} \<subseteq> set (snd (sync rooted_env minted_cr []))"
proof -
  have mode: "map_get_str (sec_Annotations root_secret) AnnotationKey = MintAnnotation"
    by (simp add: map_get_str_def set_sec_Annotations_def MintAnnotation_def)
  have spec: "aws_DecodeProviderSpec rooted_env minted_cr t = (Return (Inr \<lparr>aws_spec_TypeMeta = empty_TypeMeta,
      StatementEntries = [\<lparr>se_Effect = ''Allow'', se_Action = Some [''s3:*''], se_Resource = ''*''\<rparr>]\<rparr>), [])" for t
    by (simp add: aws_DecodeProviderSpec_def DecodeProviderSpec_def sample_cr_def sample_codec_def
        prod_eq_iff fst_bind snd_bind)
  have status: "mint_status rooted_env minted_cr sample_st ''infra'' t = (Return (minted_cr, Inr sample_st), [])" for t
    by (simp add: mint_status_def)
  show ?thesis
    by (simp add: sync_def snd_bind fst_bind rooted_needsUpdate rooted_cloud mode Let_def syncMint_def spec
        status mint_rest_def mint_steps_def try_go_def rooted_read rooted_user rooted_tags rooted_policy rooted_key)
qed

theorem aws_user_recorded_before_use_witness:
  "\<exists>pre post. snd (sync rooted_env minted_cr []) =
      pre @ EvIam root_cl (TagUser ''u'' (expected_tags ''infra'' ''id'') None) # post \<and>
    (\<exists>u. iam_subject (TagUser ''u'' (expected_tags ''infra'' ''id'') None) = Some u \<and>
      ((\<exists>st. aws_DecodeProviderStatus rooted_env minted_cr = Inr st \<and> User st = u \<and> u \<noteq> []) \<or>
       (\<exists>cr1 cr2 raw st. EvUpdateCRStatus cr1 (Inr cr2) \<in> set pre \<and>
          ProviderStatus (cr_Status cr1) = Some raw \<and>
          encode_AWSProviderStatus (codec rooted_env) st = Inr raw \<and> User st = u)))"
proof -
  from rooted_sync_calls obtain pre post where
    "snd (sync rooted_env minted_cr []) =
       pre @ EvIam root_cl (TagUser ''u'' (expected_tags ''infra'' ''id'') None) # post"
    by (meson insert_subset split_list)
  with aws_user_recorded_before_use [OF this] show ?thesis
    by (intro exI [of _ pre] exI [of _ post] conjI) simp_all
qed

section \<open>Access keys\<close>

text \<open>A new key is asked for only after the listed ones have been deleted.\<close>

definition keys_replaced :: "event \<Rightarrow> event list \<Rightarrow> bool" where
  "keys_replaced ev pre \<longleftrightarrow> (\<forall>c u r. ev = EvIam c (CreateAccessKey u r) \<longrightarrow>
     (\<exists>pre1 c' ks mid. pre = pre1 @ EvIam c' (ListAccessKeys u (Inr ks)) # mid \<and>
        (\<forall>k \<in> set ks. EvIam c (DeleteAccessKey u k None) \<in> set mid)))"

lemma monotone_keys: "monotone_guard keys_replaced"
  unfolding monotone_guard_def keys_replaced_def by (metis append.assoc)

lemma monotone_keys_after: "monotone_guard (\<lambda>ev pre. keys_replaced ev (L # pre))"
  unfolding monotone_guard_def
proof (intro allI impI)
  fix ev pre pre'
  assume "keys_replaced ev (L # pre)"
  then show "keys_replaced ev (L # pre' @ pre)"
    unfolding keys_replaced_def
  proof (intro allI impI)
    fix c u r
    assume R: "\<forall>c u r. ev = EvIam c (CreateAccessKey u r) \<longrightarrow>
       (\<exists>pre1 c' ks mid. L # pre = pre1 @ EvIam c' (ListAccessKeys u (Inr ks)) # mid \<and>
          (\<forall>k \<in> set ks. EvIam c (DeleteAccessKey u k None) \<in> set mid))"
      and "ev = EvIam c (CreateAccessKey u r)"
    then obtain pre1 c' ks mid where eq: "L # pre = pre1 @ EvIam c' (ListAccessKeys u (Inr ks)) # mid"
      and del: "\<forall>k \<in> set ks. EvIam c (DeleteAccessKey u k None) \<in> set mid" by blast
    show "\<exists>pre1 c' ks mid. L # pre' @ pre = pre1 @ EvIam c' (ListAccessKeys u (Inr ks)) # mid \<and>
          (\<forall>k \<in> set ks. EvIam c (DeleteAccessKey u k None) \<in> set mid)"
    proof (cases pre1)
      case Nil
      with eq del show ?thesis by (intro exI [of _ "[]"] exI [of _ c'] exI [of _ ks] exI [of _ "pre' @ pre"]) auto
    next
      case (Cons x xs)
      with eq del show ?thesis
        by (intro exI [of _ "L # pre' @ xs"] exI [of _ c'] exI [of _ ks] exI [of _ mid]) auto
    qed
  qed
qed

lemma deleteAll_calls:
  "fst (deleteAllAccessKeys E c u ks t) = Return None \<Longrightarrow>
     snd (deleteAllAccessKeys E c u ks t) = map (\<lambda>k. EvIam c (DeleteAccessKey u k None)) ks"
proof (induction ks arbitrary: t)
  case (Cons k ks)
  then show ?case
    by (cases k) (auto simp: deleteAllAccessKeys.simps(2) awsClient_DeleteAccessKey_def fst_bind snd_bind
        bind_request_apply split: option.splits)
qed simp

lemma generate_key_ordered:
  "ordered (\<lambda>ev pre. keys_replaced ev (EvIam c' (ListAccessKeys u (Inr ks)) # pre)) (generate_key E root u ks)"
  unfolding generate_key_def
proof (intro ordered_splits)
  fix c
  let ?R = "\<lambda>ev pre. keys_replaced ev (EvIam c' (ListAccessKeys u (Inr ks)) # pre)"
  let ?create = "try_go (createAccessKey E c u) (\<lambda>accessKey.
              bind_go (deref (ak_AccessKeyId accessKey)) (\<lambda>accessKeyString.
              bind_go (deref (ak_SecretAccessKey accessKey)) (\<lambda>secretAccessKeyString.
              ret (Inr (accessKeyString, secretAccessKeyString)))))"
  show "ordered ?R (bind_go (deleteAllAccessKeys E c u ks) (\<lambda>err. case err of
            None \<Rightarrow> ?create | Some e \<Rightarrow> ret (Inl e)))"
    unfolding ordered_def
  proof
    fix t
    let ?es = "snd (deleteAllAccessKeys E c u ks t)"
    have "emits (\<lambda>ev. \<forall>pre. ?R ev pre) (deleteAllAccessKeys E c u ks)"
      by (intro emits_intros) (simp add: keys_replaced_def)
    then have del: "guarded ?R ?es" by (blast intro: guarded_all dest: emitsD)
    have create: "emits (\<lambda>ev. \<exists>r. ev = EvIam c (CreateAccessKey u r)) ?create"
      by (intro emits_intros) auto
    show "guarded ?R (snd (bind_go (deleteAllAccessKeys E c u ks) (\<lambda>err. case err of
            None \<Rightarrow> ?create | Some e \<Rightarrow> ret (Inl e)) t))"
    proof (cases "fst (deleteAllAccessKeys E c u ks t)")
      case (Return err)
      have "guarded (\<lambda>ev pre. ?R ev (?es @ pre)) (snd (?create t'))" if "err = None" for t'
      proof (rule guarded_all)
        fix ev pre
        assume "ev \<in> set (snd (?create t'))"
        from emitsD [OF create this] obtain r where ev: "ev = EvIam c (CreateAccessKey u r)" ..
        show "?R ev (?es @ pre)"
          using deleteAll_calls [of E c u ks t] Return that
          by (auto simp: keys_replaced_def ev intro!: exI [of _ "[]"])
      qed
      with del Return show ?thesis by (cases err) (simp_all add: snd_bind guarded_append)
    qed (use del in \<open>simp add: snd_bind\<close>)
  qed
qed

lemma mint_key_ordered: "ordered keys_replaced (mint_key E root read cr u)"
proof -
  have "ordered (\<lambda>ev pre. keys_replaced ev (EvIam read (ListAccessKeys u (Inr ks)) # pre))
      (choose_key E root cr u ks)" for ks
    unfolding choose_key_def
  proof (rule ordered_bind [OF monotone_keys_after])
    show "ordered (\<lambda>ev pre. keys_replaced ev (EvIam read (ListAccessKeys u (Inr ks)) # pre)) (loadExistingSecret E cr)"
      by (intro ordered_emits emits_intros) (simp add: keys_replaced_def)
  qed (intro ordered_splits ordered_bind [OF monotone_keys_after] ordered_try [OF monotone_keys_after]
      generate_key_ordered ordered_emits [OF emits_accessKeyExists])
  then have "guarded keys_replaced (EvIam read (ListAccessKeys u (Inr ks)) # snd (choose_key E root cr u ks t))" for ks t
    using guarded_append [of keys_replaced "[EvIam read (ListAccessKeys u (Inr ks))]" "snd (choose_key E root cr u ks t)"]
      guarded_all [of "[EvIam read (ListAccessKeys u (Inr ks))]" keys_replaced]
    by (simp add: ordered_def) (simp add: keys_replaced_def)
  then show ?thesis
    unfolding ordered_def mint_key_def try_go_def awsClient_ListAccessKeys_def bind_request_apply
    by (auto intro: guarded_all simp: keys_replaced_def split: sum.split)
qed

lemma syncMint_keys: "ordered keys_replaced (syncMint E cr infraName)"
proof -
  note quiet = ordered_emits [of keys_replaced]
  have "ordered keys_replaced (mint_steps E root cr infraName spec st)" for cr root spec st
  proof -
    have "ordered keys_replaced (buildReadAWSClient E cr infraName)"
      by (intro quiet emits_intros) (simp_all add: keys_replaced_def)
    moreover have "ordered keys_replaced (mint_user E root read u)" for read u
      unfolding mint_user_def awsClient_GetUser_def by (intro quiet emits_intros) (simp_all add: keys_replaced_def)
    moreover have "ordered keys_replaced (mint_tags E root u infraName userOut)" for u userOut
      unfolding mint_tags_def loadClusterUUID_def by (intro quiet emits_intros) (simp_all add: keys_replaced_def)
    moreover have "ordered keys_replaced (mint_policy E root read spec st userOut)" for read userOut
      unfolding mint_policy_def Let_def by (intro quiet emits_intros) (simp_all add: keys_replaced_def)
    moreover have "ordered keys_replaced (syncAccessKeySecret E cr k v s p)" for k v s p
      by (intro quiet emits_syncAccessKeySecret) (simp_all add: keys_replaced_def)
    ultimately show ?thesis
      unfolding mint_steps_def
      by (intro ordered_try [OF monotone_keys] ordered_bind [OF monotone_keys] ordered_splits mint_key_ordered)
  qed
  moreover have "ordered keys_replaced (buildRootAWSClient E infraName)"
    by (intro quiet emits_intros) (simp add: keys_replaced_def)
  ultimately have "ordered keys_replaced (mint_rest E cr infraName spec st)" for cr spec st
    unfolding mint_rest_def Let_def by (intro ordered_bind [OF monotone_keys] ordered_splits)
  moreover have "ordered keys_replaced (mint_status E cr st infraName)" for st
    by (intro quiet emits_intros) (simp_all add: keys_replaced_def)
  moreover have "ordered keys_replaced (aws_DecodeProviderSpec E cr)"
    by (rule quiet) (rule emits_aws_spec)
  ultimately show ?thesis
    unfolding syncMint_def by (intro ordered_bind [OF monotone_keys] ordered_splits)
qed

text \<open>
  C28. Rotation: whenever \<open>sync\<close> creates an access key for a user, it has listed the user's keys
  before, and after that listing it has successfully deleted every key on the list with the
  same client. So a user never collects keys and the limit of two is not in the way.
\<close>

theorem aws_old_keys_deleted_first:
  assumes "snd (sync E cr t) = pre @ EvIam c (CreateAccessKey u r) # post"
  shows "\<exists>pre1 c' ks mid. pre = pre1 @ EvIam c' (ListAccessKeys u (Inr ks)) # mid \<and>
    (\<forall>k \<in> set ks. EvIam c (DeleteAccessKey u k None) \<in> set mid)"
proof -
  have "ordered keys_replaced (sync E cr)"
    by (rule ordered_sync [OF monotone_keys syncMint_keys]) (auto simp: keys_replaced_def)
  from orderedD [OF this assms] show ?thesis by (simp add: keys_replaced_def)
qed

theorem aws_old_keys_deleted_first_witness:
  "\<exists>pre post. snd (sync rooted_env minted_cr []) =
      pre @ EvIam root_cl (CreateAccessKey ''u'' (Inr (Some new_key))) # post \<and>
    (\<exists>pre1 c' ks mid. pre = pre1 @ EvIam c' (ListAccessKeys ''u'' (Inr ks)) # mid \<and>
      (\<forall>k \<in> set ks. EvIam root_cl (DeleteAccessKey ''u'' k None) \<in> set mid))"
proof -
  from rooted_sync_calls obtain pre post where
    "snd (sync rooted_env minted_cr []) = pre @ EvIam root_cl (CreateAccessKey ''u'' (Inr (Some new_key))) # post"
    by (meson insert_subset split_list)
  with aws_old_keys_deleted_first [OF this] show ?thesis by blast
qed

section \<open>Deletion\<close>

text \<open>IAM has answered that the entity is gone, or that it has now been removed.\<close>

definition gone :: "gerror option \<Rightarrow> bool" where
  "gone r \<longleftrightarrow> r = None \<or> (\<exists>text. r = Some (AwsError ErrCodeNoSuchEntityException text))"

text \<open>
  The calls with client \<open>c\<close> that end a successful \<open>Delete\<close>: IAM does not know the user, or it lists
  the user's keys, they are deleted one after the other, and then the user is.
\<close>

definition user_removal :: "awsClient \<Rightarrow> string \<Rightarrow> event list \<Rightarrow> bool" where
  "user_removal c u es \<longleftrightarrow>
     (\<exists>text. es = [EvIam c (ListAccessKeys u (Inl (AwsError ErrCodeNoSuchEntityException text)))]) \<or>
     (\<exists>ks d. gone d \<and> es = EvIam c (ListAccessKeys u (Inr ks)) #
        map (\<lambda>k. EvIam c (DeleteAccessKey u k None)) ks @ [EvIam c (DeleteUser u d)])"

lemma delete_user_post:
  "post_go (delete_user E c st) (\<lambda>err es. err = None \<longrightarrow> (\<exists>d. gone d \<and> es = [EvIam c (DeleteUser (User st) d)]))"
  unfolding delete_user_def awsClient_DeleteUser_def
  by (auto simp: post_go_def bind_request_apply gone_def split: option.splits gerror.splits)

lemma delete_policy_post:
  "post_go (delete_policy E c st) (\<lambda>r es. \<forall>x. r = Inr x \<longrightarrow>
     (\<exists>p. gone p \<and> es = [EvIam c (DeleteUserPolicy (User st) (Policy st) p)]))"
  unfolding delete_policy_def awsClient_DeleteUserPolicy_def
  by (auto simp: post_go_def bind_request_apply gone_def split: option.splits gerror.splits)

lemma delete_keys_post:
  "post_go (bind_go (deleteAllAccessKeys E c (User st) ks) (\<lambda>err. case err of
        Some e \<Rightarrow> ret (Some e) | None \<Rightarrow> delete_user E c st))
     (\<lambda>err es. err = None \<longrightarrow> (\<exists>d. gone d \<and>
        es = map (\<lambda>k. EvIam c (DeleteAccessKey (User st) k None)) ks @ [EvIam c (DeleteUser (User st) d)]))"
proof -
  have "post_go (deleteAllAccessKeys E c (User st) ks) (\<lambda>err es. err = None \<longrightarrow>
      es = map (\<lambda>k. EvIam c (DeleteAccessKey (User st) k None)) ks)"
    by (simp add: post_go_def deleteAll_calls)
  then show ?thesis
    by (rule post_bind) (auto intro!: post_splits post_ret post_weaken [OF delete_user_post])
qed

lemma delete_listed_post:
  "post_go (bind_go (awsClient_ListAccessKeys E c (User st)) (\<lambda>r. case r of
        Inl (AwsError code text) \<Rightarrow>
          if code = ErrCodeNoSuchEntityException then ret None else ret (Some (formatAWSErr code text))
      | Inl err \<Rightarrow> ret (Some err)
      | Inr ks \<Rightarrow> bind_go (deleteAllAccessKeys E c (User st) ks) (\<lambda>err. case err of
          Some e \<Rightarrow> ret (Some e) | None \<Rightarrow> delete_user E c st)))
     (\<lambda>err es. err = None \<longrightarrow> user_removal c (User st) es)"
proof -
  have "post_go (awsClient_ListAccessKeys E c (User st)) (\<lambda>r es. es = [EvIam c (ListAccessKeys (User st) r)])"
    by (simp add: awsClient_ListAccessKeys_def post_request)
  then show ?thesis
    by (rule post_bind)
      (auto intro!: post_splits post_ret post_weaken [OF delete_keys_post] simp: user_removal_def
        split: gerror.split)
qed

lemma Delete_post:
  assumes st: "aws_DecodeProviderStatus E cr = Inr st" "User st \<noteq> []"
  shows "post_go (Delete E cr) (\<lambda>err es. err = None \<longrightarrow> (\<exists>c p pre post. root_client E c \<and> gone p \<and>
     es = pre @ EvIam c (DeleteUserPolicy (User st) (Policy st) p) # post \<and>
     (\<forall>ev \<in> set pre. read_only ev) \<and> user_removal c (User st) post))"
proof -
  have infra: "post_go (LoadInfrastructureName E) (\<lambda>_ es. \<forall>ev \<in> set es. read_only ev)"
    by (intro post_emits emits_intros) simp
  have root: "post_go (buildRootAWSClient E i) (\<lambda>r es. (\<forall>c. r = Inr c \<longrightarrow> root_client E c) \<and> (\<forall>ev \<in> set es. read_only ev))" for i
    by (intro post_conj [OF post_yields [OF buildRootAWSClient_yields]] post_emits emits_intros) simp
  show ?thesis
    unfolding Delete_def st(1) sum.case if_not_P [OF st(2)]
    apply (rule post_bind [OF infra], intro post_splits post_ret, simp)
    apply (rule post_bind [OF root], intro post_splits post_ret, simp)
    apply (rule post_bind [OF delete_policy_post], intro post_splits post_ret, simp)
    apply (rule post_weaken [OF delete_listed_post])
    subgoal for infraName pre1 i r pre2 c r' es x err post
      apply clarsimp
      subgoal for p by (intro exI [of _ c] exI [of _ p] exI [of _ "pre1 @ pre2"] exI [of _ post] conjI) auto
      done
    done
qed

text \<open>
  C19. A successful \<open>Delete\<close> has cleaned up, in order: for a request that has a user, its calls are
  reads, then the deletion of the user's policy, which IAM confirms (or says was gone already),
  then either an answer that the user itself does not exist, or the listing of the user's
  access keys, the successful deletion of every listed key, and only after them the deletion of
  the user, confirmed in the same way. All with one client holding the root keys, and without a
  write in the cluster.
\<close>

theorem aws_delete_cleans_up:
  assumes st: "aws_DecodeProviderStatus E cr = Inr st" "User st \<noteq> []"
    and run: "Delete E cr t = (Return None, es)"
  shows "\<exists>c p pre post. root_client E c \<and> gone p \<and> (\<forall>ev \<in> set pre. read_only ev) \<and>
    es = pre @ EvIam c (DeleteUserPolicy (User st) (Policy st) p) # post \<and>
    ((\<exists>text. post = [EvIam c (ListAccessKeys (User st) (Inl (AwsError ErrCodeNoSuchEntityException text)))]) \<or>
     (\<exists>ks d. gone d \<and> post = EvIam c (ListAccessKeys (User st) (Inr ks)) #
        map (\<lambda>k. EvIam c (DeleteAccessKey (User st) k None)) ks @ [EvIam c (DeleteUser (User st) d)]))"
proof -
  from run have "fst (Delete E cr t) = Return None" "snd (Delete E cr t) = es" by simp_all
  with postD [OF Delete_post [OF st]] show ?thesis unfolding user_removal_def by blast
qed

theorem aws_delete_cleans_up_witness:
  "\<exists>c p pre post. root_client rooted_env c \<and> gone p \<and> list_all read_only pre \<and>
    snd (Delete rooted_env minted_cr []) = pre @ EvIam c (DeleteUserPolicy ''u'' ''u-policy'' p) # post \<and>
    (\<exists>ks d. gone d \<and> post = EvIam c (ListAccessKeys ''u'' (Inr ks)) #
        map (\<lambda>k. EvIam c (DeleteAccessKey ''u'' k None)) ks @ [EvIam c (DeleteUser ''u'' d)])"
proof -
  let ?es = "snd (Delete rooted_env minted_cr [])"
  have run: "Delete rooted_env minted_cr [] = (Return None, ?es)" by (simp add: rooted_delete)
  have last: "last ?es = EvIam root_cl (DeleteUser ''u'' None)" by (simp add: rooted_delete)
  have "aws_DecodeProviderStatus rooted_env minted_cr = Inr sample_st" by (simp add: minted_decodes)
  from aws_delete_cleans_up [OF this _ run] obtain c p pre post where parts: "root_client rooted_env c" "gone p"
    "\<forall>ev \<in> set pre. read_only ev" "?es = pre @ EvIam c (DeleteUserPolicy ''u'' ''u-policy'' p) # post"
    and cases: "(\<exists>text. post = [EvIam c (ListAccessKeys ''u'' (Inl (AwsError ErrCodeNoSuchEntityException text)))]) \<or>
     (\<exists>ks d. gone d \<and> post = EvIam c (ListAccessKeys ''u'' (Inr ks)) #
        map (\<lambda>k. EvIam c (DeleteAccessKey ''u'' k None)) ks @ [EvIam c (DeleteUser ''u'' d)])"
    by (simp only: AWSProviderStatus.simps) blast
  from cases have "\<nexists>text. post = [EvIam c (ListAccessKeys ''u'' (Inl (AwsError ErrCodeNoSuchEntityException text)))]"
    using last parts(4) by auto
  with cases parts show ?thesis unfolding list_all_iff by blast
qed

end
