(* ===== verification/AwsModes.thy ===== *)
theory AwsModes
  imports AwsOrder
begin

text \<open>
  What the AWS actuator does in each mode: nothing for a request that is settled, an error and no
  write with insufficient credentials, a copy of the root keys in passthrough mode, and in mint
  mode a target secret that holds a live key. Also the one way minting can panic against a
  well-behaved IAM.
\<close>

section \<open>Credentials that do not suffice\<close>

lemma getCloud_annotated:
  assumes "k_get_secret (kube E) t root_creds_key = Inr s" "map_get (sec_Annotations s) AnnotationKey = Some mode"
  shows "getCloudCredentialsSecret E t = (Return (Inr s), [EvGetSecret root_creds_key (Inr s)])"
  using assms
  by (auto simp: getCloudCredentialsSecret_def bind_request_apply isSecretAnnotated_def map_get_def split: option.splits)

lemma sync_insufficient:
  assumes infra: "LoadInfrastructureName E t = (Return (Inr infraName), e1)"
    and needed: "needsUpdate E cr infraName (t @ e1) = (Return (Inr True), e2)"
    and root: "k_get_secret (kube E) (t @ e1 @ e2) root_creds_key = Inr s"
    and mode: "map_get (sec_Annotations s) AnnotationKey = Some InsufficientAnnotation"
  shows "(\<exists>msg. fst (sync E cr t) = Return (cr, Some (ActuatorError InsufficientCloudCredentials msg))) \<and>
    (\<forall>ev \<in> set (snd (sync E cr t)). read_only ev)"
proof -
  have cloud: "getCloudCredentialsSecret E (t @ e1 @ e2) = (Return (Inr s), [EvGetSecret root_creds_key (Inr s)])"
    by (rule getCloud_annotated [OF root mode])
  have "\<forall>ev \<in> set e1. read_only ev"
    using infra by (auto simp: LoadInfrastructureName_def try_go_def bind_request_apply split: sum.splits)
  moreover have "\<forall>ev \<in> set e2. read_only ev"
    using emitsD [OF emits_needsUpdate] needed by (metis snd_conv)
  ultimately show ?thesis
    using mode by (simp add: sync_def fst_bind snd_bind infra needed cloud map_get_str_def Let_def ball_Un)
qed

text \<open>
  When the root credentials are annotated \<open>insufficient\<close> and there is work to do, \<open>sync\<close> fails
  with an actuator error whose reason is the condition \<open>InsufficientCloudCreds\<close>, leaves the request
  alone, and has not written anything anywhere.
\<close>

theorem aws_insufficient_fails_cleanly:
  assumes infra: "LoadInfrastructureName E t = (Return (Inr infraName), e1)"
    and needed: "needsUpdate E cr infraName (t @ e1) = (Return (Inr True), e2)"
    and root: "k_get_secret (kube E) (t @ e1 @ e2) root_creds_key = Inr s"
    and mode: "map_get (sec_Annotations s) AnnotationKey = Some InsufficientAnnotation"
  shows "(\<exists>msg. fst (sync E cr t) = Return (cr, Some (ActuatorError InsufficientCloudCredentials msg))) \<and>
    (\<forall>ev \<in> set (snd (sync E cr t)). read_only ev)"
  by (rule sync_insufficient [OF assms])

theorem aws_insufficient_fails_cleanly_witness:
  "\<exists>msg. fst (sync (rooted_env\<lparr>kube := (kube rooted_env)\<lparr>k_get_secret := \<lambda>t n.
        if n = root_creds_key then Inr (set_sec_Annotations (Some (fmupd AnnotationKey InsufficientAnnotation fmempty)) aws_creds_secret)
        else Inl not_found\<rparr>\<rparr>) (sample_cr None) []) =
      Return (sample_cr None, Some (ActuatorError InsufficientCloudCredentials msg))"
proof -
  let ?s = "set_sec_Annotations (Some (fmupd AnnotationKey InsufficientAnnotation fmempty)) aws_creds_secret"
  let ?E = "rooted_env\<lparr>kube := (kube rooted_env)\<lparr>k_get_secret := \<lambda>t n.
        if n = root_creds_key then Inr ?s else Inl not_found\<rparr>\<rparr>"
  have "LoadInfrastructureName ?E [] = (Return (Inr ''infra''),
     [EvGetInfrastructure ''cluster'' (Inr \<lparr>InfrastructureName = ''infra'', Platform = ''AWS''\<rparr>)])"
    by (simp add: LoadInfrastructureName_def try_go_def bind_request_apply rooted_env_def)
  moreover have "needsUpdate ?E (sample_cr None) ''infra'' t = (Return (Inr True), [])" for t
    by (simp add: needsUpdate_def Exists_def aws_DecodeProviderStatus_def sample_cr_def empty_AWSProviderStatus_def)
  moreover have "k_get_secret (kube ?E) t root_creds_key = Inr ?s" for t by simp
  moreover have "map_get (sec_Annotations ?s) AnnotationKey = Some InsufficientAnnotation"
    by (simp add: set_sec_Annotations_def)
  ultimately show ?thesis using aws_insufficient_fails_cleanly by blast
qed

section \<open>Passthrough\<close>

lemma syncAccessKeySecret_create:
  assumes "sec_Name s = []" "k \<noteq> []" "v \<noteq> []"
  shows "syncAccessKeySecret E cr k v s p t = (let s' = new_target_secret cr k v p; r = k_create_secret (kube E) t s'
     in (Return r, [EvCreateSecret s' r]))"
  using assms by (simp add: syncAccessKeySecret_def Let_def)

text \<open>The target secret after an update: two annotations and, with a new key, two data entries.\<close>

definition updated_target :: "CredentialsRequest \<Rightarrow> string \<Rightarrow> string \<Rightarrow> string \<Rightarrow> Secret \<Rightarrow> (string, string) fmap \<Rightarrow> Secret" where
  "updated_target cr k v p s m = (set_sec_Annotations (Some (fmupd AnnotationAWSPolicyLastApplied p
       (fmupd AnnotationCredentialsRequest (cr_ref cr)
         (case sec_Annotations s of None \<Rightarrow> fmempty | Some a \<Rightarrow> a)))) s)\<lparr>
     sec_Data := Some (fmupd ''aws_secret_access_key'' v (fmupd ''aws_access_key_id'' k m))\<rparr>"

lemma syncAccessKeySecret_update:
  assumes "sec_Name s \<noteq> []" "k \<noteq> []" "v \<noteq> []" "sec_Data s = Some m"
  shows "syncAccessKeySecret E cr k v s p t = (let s' = updated_target cr k v p s m in
     if s' = s then (Return None, [])
     else let r = k_update_secret (kube E) t s'
     in (Return (map_option (\<lambda>_. ActuatorError CredentialsProvisionFailure ''error updating secret'') r), [EvUpdateSecret s' r]))"
  using assms
  by (auto simp: syncAccessKeySecret_def set_key_data_def updated_target_def set_sec_Annotations_def Let_def
      bind_request_apply prod_eq_iff fst_bind snd_bind split: option.splits)

lemma updated_target_for:
  assumes "sec_Key s = target_key cr"
  shows "for_request cr (updated_target cr k v p s m)" "secret_keys (updated_target cr k v p s m) = Some (k, v)"
  using assms by (simp_all add: for_request_def updated_target_def set_sec_Annotations_def sec_Key_def secret_keys_def
      awsCredsSecretIDKey_def awsCredsSecretAccessKey_def)

lemma new_target_keys: "secret_keys (new_target_secret cr k v p) = Some (k, v)"
  by (simp add: secret_keys_def new_target_secret_def awsCredsSecretIDKey_def awsCredsSecretAccessKey_def)

lemma syncAccessKeySecret_new_key:
  assumes "k \<noteq> []" "v \<noteq> []" "read_target cr s"
  shows "post_go (syncAccessKeySecret E cr k v s p) (\<lambda>err es. err = None \<longrightarrow>
     (\<exists>s'. secret_keys s' = Some (k, v) \<and> for_request cr s' \<and>
       (es = [EvCreateSecret s' None] \<or> es = [EvUpdateSecret s' None] \<or> es = [] \<and> s' = s \<and> sec_Name s \<noteq> [])))"
proof (cases "sec_Name s = []")
  case True
  then show ?thesis
    using new_target_keys new_target_secret_for
    by (auto simp: post_go_def syncAccessKeySecret_create [OF True assms(1,2)] Let_def)
next
  case False
  with assms(3) have key: "sec_Key s = target_key cr" by (simp add: read_target_def)
  show ?thesis
  proof (cases "sec_Data s")
    case None
    with False assms show ?thesis
      by (simp add: post_go_def syncAccessKeySecret_def set_key_data_def set_sec_Annotations_def Let_def fst_bind)
  next
    case (Some m)
    show ?thesis
      using updated_target_for(1) [OF key, of k v p m] updated_target_for(2) [OF key, of k v p m]
      by (auto simp: post_go_def syncAccessKeySecret_update [OF False assms(1,2) Some] Let_def False)
  qed
qed

lemma loadExisting_post:
  "post_go (loadExistingSecret E cr) (\<lambda>x es. \<exists>r. es = [EvGetSecret (target_key cr) r] \<and>
     fst x = (case r of Inl _ \<Rightarrow> empty_Secret | Inr s \<Rightarrow> s) \<and>
     fst (snd x) = map_get_str (sec_Data (fst x)) ''aws_access_key_id'')"
  unfolding loadExistingSecret_def
  by (auto simp: post_go_def bind_request_apply empty_Secret_def map_get_str_def split: sum.splits)

text \<open>The calls that write or leave the target secret so that it is \<open>s\<close>, after a read with the answer \<open>r\<close>.\<close>

definition left_as :: "Secret \<Rightarrow> gerror + Secret \<Rightarrow> event list \<Rightarrow> bool" where
  "left_as s r es \<longleftrightarrow> es = [EvCreateSecret s None] \<or> es = [EvUpdateSecret s None] \<or> es = [] \<and> r = Inr s"

lemma found_by_name:
  "s = (case r of Inl _ \<Rightarrow> empty_Secret | Inr s \<Rightarrow> s) \<Longrightarrow> sec_Name s \<noteq> [] \<Longrightarrow> r = Inr s"
  by (auto simp: empty_Secret_def empty_ObjectMeta_def split: sum.splits)

lemma syncPassthrough_post:
  assumes "api_faithful E" and keys: "secret_keys root = Some (k, v)" "k \<noteq> []" "v \<noteq> []"
  shows "post_go (syncPassthrough E cr root) (\<lambda>err es. err = None \<longrightarrow> (\<exists>r w s.
     es = EvGetSecret (target_key cr) r # w \<and> left_as s r w \<and> secret_keys s = Some (k, v) \<and> for_request cr s))"
proof -
  have kv: "map_get_str (sec_Data root) AwsAccessKeyName = k" "map_get_str (sec_Data root) AwsSecretAccessKeyName = v"
    using keys(1) by (auto simp: secret_keys_def map_get_str_def AwsAccessKeyName_def AwsSecretAccessKeyName_def
        awsCredsSecretIDKey_def awsCredsSecretAccessKey_def split: option.splits)
  show ?thesis
    unfolding syncPassthrough_def kv Let_def
  proof (rule post_bind [OF post_conj [OF loadExisting_post post_yields [OF loadExisting_target [OF assms(1)]]]],
      rule post_case_prod, rule post_case_prod)
    fix x es s y k0 z
    assume "(\<exists>r. es = [EvGetSecret (target_key cr) r] \<and> fst x = (case r of Inl _ \<Rightarrow> empty_Secret | Inr s \<Rightarrow> s) \<and>
      fst (snd x) = map_get_str (sec_Data (fst x)) ''aws_access_key_id'') \<and> (case x of (s, _) \<Rightarrow> read_target cr s)"
      and x: "x = (s, y)" "y = (k0, z)"
    then obtain r where r: "es = [EvGetSecret (target_key cr) r]" "s = (case r of Inl _ \<Rightarrow> empty_Secret | Inr s \<Rightarrow> s)"
      and target: "read_target cr s" by auto
    show "post_go (bind_go (syncAccessKeySecret E cr k v s []) (\<lambda>err. case err of
       Some e \<Rightarrow> ret (Some (ActuatorError CredentialsProvisionFailure (''error creating/updating secret: '' @ error_text e)))
     | None \<Rightarrow> ret None)) (\<lambda>err es'. err = None \<longrightarrow> (\<exists>r w s. es @ es' = EvGetSecret (target_key cr) r # w \<and>
         left_as s r w \<and> secret_keys s = Some (k, v) \<and> for_request cr s))"
      by (rule post_bind [OF syncAccessKeySecret_new_key [OF keys(2,3) target]], intro post_splits post_ret)
        (use r(1) found_by_name [OF r(2)] in \<open>auto simp: left_as_def\<close>)
  qed
qed

text \<open>
  C29. When there is work to do and the root secret is annotated \<open>passthrough\<close> and has both keys, not empty, a
  successful \<open>sync\<close> leaves the target secret holding exactly the root keys: after reads only, the
  secret it created or updated in its only write, or, if it wrote nothing, the secret it found
  last, has the two keys of the root secret, the name and namespace the request asks for and
  the reference to the request. IAM is never changed. (The API is assumed to answer a read with
  the object asked for. Without work to do \<open>sync\<close> writes nothing in any mode.)
\<close>

theorem aws_passthrough_copies_root:
  assumes api: "api_faithful E"
    and infra: "LoadInfrastructureName E t = (Return (Inr infraName), e1)"
    and needed: "needsUpdate E cr infraName (t @ e1) = (Return (Inr True), e2)"
    and root: "k_get_secret (kube E) (t @ e1 @ e2) root_creds_key = Inr root"
    and mode: "map_get (sec_Annotations root) AnnotationKey = Some PassthroughAnnotation"
    and keys: "secret_keys root = Some (k, v)" "k \<noteq> []" "v \<noteq> []"
    and ok: "sync E cr t = (Return (cr', None), es)"
  shows "\<exists>pre r w s. es = pre @ EvGetSecret (target_key cr) r # w \<and> (\<forall>ev \<in> set pre. read_only ev) \<and>
    (w = [EvCreateSecret s None] \<or> w = [EvUpdateSecret s None] \<or> w = [] \<and> r = Inr s) \<and>
    secret_keys s = Some (k, v) \<and> for_request cr s"
proof -
  let ?t = "t @ e1 @ e2 @ [EvGetSecret root_creds_key (Inr root)]"
  have cloud: "getCloudCredentialsSecret E (t @ e1 @ e2) = (Return (Inr root), [EvGetSecret root_creds_key (Inr root)])"
    by (rule getCloud_annotated [OF root mode])
  have ro: "\<forall>ev \<in> set e1. read_only ev" "\<forall>ev \<in> set e2. read_only ev"
    using emitsD [OF emits_needsUpdate [of E cr infraName], of _ "t @ e1"] infra needed
    by (auto simp: LoadInfrastructureName_def try_go_def bind_request_apply split: sum.splits)
  have modes: "PassthroughAnnotation \<noteq> InsufficientAnnotation"
    by (simp add: PassthroughAnnotation_def InsufficientAnnotation_def)
  have "sync E cr t = (case fst (syncPassthrough E cr root ?t) of Return err \<Rightarrow> Return (cr, err) | Stop x \<Rightarrow> Stop x,
      e1 @ e2 @ EvGetSecret root_creds_key (Inr root) # snd (syncPassthrough E cr root ?t))"
    using mode modes
    by (simp add: sync_def prod_eq_iff fst_bind snd_bind infra needed cloud map_get_str_def Let_def split: outcome.split)
  with ok have run: "fst (syncPassthrough E cr root ?t) = Return None"
    and es: "es = (e1 @ e2 @ [EvGetSecret root_creds_key (Inr root)]) @ snd (syncPassthrough E cr root ?t)"
    by (auto split: outcome.splits)
  from postD [OF syncPassthrough_post [OF api keys] run] obtain r w s where
    "snd (syncPassthrough E cr root ?t) = EvGetSecret (target_key cr) r # w" "left_as s r w"
    "secret_keys s = Some (k, v)" "for_request cr s" by blast
  with es ro show ?thesis
    unfolding left_as_def
    by (intro exI [of _ "e1 @ e2 @ [EvGetSecret root_creds_key (Inr root)]"] exI [of _ r] exI [of _ w] exI [of _ s]) auto
qed

definition pass_root :: Secret where
  "pass_root = set_sec_Annotations (Some (fmupd AnnotationKey ''passthrough'' fmempty)) aws_creds_secret"

definition pass_env :: env where
  "pass_env = rooted_env\<lparr>kube := (kube rooted_env)\<lparr>k_get_secret := \<lambda>t n.
     if n = root_creds_key then Inr pass_root else Inl not_found\<rparr>\<rparr>"

theorem aws_passthrough_copies_root_witness:
  "\<exists>s. last (snd (sync pass_env (sample_cr None) [])) = EvCreateSecret s None \<and>
     secret_keys s = Some (''AKROOT'', ''xyz'') \<and> for_request (sample_cr None) s"
proof -
  let ?e1 = "[EvGetInfrastructure ''cluster'' (Inr \<lparr>InfrastructureName = ''infra'', Platform = ''AWS''\<rparr>)]"
  let ?s = "new_target_secret (sample_cr None) ''AKROOT'' ''xyz'' []"
  have api: "api_faithful pass_env"
    using rooted_faithful by (auto simp: api_faithful_def pass_env_def pass_root_def sec_Key_def set_sec_Annotations_def split: if_splits)
  have infra: "LoadInfrastructureName pass_env [] = (Return (Inr ''infra''), ?e1)"
    by (simp add: LoadInfrastructureName_def try_go_def bind_request_apply rooted_env_def pass_env_def)
  have needed: "needsUpdate pass_env (sample_cr None) ''infra'' t = (Return (Inr True), [])" for t
    by (simp add: needsUpdate_def Exists_def aws_DecodeProviderStatus_def sample_cr_def empty_AWSProviderStatus_def)
  have root: "k_get_secret (kube pass_env) t root_creds_key = Inr pass_root" for t by (simp add: pass_env_def)
  have mode: "map_get (sec_Annotations pass_root) AnnotationKey = Some PassthroughAnnotation"
    by (simp add: pass_root_def set_sec_Annotations_def PassthroughAnnotation_def)
  have keys: "secret_keys pass_root = Some (''AKROOT'', ''xyz'')"
    by (simp add: pass_root_def set_sec_Annotations_def secret_keys_def awsCredsSecretIDKey_def awsCredsSecretAccessKey_def)
  have run: "sync pass_env (sample_cr None) [] = (Return (sample_cr None, None),
      ?e1 @ [EvGetSecret root_creds_key (Inr pass_root), EvGetSecret (target_key (sample_cr None)) (Inl not_found),
        EvCreateSecret ?s None])"
    by code_simp
  have "last (snd (sync pass_env (sample_cr None) [])) = EvCreateSecret ?s None" by (simp add: run)
  with aws_passthrough_copies_root [OF api infra needed root mode keys _ _ run] show ?thesis by (auto simp: run)
qed

section \<open>Drift\<close>

lemma userHasTag_wf:
  assumes "\<And>tg. tg \<in> set (iu_Tags u) \<Longrightarrow> tag_Key tg \<noteq> None \<and> tag_Value tg \<noteq> None"
  shows "userHasTag u key val = ret (\<exists>tg \<in> set (iu_Tags u). tag_Key tg = Some key \<and> tag_Value tg = Some val)"
proof -
  have "(\<And>tg. tg \<in> set ts \<Longrightarrow> tag_Key tg \<noteq> None \<and> tag_Value tg \<noteq> None) \<Longrightarrow>
     userHasTag_loop ts key val = ret (\<exists>tg \<in> set ts. tag_Key tg = Some key \<and> tag_Value tg = Some val)" for ts
  proof (induction ts)
    case (Cons tg ts)
    from Cons.prems [of tg] obtain k v where "tag_Key tg = Some k" "tag_Value tg = Some v" by auto
    with Cons show ?case by auto
  qed (simp only: userHasTag_loop.simps, simp)
  with assms show ?thesis by (simp add: userHasTag_def)
qed

lemma accessKeyExists_wf:
  "accessKeyExists (map Some ks) k = ret (k \<noteq> [] \<and> k \<in> set ks)"
proof -
  have "accessKeyExists_loop (map Some ks) k = ret (k \<in> set ks)"
    by (induction ks) (simp_all only: accessKeyExists_loop.simps list.map deref_Some bind_ret, auto)
  then show ?thesis by (simp add: accessKeyExists_def)
qed

text \<open>
  What the cluster and IAM show of a request with a minted user, unchanged while \<open>sync\<close> runs: the
  infrastructure name (possibly empty) and the cluster's id, the target secret or that there is
  none, the IAM user or that there is none, its access keys, and the attached policy document
  or that there is none. The read client and the client for the target's keys can be built.
\<close>

definition cluster_view ::
    "env \<Rightarrow> CredentialsRequest \<Rightarrow> string \<Rightarrow> string \<Rightarrow> AWSProviderStatus \<Rightarrow> AWSProviderSpec \<Rightarrow> Secret option \<Rightarrow> bool" where
  "cluster_view E cr infraName uuid st spec target \<longleftrightarrow>
     User st \<noteq> [] \<and> aws_DecodeProviderStatus E cr = Inr st \<and> aws_DecodeProviderSpec E cr = ret (Inr spec) \<and>
     (\<forall>t. \<exists>i. k_get_infrastructure (kube E) t ''cluster'' = Inr i \<and> InfrastructureName i = infraName) \<and>
     (\<forall>t. k_get_clusterversion (kube E) t clusterVersionObjectName = Inr uuid) \<and>
     (\<forall>t. case target of
        None \<Rightarrow> \<exists>e. IsNotFound e \<and> k_get_secret (kube E) t (target_key cr) = Inl e
      | Some s \<Rightarrow> k_get_secret (kube E) t (target_key cr) = Inr s) \<and>
     (\<forall>a b. h_new_session (proc E) a b = None) \<and>
     (\<forall>t. \<exists>c. fst (buildReadAWSClient E cr infraName t) = Return (Inr c))"

definition iam_view ::
    "env \<Rightarrow> AWSProviderStatus \<Rightarrow> iam_User option \<Rightarrow> string \<Rightarrow> string list \<Rightarrow> string option \<Rightarrow> bool" where
  "iam_view E st user arn ks doc \<longleftrightarrow>
     (\<forall>t c. case user of
        None \<Rightarrow> \<exists>text. i_get_user (iam E) t c (Some (User st)) = Inl (AwsError ErrCodeNoSuchEntityException text)
      | Some u \<Rightarrow> i_get_user (iam E) t c (Some (User st)) = Inr (Some u)) \<and>
     (\<forall>u. user = Some u \<longrightarrow> iu_Arn u = Some arn \<and>
        (\<forall>tg \<in> set (iu_Tags u). tag_Key tg \<noteq> None \<and> tag_Value tg \<noteq> None)) \<and>
     (\<forall>t c. i_list_access_keys (iam E) t c (User st) = Inr (map Some ks)) \<and>
     (\<forall>t c. case doc of
        None \<Rightarrow> \<exists>text. i_get_user_policy (iam E) t c (User st) (Policy st) = Inl (AwsError ErrCodeNoSuchEntityException text)
      | Some d \<Rightarrow> \<exists>keep. \<not> keep (CHR ''%'') \<and> \<not> keep (CHR ''+'') \<and>
          i_get_user_policy (iam E) t c (User st) (Policy st) = Inr (Some (pct_encode keep d)))"

lemma policyEquals_value:
  assumes "iam_view E st user arn ks doc" "d \<noteq> []"
  shows "fst (awsPolicyEqualsDesiredPolicy E d st c t) = Return (Inr (doc = Some d))"
proof (cases doc)
  case None
  with assms(1) have "\<forall>t c. \<exists>msg. i_get_user_policy (iam E) t c (User st) (Policy st) =
      Inl (AwsError ErrCodeNoSuchEntityException msg)" by (simp add: iam_view_def)
  then obtain msg where
    "i_get_user_policy (iam E) t c (User st) (Policy st) = Inl (AwsError ErrCodeNoSuchEntityException msg)" by blast
  with None assms(2) show ?thesis
    by (simp add: awsPolicyEqualsDesiredPolicy_def getCurrentUserPolicy_def awsClient_defs try_go_def fst_bind
        bind_request_apply)
next
  case (Some d0)
  with assms(1) have "\<forall>t c. \<exists>keep. \<not> keep (CHR ''%'') \<and> \<not> keep (CHR ''+'') \<and>
      i_get_user_policy (iam E) t c (User st) (Policy st) = Inr (Some (pct_encode keep d0))" by (simp add: iam_view_def)
  then obtain keep where "\<not> keep (CHR ''%'')" "\<not> keep (CHR ''+'')"
    "i_get_user_policy (iam E) t c (User st) (Policy st) = Inr (Some (pct_encode keep d0))" by blast
  with Some show ?thesis
    by (simp add: awsPolicyEqualsDesiredPolicy_def getCurrentUserPolicy_def awsClient_defs try_go_def
        fst_bind bind_request_apply QueryUnescape_pct_encode)
qed

text \<open>
  The tag that marks a user as the cluster's: by the infrastructure name, or, on a cluster that
  has none, by the cluster's id.
\<close>

definition has_tag :: "iam_User \<Rightarrow> string \<Rightarrow> string \<Rightarrow> bool" where
  "has_tag u infraName uuid \<longleftrightarrow> (\<exists>tg \<in> set (iu_Tags u).
     if infraName \<noteq> [] then tag_Key tg = Some (cluster_tag infraName) \<and> tag_Value tg = Some ''owned''
     else tag_Key tg = Some openshiftClusterIDKey \<and> tag_Value tg = Some uuid)"

lemma needsUpdate_minted_value:
  assumes iam: "iam_view E st (Some u) arn ks doc"
    and uuid: "\<forall>t. k_get_clusterversion (kube E) t clusterVersionObjectName = Inr uuid"
  shows "fst (needsUpdate_minted E infraName k spec st c t) = Return (Inr (\<not> (has_tag u infraName uuid \<and>
     k \<noteq> [] \<and> k \<in> set ks \<and> doc = Some (getDesiredUserPolicy (StatementEntries spec) arn))))"
proof -
  have tags: "userHasExpectedTags (Some u) infraName uuid = ret (has_tag u infraName uuid)"
    using iam by (simp add: userHasExpectedTags_def userHasTag_wf has_tag_def iam_view_def)
  from iam have user: "i_get_user (iam E) t c (Some (User st)) = Inr (Some u)" "iu_Arn u = Some arn"
    and keys: "\<And>t. i_list_access_keys (iam E) t c (User st) = Inr (map Some ks)"
    by (auto simp: iam_view_def)
  show ?thesis
    by (auto simp: needsUpdate_minted_def awsClient_defs loadClusterUUID_def try_go_def bind_request_apply
        user keys uuid tags accessKeyExists_wf policyEquals_value [OF iam] Let_def fst_bind)
qed

lemma needsUpdate_found:
  assumes view: "cluster_view E cr infraName uuid st spec (Some s)"
  obtains c t' where "fst (needsUpdate E cr infraName t) =
    fst (needsUpdate_minted E infraName (map_get_str (sec_Data s) ''aws_access_key_id'') spec st c t')"
proof -
  from view have dec: "User st \<noteq> []" "aws_DecodeProviderStatus E cr = Inr st" "aws_DecodeProviderSpec E cr = ret (Inr spec)"
    and session: "\<And>a b. h_new_session (proc E) a b = None"
    and s: "\<And>t. k_get_secret (kube E) t (target_key cr) = Inr s"
    by (auto simp: cluster_view_def)
  let ?t = "t @ [EvGetSecret (target_key cr) (Inr s), EvGetSecret (target_key cr) (Inr s)]"
  from view obtain c where "fst (buildReadAWSClient E cr infraName ?t) = Return (Inr c)"
    unfolding cluster_view_def by blast
  then have "fst (needsUpdate E cr infraName t) = fst (needsUpdate_minted E infraName
      (map_get_str (sec_Data s) ''aws_access_key_id'') spec st c (?t @ snd (buildReadAWSClient E cr infraName ?t)))"
    using dec(1) by (simp add: needsUpdate_def Exists_def loadExistingSecret_def try_go_def dec s NewClient_def session
        fst_bind snd_bind)
  then show thesis by (rule that)
qed

lemma needsUpdate_missing:
  assumes view: "cluster_view E cr infraName uuid st spec None"
  shows "fst (needsUpdate E cr infraName t) = Return (Inr True)"
proof -
  have st: "User st \<noteq> []" "aws_DecodeProviderStatus E cr = Inr st"
    and "\<forall>t. \<exists>e. IsNotFound e \<and> k_get_secret (kube E) t (target_key cr) = Inl e"
    using view by (simp_all add: cluster_view_def)
  then obtain e where "IsNotFound e" "k_get_secret (kube E) t (target_key cr) = Inl e" by blast
  with st show ?thesis by (simp add: needsUpdate_def Exists_def try_go_def fst_bind)
qed

lemma needsUpdate_no_user:
  assumes view: "cluster_view E cr infraName uuid st spec (Some s)" and iam: "iam_view E st None arn ks doc"
  shows "\<exists>e. fst (needsUpdate E cr infraName t) = Return (Inl e)"
proof -
  obtain c t' where eq: "fst (needsUpdate E cr infraName t) =
    fst (needsUpdate_minted E infraName (map_get_str (sec_Data s) ''aws_access_key_id'') spec st c t')"
    by (rule needsUpdate_found [OF view])
  from iam obtain msg where
    "i_get_user (iam E) t' c (Some (User st)) = Inl (AwsError ErrCodeNoSuchEntityException msg)"
    unfolding iam_view_def by fastforce
  then show ?thesis by (simp add: eq needsUpdate_minted_def awsClient_defs bind_request_apply)
qed

text \<open>What \<open>sync\<close> makes of the verdict when it does not ask for work.\<close>

lemma sync_verdict:
  assumes "cluster_view E cr infraName uuid st spec target"
    and "\<And>t. fst (needsUpdate E cr infraName t) = Return (verdict t)" "\<And>t. verdict t \<noteq> Inr True"
  shows "(\<exists>t'. fst (sync E cr t) = Return (cr, case verdict t' of
      Inl err \<Rightarrow> Some (ActuatorError CredentialsProvisionFailure
        (''error determining whether a credentials update is needed: '' @ error_text err))
    | Inr _ \<Rightarrow> None)) \<and> (\<forall>ev \<in> set (snd (sync E cr t)). read_only ev)"
proof -
  from assms(1) obtain i where i: "k_get_infrastructure (kube E) t ''cluster'' = Inr i" "InfrastructureName i = infraName"
    unfolding cluster_view_def by blast
  let ?t = "t @ [EvGetInfrastructure ''cluster'' (Inr i)]"
  have "sync E cr t = (Return (cr, case verdict ?t of
      Inl err \<Rightarrow> Some (ActuatorError CredentialsProvisionFailure
        (''error determining whether a credentials update is needed: '' @ error_text err))
    | Inr _ \<Rightarrow> None), EvGetInfrastructure ''cluster'' (Inr i) # snd (needsUpdate E cr infraName ?t))"
    using assms(3) [of ?t]
    by (simp add: sync_def LoadInfrastructureName_def try_go_def prod_eq_iff fst_bind snd_bind i assms(2) split: sum.split)
  moreover have "\<forall>ev \<in> set (snd (needsUpdate E cr infraName ?t)). read_only ev"
    using emitsD [OF emits_needsUpdate] by blast
  ultimately show ?thesis by auto
qed


definition settled_user :: iam_User where
  "settled_user = (sample_user ''u'')\<lparr>iu_Tags := expected_tags ''infra'' ''id''\<rparr>"

definition settled_doc :: string where
  "settled_doc = getDesiredUserPolicy [\<lparr>se_Effect = ''Allow'', se_Action = Some [''s3:*''], se_Resource = ''*''\<rparr>]
     ''arn:aws:iam::1:user/u''"

definition settled_env :: env where
  "settled_env = sample_env (sample_kube\<lparr>k_get_secret := \<lambda>t n.
       if n = root_creds_key then Inr root_secret
       else if n = \<lparr>nn_Namespace = ''image'', nn_Name = ''creds''\<rparr> then Inr (new_target_secret minted_cr ''AKIA'' ''s3cr3t'' settled_doc)
       else Inl not_found\<rparr>)
     (sample_iam\<lparr>i_get_user := \<lambda>t c u. Inr (Some settled_user), i_list_access_keys := \<lambda>t c u. Inr [Some ''AKIA''],
       i_get_user_policy := \<lambda>t c u p. Inr (Some (pct_encode (\<lambda>_. False) settled_doc))\<rparr>)"

lemma settled_cluster_view:
  "cluster_view settled_env minted_cr ''infra'' ''id'' sample_st \<lparr>aws_spec_TypeMeta = empty_TypeMeta,
     StatementEntries = [\<lparr>se_Effect = ''Allow'', se_Action = Some [''s3:*''], se_Resource = ''*''\<rparr>]\<rparr>
     (Some (new_target_secret minted_cr ''AKIA'' ''s3cr3t'' settled_doc))"
proof -
  have "aws_DecodeProviderStatus settled_env minted_cr = Inr sample_st"
    by (simp add: aws_DecodeProviderStatus_def DecodeProviderStatus_def sample_cr_def settled_env_def
        sample_codec_def minted_status_def)
  moreover have "aws_DecodeProviderSpec settled_env minted_cr = ret (Inr \<lparr>aws_spec_TypeMeta = empty_TypeMeta,
     StatementEntries = [\<lparr>se_Effect = ''Allow'', se_Action = Some [''s3:*''], se_Resource = ''*''\<rparr>]\<rparr>)"
    by (rule ext) (simp add: aws_DecodeProviderSpec_def DecodeProviderSpec_def sample_cr_def settled_env_def
        sample_codec_def prod_eq_iff fst_bind snd_bind)
  moreover have "roAWSCredsSecret \<noteq> ''creds''"
    by (simp add: roAWSCredsSecret_def)
  then have "fst (buildReadAWSClient settled_env minted_cr ''infra'' t) = Return (Inr root_cl)" for t
    by (simp add: buildReadAWSClient_def buildRootAWSClient_def try_go_def fst_bind snd_bind LoadCredsFromSecret_apply
        Let_def sample_cr_def root_creds_key_def [symmetric] secret_keys_def awsCredsSecretIDKey_def
        awsCredsSecretAccessKey_def NewClient_def settled_env_def root_cl_def set_sec_Annotations_def)
  ultimately show ?thesis
    by (simp add: cluster_view_def settled_env_def map_get_str_def new_target_secret_def)
qed

lemma settled_iam_view:
  "iam_view settled_env sample_st (Some settled_user) ''arn:aws:iam::1:user/u'' [''AKIA''] (Some settled_doc)"
  by (auto simp: iam_view_def settled_env_def settled_user_def sample_user_def expected_tags_def
      intro!: exI [of _ "\<lambda>_. False"])


section \<open>Minting delivers a live key\<close>

text \<open>IAM's access key ids and secrets are not empty (they have documented minimum lengths).\<close>

definition iam_keys_nonempty :: "env \<Rightarrow> bool" where
  "iam_keys_nonempty E \<longleftrightarrow> (\<forall>t c u key. i_create_access_key (iam E) t c u = Inr (Some key) \<longrightarrow>
     ak_AccessKeyId key \<noteq> Some [] \<and> ak_SecretAccessKey key \<noteq> Some [])"

text \<open>
  The calls that replace all keys \<open>ks\<close> of a user by the new pair \<open>k\<close>, \<open>v\<close>.
\<close>

definition rotated :: "string \<Rightarrow> string option list \<Rightarrow> string \<Rightarrow> string \<Rightarrow> event list \<Rightarrow> bool" where
  "rotated u ks k v es \<longleftrightarrow> (\<exists>c key. ak_AccessKeyId key = Some k \<and> ak_SecretAccessKey key = Some v \<and>
     es = map (\<lambda>old. EvIam c (DeleteAccessKey u old None)) ks @ [EvIam c (CreateAccessKey u (Inr (Some key)))])"

text \<open>The calls from the listing of the user's keys on, when they deliver a key.\<close>

definition delivered :: "CredentialsRequest \<Rightarrow> string \<Rightarrow> event list \<Rightarrow> bool" where
  "delivered cr u es \<longleftrightarrow> (\<exists>c ks r mid w s.
     es = EvIam c (ListAccessKeys u (Inr ks)) # EvGetSecret (target_key cr) r # mid @ w \<and>
     for_request cr s \<and> left_as s r w \<and>
     (mid = [] \<and> (\<exists>s0 k. r = Inr s0 \<and> sec_Data s = sec_Data s0 \<and>
        map_get (sec_Data s) ''aws_access_key_id'' = Some k \<and> k \<noteq> [] \<and> Some k \<in> set ks) \<or>
      (\<exists>k v. rotated u ks k v mid \<and> secret_keys s = Some (k, v))))"

text \<open>A call that creates or deletes an access key.\<close>

fun key_change :: "event \<Rightarrow> bool" where
  "key_change (EvIam c (CreateAccessKey u r)) = True"
| "key_change (EvIam c (DeleteAccessKey u k r)) = True"
| "key_change ev = False"

lemma accessKeyExists_post:
  "post_go (accessKeyExists ks k) (\<lambda>r es. es = [] \<and> (r \<longrightarrow> Some k \<in> set ks))"
proof -
  have "post_go (accessKeyExists_loop ks k) (\<lambda>r es. es = [] \<and> (r \<longrightarrow> Some k \<in> set ks))"
  proof (induction ks)
    case (Cons x xs)
    then show ?case by (cases x) (auto simp: post_go_def split: if_splits)
  qed (simp add: post_go_def)
  then show ?thesis by (simp add: accessKeyExists_def post_ret)
qed

lemma createAccessKey_post:
  "post_go (createAccessKey E c u) (\<lambda>r es. \<forall>key. r = Inr key \<longrightarrow>
     es = [EvIam c (CreateAccessKey u (Inr (Some key)))] \<and>
     (\<exists>t. i_create_access_key (iam E) t c u = Inr (Some key)))"
  unfolding createAccessKey_def awsClient_CreateAccessKey_def post_go_def
  by (auto simp: bind_request_apply fst_bind snd_bind deref_def split: sum.splits option.splits)

lemma generate_key_post:
  assumes "iam_keys_nonempty E"
  shows "post_go (generate_key E root u ks) (\<lambda>r es. \<forall>k v. r = Inr (k, v) \<longrightarrow>
     rotated u ks k v es \<and> k \<noteq> [] \<and> v \<noteq> [])"
proof -
  let ?create = "\<lambda>c. try_go (createAccessKey E c u) (\<lambda>accessKey.
      bind_go (deref (ak_AccessKeyId accessKey)) (\<lambda>k.
      bind_go (deref (ak_SecretAccessKey accessKey)) (\<lambda>v. ret (Inr (k, v)))))"
  have create: "post_go (?create c) (\<lambda>r es. \<forall>k v. r = Inr (k, v) \<longrightarrow> k \<noteq> [] \<and> v \<noteq> [] \<and>
      (\<exists>key. ak_AccessKeyId key = Some k \<and> ak_SecretAccessKey key = Some v \<and>
        es = [EvIam c (CreateAccessKey u (Inr (Some key)))]))" for c
  proof (rule post_try [OF createAccessKey_post])
    fix key es
    assume key: "\<forall>key'. Inr key = Inr key' \<longrightarrow> es = [EvIam c (CreateAccessKey u (Inr (Some key')))] \<and>
      (\<exists>t. i_create_access_key (iam E) t c u = Inr (Some key'))"
    with assms have "ak_AccessKeyId key \<noteq> Some []" "ak_SecretAccessKey key \<noteq> Some []"
      unfolding iam_keys_nonempty_def by blast+
    with key show "post_go (bind_go (deref (ak_AccessKeyId key)) (\<lambda>k.
        bind_go (deref (ak_SecretAccessKey key)) (\<lambda>v. ret (Inr (k, v)))))
      (\<lambda>r es'. \<forall>k v. r = Inr (k, v) \<longrightarrow> k \<noteq> [] \<and> v \<noteq> [] \<and>
        (\<exists>key. ak_AccessKeyId key = Some k \<and> ak_SecretAccessKey key = Some v \<and>
          es @ es' = [EvIam c (CreateAccessKey u (Inr (Some key)))]))"
      by (auto simp: post_go_def fst_bind snd_bind deref_def split: option.splits)
  qed simp
  have del: "post_go (deleteAllAccessKeys E c u ks)
      (\<lambda>err es. err = None \<longrightarrow> es = map (\<lambda>k. EvIam c (DeleteAccessKey u k None)) ks)" for c
    by (simp add: post_go_def deleteAll_calls)
  show ?thesis
    unfolding generate_key_def
    by (intro post_splits post_ret post_bind [OF del] post_weaken [OF create]) (auto simp: rotated_def)
qed

text \<open>What \<open>choose_key\<close> leaves for the update of the secret: the secret read, and a new pair or none.\<close>

definition chosen :: "CredentialsRequest \<Rightarrow> string \<Rightarrow> string option list \<Rightarrow> Secret \<Rightarrow> string \<Rightarrow> string \<Rightarrow> event list \<Rightarrow> bool" where
  "chosen cr u ks s k v es \<longleftrightarrow> (\<exists>r mid. es = EvGetSecret (target_key cr) r # mid \<and>
     s = (case r of Inl _ \<Rightarrow> empty_Secret | Inr s \<Rightarrow> s) \<and>
     (if k = [] then v = [] \<and> mid = [] \<and> sec_Name s \<noteq> [] \<and>
        (let old = map_get_str (sec_Data s) ''aws_access_key_id'' in old \<noteq> [] \<and> Some old \<in> set ks)
      else v \<noteq> [] \<and> rotated u ks k v mid))"

lemma choose_key_post:
  assumes "iam_keys_nonempty E"
  shows "post_go (choose_key E root cr u ks) (\<lambda>r es. \<forall>s k v. r = Inr (s, k, v) \<longrightarrow> chosen cr u ks s k v es)"
  unfolding choose_key_def
proof (rule post_bind [OF loadExisting_post], rule post_case_prod, rule post_case_prod)
  fix x es s y k0 z
  assume "\<exists>r. es = [EvGetSecret (target_key cr) r] \<and> fst x = (case r of Inl _ \<Rightarrow> empty_Secret | Inr s \<Rightarrow> s) \<and>
      fst (snd x) = map_get_str (sec_Data (fst x)) ''aws_access_key_id''"
    and x: "x = (s, y)" "y = (k0, z)"
  then obtain r where r: "es = [EvGetSecret (target_key cr) r]" "s = (case r of Inl _ \<Rightarrow> empty_Secret | Inr s \<Rightarrow> s)"
    "k0 = map_get_str (sec_Data s) ''aws_access_key_id''" by auto
  let ?Q = "\<lambda>r es. \<forall>s k v. r = Inr (s, k, v) \<longrightarrow> chosen cr u ks s k v es"
  show "post_go (bind_go (accessKeyExists ks k0) (\<lambda>keyExists.
     if sec_Name s = [] \<or> k0 = [] \<or> \<not> keyExists
     then try_go (generate_key E root u ks) (\<lambda>(accessKey, secretKey). ret (Inr (s, accessKey, secretKey)))
     else ret (Inr (s, [], [])))) (\<lambda>r es'. ?Q r (es @ es'))"
  proof (rule post_bind [OF accessKeyExists_post], rule post_if)
    fix b and es1 :: "event list"
    assume "es1 = [] \<and> (b \<longrightarrow> Some k0 \<in> set ks)"
    then show "post_go (try_go (generate_key E root u ks) (\<lambda>(accessKey, secretKey). ret (Inr (s, accessKey, secretKey))))
       (\<lambda>r es'. ?Q r (es @ es1 @ es'))"
      by (intro post_try [OF generate_key_post [OF assms]])
        (use r in \<open>auto simp: chosen_def intro!: post_ret\<close>)
  next
    fix b and es1 :: "event list"
    assume "es1 = [] \<and> (b \<longrightarrow> Some k0 \<in> set ks)" "\<not> (sec_Name s = [] \<or> k0 = [] \<or> \<not> b)"
    with r show "post_go (ret (Inr (s, [], []))) (\<lambda>r es'. ?Q r (es @ es1 @ es'))"
      by (auto simp: chosen_def Let_def intro!: post_ret)
  qed
qed

lemma syncAccessKeySecret_old_key:
  assumes "sec_Name s \<noteq> []" "read_target cr s"
  shows "post_go (syncAccessKeySecret E cr [] [] s p) (\<lambda>err es. err = None \<longrightarrow>
     (\<exists>s'. sec_Data s' = sec_Data s \<and> for_request cr s' \<and> left_as s' (Inr s) es))"
proof -
  let ?s = "set_sec_Annotations (Some (fmupd AnnotationAWSPolicyLastApplied p
       (fmupd AnnotationCredentialsRequest (cr_ref cr)
         (case sec_Annotations s of None \<Rightarrow> fmempty | Some a \<Rightarrow> a)))) s"
  have "sec_Data ?s = sec_Data s" "for_request cr ?s"
    using assms by (auto simp: set_sec_Annotations_def for_request_def read_target_def sec_Key_def)
  then have "sec_Data ?s = sec_Data s \<and> for_request cr ?s" by simp
  then show ?thesis
    using assms(1)
    by (auto simp: post_go_def syncAccessKeySecret_def Let_def left_as_def bind_request_apply fst_bind snd_bind
        split: option.splits intro!: exI [of _ ?s])
qed

lemma chosen_delivered:
  assumes "read_target cr s" and chosen: "chosen cr u ks s k v es"
  shows "post_go (syncAccessKeySecret E cr k v s p) (\<lambda>err es'. err = None \<longrightarrow>
     delivered cr u (EvIam c (ListAccessKeys u (Inr ks)) # es @ es'))"
proof -
  from chosen obtain r mid where es: "es = EvGetSecret (target_key cr) r # mid"
    and s: "s = (case r of Inl _ \<Rightarrow> empty_Secret | Inr s \<Rightarrow> s)"
    and kv: "if k = [] then v = [] \<and> mid = [] \<and> sec_Name s \<noteq> [] \<and>
        (let old = map_get_str (sec_Data s) ''aws_access_key_id'' in old \<noteq> [] \<and> Some old \<in> set ks)
      else v \<noteq> [] \<and> rotated u ks k v mid" unfolding chosen_def by blast
  note found = found_by_name [OF s]
  show ?thesis
  proof (cases "k = []")
    case True
    with kv have old: "v = []" "mid = []" "sec_Name s \<noteq> []" "map_get_str (sec_Data s) ''aws_access_key_id'' \<noteq> []"
      "Some (map_get_str (sec_Data s) ''aws_access_key_id'') \<in> set ks" by (simp_all add: Let_def)
    then obtain k0 where "map_get (sec_Data s) ''aws_access_key_id'' = Some k0" "k0 \<noteq> []" "Some k0 \<in> set ks"
      by (auto simp: map_get_str_def split: option.splits)
    then show ?thesis
      unfolding True old(1)
      by (intro post_weaken [OF syncAccessKeySecret_old_key [OF old(3) assms(1)]])
        (use old(2) es found [OF old(3)] in \<open>fastforce simp: delivered_def\<close>)
  next
    case False
    with kv have new: "v \<noteq> []" "rotated u ks k v mid" by simp_all
    show ?thesis
    proof (rule post_weaken [OF syncAccessKeySecret_new_key [OF False new(1) assms(1)]], rule impI)
      fix err es'
      assume "err = None \<longrightarrow> (\<exists>s'. secret_keys s' = Some (k, v) \<and> for_request cr s' \<and>
         (es' = [EvCreateSecret s' None] \<or> es' = [EvUpdateSecret s' None] \<or> es' = [] \<and> s' = s \<and> sec_Name s \<noteq> []))"
        and "err = None"
      then obtain s' where s': "secret_keys s' = Some (k, v)" "for_request cr s'" "left_as s' r es'"
        using found by (auto simp: left_as_def)
      then show "delivered cr u (EvIam c (ListAccessKeys u (Inr ks)) # es @ es')"
        unfolding delivered_def using new(2) es
        by (intro exI [of _ c] exI [of _ ks] exI [of _ r] exI [of _ mid] exI [of _ es'] exI [of _ s']) auto
    qed
  qed
qed

lemma mint_key_post:
  assumes "api_faithful E" "iam_keys_nonempty E"
  shows "post_go (try_go (mint_key E root read cr u) (\<lambda>(s, k, v).
      bind_go (syncAccessKeySecret E cr k v s p) (\<lambda>err. case err of Some e \<Rightarrow> ret (Inl e) | None \<Rightarrow> ret (Inr ()))))
    (\<lambda>r es. r = Inr () \<longrightarrow> delivered cr u es)"
proof -
  have "post_go (mint_key E root read cr u) (\<lambda>r es. \<forall>s k v. r = Inr (s, k, v) \<longrightarrow>
     (\<exists>ks es'. es = EvIam read (ListAccessKeys u (Inr ks)) # es' \<and> chosen cr u ks s k v es'))"
    unfolding mint_key_def
  proof (rule post_try)
    show "post_go (awsClient_ListAccessKeys E read u) (\<lambda>r es. es = [EvIam read (ListAccessKeys u r)])"
      by (simp add: awsClient_ListAccessKeys_def post_request)
  qed (auto intro: post_weaken [OF choose_key_post [OF assms(2)]])
  from post_conj [OF this post_yields [OF mint_key_target [OF assms(1)]]] show ?thesis
  proof (rule post_try, goal_cases)
    case (2 x es)
    obtain s k v where x: "x = (s, k, v)" by (cases x)
    with 2 obtain ks es' where es: "es = EvIam read (ListAccessKeys u (Inr ks)) # es'"
      and chosen: "chosen cr u ks s k v es'" "read_target cr s" by auto
    show ?case
      unfolding x prod.case es
      by (rule post_bind [OF chosen_delivered [OF chosen(2,1), where c = read]])
        (auto intro!: post_splits post_ret)
  qed simp
qed

lemma mint_rest_post:
  assumes "api_faithful E" "iam_keys_nonempty E"
  shows "post_go (mint_rest E cr infraName spec st) (\<lambda>err es. err = None \<longrightarrow> (\<exists>pre post. es = pre @ post \<and>
     (\<forall>ev \<in> set pre. \<not> secret_write ev \<and> \<not> key_change ev) \<and> delivered cr (User st) post))"
proof -
  let ?P = "\<lambda>ev. \<not> secret_write ev \<and> \<not> key_change ev"
  have root: "emits ?P (buildRootAWSClient E infraName)" and read: "emits ?P (buildReadAWSClient E cr infraName)"
    by (intro emits_intros; simp)+
  have user: "emits ?P (mint_user E root read u)" for root read u
    unfolding mint_user_def awsClient_GetUser_def by (intro emits_intros) simp_all
  have tags: "emits ?P (mint_tags E root u infraName userOut)" for root u userOut
    unfolding mint_tags_def loadClusterUUID_def by (intro emits_intros) simp_all
  have policy: "emits ?P (mint_policy E root read spec st userOut)" for root read userOut
    unfolding mint_policy_def Let_def by (intro emits_intros) simp_all
  have steps: "post_go (mint_steps E root cr infraName spec st) (\<lambda>r es. r = Inr () \<longrightarrow> (\<exists>pre post. es = pre @ post \<and>
     (\<forall>ev \<in> set pre. ?P ev) \<and> delivered cr (User st) post))" for root
    unfolding mint_steps_def
    apply (intro post_try [OF post_emits [OF read]] post_try [OF post_emits [OF user]] post_try [OF post_emits [OF tags]]
        post_try [OF post_emits [OF policy]] post_weaken [OF mint_key_post [OF assms]]; (simp; fail)?)
    subgoal for r1 es1 r2 es2 r3 es3 r4 es4 y es
      by (rule impI, rule exI [of _ "es1 @ es2 @ es3 @ es4"], rule exI [of _ es]) auto
    done
  show ?thesis
    unfolding mint_rest_def Let_def
  proof (rule post_bind [OF post_emits [OF root]], rule post_bind [OF steps], rule post_ret, rule impI)
    fix r es1 x es2
    assume pre: "\<forall>ev \<in> set es1. ?P ev" and *: "x = Inr () \<longrightarrow> (\<exists>pre post. es2 = pre @ post \<and>
       (\<forall>ev \<in> set pre. ?P ev) \<and> delivered cr (User st) post)" and "(case x of Inl e \<Rightarrow> Some e | Inr _ \<Rightarrow> None) = None"
    then obtain pre' post where "es2 = pre' @ post" "\<forall>ev \<in> set pre'. ?P ev" "delivered cr (User st) post"
      by (cases x) auto
    with pre show "\<exists>pre post. es1 @ es2 @ [] = pre @ post \<and> (\<forall>ev \<in> set pre. ?P ev) \<and> delivered cr (User st) post"
      by (intro exI [of _ "es1 @ pre'"] exI [of _ post]) auto
  qed
qed

text \<open>
  C3. When minting succeeds the request's target secret holds a working key. After calls that
  touch no secret and no access key, minting lists the user's keys and reads the target secret;
  then one of two things happens, and nothing else. Either the secret's access key id is not
  empty and on the list: no key is created or deleted, and the secret is left as found or
  updated with the same data. Or every listed key is deleted, one new key is created, and the
  secret is created, updated or found in place with exactly the new pair. In both cases the
  resulting secret has the name and namespace the request asks for and the annotation that
  refers to the request. (IAM is assumed not to hand out empty keys, and the API to answer a
  read with the object asked for; of a kept key only the id can be compared with IAM.)
\<close>

theorem aws_mint_delivers_live_key:
  assumes "api_faithful E" "iam_keys_nonempty E" and run: "mint_rest E cr infraName spec st t = (Return None, es)"
  shows "\<exists>pre c ks r mid w s.
    es = pre @ EvIam c (ListAccessKeys (User st) (Inr ks)) # EvGetSecret (target_key cr) r # mid @ w \<and>
    (\<forall>ev \<in> set pre. \<not> secret_write ev \<and> \<not> key_change ev) \<and>
    for_request cr s \<and> (w = [EvCreateSecret s None] \<or> w = [EvUpdateSecret s None] \<or> w = [] \<and> r = Inr s) \<and>
    (mid = [] \<and> (\<exists>s0 k. r = Inr s0 \<and> sec_Data s = sec_Data s0 \<and>
        map_get (sec_Data s) ''aws_access_key_id'' = Some k \<and> k \<noteq> [] \<and> Some k \<in> set ks) \<or>
     (\<exists>c' key k v. mid = map (\<lambda>old. EvIam c' (DeleteAccessKey (User st) old None)) ks @
          [EvIam c' (CreateAccessKey (User st) (Inr (Some key)))] \<and>
        ak_AccessKeyId key = Some k \<and> ak_SecretAccessKey key = Some v \<and> secret_keys s = Some (k, v)))"
proof -
  from run have "fst (mint_rest E cr infraName spec st t) = Return None" "snd (mint_rest E cr infraName spec st t) = es"
    by simp_all
  with postD [OF mint_rest_post [OF assms(1,2)]] obtain pre post where
    "es = pre @ post" "\<forall>ev \<in> set pre. \<not> secret_write ev \<and> \<not> key_change ev" "delivered cr (User st) post" by metis
  then show ?thesis unfolding delivered_def rotated_def left_as_def by blast
qed

abbreviation spec0 :: AWSProviderSpec where
  "spec0 \<equiv> \<lparr>aws_spec_TypeMeta = empty_TypeMeta, StatementEntries = []\<rparr>"

text \<open>The witness: the key \<open>OLD\<close> is replaced and the new pair is in the secret that is created.\<close>

lemma rooted_mint_rest:
  "fst (mint_rest rooted_env minted_cr ''infra'' spec0 sample_st []) = Return None"
  "\<exists>pre s. snd (mint_rest rooted_env minted_cr ''infra'' spec0 sample_st []) = pre @
     [EvIam root_cl (ListAccessKeys ''u'' (Inr [Some ''OLD''])), EvGetSecret (target_key minted_cr) (Inl not_found),
      EvIam root_cl (DeleteAccessKey ''u'' (Some ''OLD'') None),
      EvIam root_cl (CreateAccessKey ''u'' (Inr (Some new_key))), EvCreateSecret s None]"
proof -
  have create: "k_create_secret (kube rooted_env) t s = None" for t s by (simp add: rooted_env_def)
  note run = mint_rest_def mint_steps_def try_go_def fst_bind snd_bind Let_def rooted_read rooted_user
        rooted_tags rooted_policy rooted_key syncAccessKeySecret_create empty_Secret_def empty_ObjectMeta_def create
  show "fst (mint_rest rooted_env minted_cr ''infra'' spec0 sample_st []) = Return None"
    by (simp add: run)
  show "\<exists>pre s. snd (mint_rest rooted_env minted_cr ''infra'' spec0 sample_st []) = pre @
     [EvIam root_cl (ListAccessKeys ''u'' (Inr [Some ''OLD''])), EvGetSecret (target_key minted_cr) (Inl not_found),
      EvIam root_cl (DeleteAccessKey ''u'' (Some ''OLD'') None),
      EvIam root_cl (CreateAccessKey ''u'' (Inr (Some new_key))), EvCreateSecret s None]"
    by (simp add: run)
qed

theorem aws_mint_delivers_live_key_witness:
  "\<exists>s. last (snd (mint_rest rooted_env minted_cr ''infra'' spec0 sample_st [])) = EvCreateSecret s None \<and>
     for_request minted_cr s \<and> secret_keys s = Some (''AKIA'', ''s3cr3t'')"
proof -
  let ?es = "snd (mint_rest rooted_env minted_cr ''infra'' spec0 sample_st [])"
  have run: "mint_rest rooted_env minted_cr ''infra'' spec0 sample_st [] = (Return None, ?es)"
    using rooted_mint_rest(1) by (simp add: prod_eq_iff)
  have keys: "iam_keys_nonempty rooted_env" by (simp add: iam_keys_nonempty_def)
  have api: "api_faithful rooted_env" by (rule rooted_faithful)
  from rooted_mint_rest(2) obtain pre s where es: "?es = (pre @
     [EvIam root_cl (ListAccessKeys ''u'' (Inr [Some ''OLD''])), EvGetSecret (target_key minted_cr) (Inl not_found),
      EvIam root_cl (DeleteAccessKey ''u'' (Some ''OLD'') None)]) @
      [EvIam root_cl (CreateAccessKey ''u'' (Inr (Some new_key))), EvCreateSecret s None]" by auto
  then have "last ?es = EvCreateSecret s None" "last (butlast ?es) = EvIam root_cl (CreateAccessKey ''u'' (Inr (Some new_key)))"
    by (simp_all add: butlast_append)
  with aws_mint_delivers_live_key [OF api keys run] show ?thesis by (auto simp: butlast_append)
qed

section \<open>A race with user creation\<close>

text \<open>
  C31. Minting can panic: when the user lookup says that the user does not exist but the creation
  then finds it (a second writer, or a stale lookup), \<open>createUser\<close> reports neither an output nor an
  error, and \<open>syncMint\<close> dereferences the missing output instead of going on with the user.
\<close>

theorem aws_create_user_race_panics:
  assumes "i_get_user (iam E) t read (Some u) = Inl (AwsError ErrCodeNoSuchEntityException e1)"
    and "\<And>t. i_create_user (iam E) t root u = Inl (AwsError ErrCodeEntityAlreadyExistsException e2)"
  shows "fst (mint_user E (Some root) read u t) = Stop (Panicked ''nil pointer dereference'')"
  by (simp add: mint_user_def createUser_def awsClient_defs bind_request_apply try_go_def fst_bind assms)

theorem aws_create_user_race_panics_witness:
  "fst (mint_user (sample_env sample_kube (sample_iam\<lparr>
        i_get_user := \<lambda>t c u. Inl (AwsError ErrCodeNoSuchEntityException ''none''),
        i_create_user := \<lambda>t c u. Inl (AwsError ErrCodeEntityAlreadyExistsException ''exists'')\<rparr>))
      (Some root_cl) root_cl ''u'' []) = Stop (Panicked ''nil pointer dereference'')"
  by (rule aws_create_user_race_panics) simp_all

end
