(* ===== verification/AwsReturns.thy ===== *)
theory AwsReturns
  imports AwsActuator
begin

text \<open>
  The AWS actuator comes back: it dereferences what IAM answers without looking, writes into the data
  map of a secret, and draws random letters until it has enough. This theory names what it relies
  on there and shows that nothing else can make one of its operations panic or run for ever.
\<close>

section \<open>What the actuator relies on\<close>

text \<open>IAM documents the fields of a user, an access key and a simulation result as always present.\<close>

definition complete_user :: "iam_User \<Rightarrow> bool" where
  "complete_user u \<longleftrightarrow> iu_Arn u \<noteq> None \<and> iu_UserId u \<noteq> None \<and>
     (\<forall>tag \<in> set (iu_Tags u). tag_Key tag \<noteq> None \<and> tag_Value tag \<noteq> None)"

definition iam_complete :: "env \<Rightarrow> bool" where
  "iam_complete E \<longleftrightarrow>
     (\<forall>t c n r. i_get_user (iam E) t c n = Inr r \<longrightarrow> (\<exists>u. r = Some u \<and> complete_user u)) \<and>
     (\<forall>t c n r. i_create_user (iam E) t c n = Inr r \<longrightarrow> (\<exists>u. r = Some u \<and> complete_user u)) \<and>
     (\<forall>t c n p r. i_get_user_policy (iam E) t c n p = Inr r \<longrightarrow> r \<noteq> None) \<and>
     (\<forall>t c n ks. i_list_access_keys (iam E) t c n = Inr ks \<longrightarrow> None \<notin> set ks) \<and>
     (\<forall>t c n r. i_create_access_key (iam E) t c n = Inr r \<longrightarrow>
        (\<exists>k. r = Some k \<and> ak_AccessKeyId k \<noteq> None \<and> ak_SecretAccessKey k \<noteq> None)) \<and>
     (\<forall>t c arn acts rs. i_simulate_principal_policy (iam E) t c arn acts = Inr rs \<longrightarrow>
        (\<forall>r \<in> set rs. er_EvalDecision r \<noteq> None \<and> er_EvalActionName r \<noteq> None))"

text \<open>Nobody else creates a user between the actuator's look-up and its own creation.\<close>

definition no_create_race :: "env \<Rightarrow> bool" where
  "no_create_race E \<longleftrightarrow> (\<forall>t c n text. i_create_user (iam E) t c n \<noteq> Inl (AwsError ErrCodeEntityAlreadyExistsException text))"

text \<open>A secret that is read has data.\<close>

definition secrets_have_data :: "env \<Rightarrow> bool" where
  "secrets_have_data E \<longleftrightarrow> (\<forall>t n s. k_get_secret (kube E) t n = Inr s \<longrightarrow> sec_Data s \<noteq> None)"

text \<open>Every random word has a usable letter.\<close>

definition random_usable :: "env \<Rightarrow> bool" where
  "random_usable E \<longleftrightarrow> (\<forall>t k. usable (h_int63 (proc E) t k) 12)"

definition aws_benign :: "env \<Rightarrow> bool" where
  "aws_benign E \<longleftrightarrow> iam_complete E \<and> no_create_race E \<and> secrets_have_data E \<and> random_usable E"

section \<open>Answers\<close>

lemma ret_fold [simp]: "(\<lambda>t. (Return x, [])) = ret x"
  by (simp add: ret_def)

lemma benign_GetUser:
  "iam_complete E \<Longrightarrow> returns_with (awsClient_GetUser E c n) (\<lambda>r. \<forall>x. r = Inr x \<longrightarrow> (\<exists>u. x = Some u \<and> complete_user u))"
  unfolding awsClient_GetUser_def by (rule returns_with_request) (auto simp: iam_complete_def)

lemma benign_ListAccessKeys:
  "iam_complete E \<Longrightarrow> returns_with (awsClient_ListAccessKeys E c n) (\<lambda>r. \<forall>ks. r = Inr ks \<longrightarrow> None \<notin> set ks)"
  unfolding awsClient_ListAccessKeys_def by (rule returns_with_request) (auto simp: iam_complete_def)

text \<open>Rules for the calls whose answer is dereferenced afterwards.\<close>

lemma returns_GetUser:
  assumes "iam_complete E" "\<And>e. always_returns (f (Inl e))"
    and "\<And>u arn uid. complete_user u \<Longrightarrow> iu_Arn u = Some arn \<Longrightarrow> iu_UserId u = Some uid \<Longrightarrow> always_returns (f (Inr (Some u)))"
  shows "always_returns (bind_go (awsClient_GetUser E c n) f)"
proof (rule returns_bind_with [OF benign_GetUser [OF assms(1)]])
  fix r :: "gerror + iam_User option"
  assume "\<forall>x. r = Inr x \<longrightarrow> (\<exists>u. x = Some u \<and> complete_user u)"
  with assms(2,3) show "always_returns (f r)" by (cases r) (auto simp: complete_user_def)
qed

lemma returns_ListAccessKeys_bind:
  assumes "iam_complete E" "\<And>e. always_returns (f (Inl e))" "\<And>ks. None \<notin> set ks \<Longrightarrow> always_returns (f (Inr ks))"
  shows "always_returns (bind_go (awsClient_ListAccessKeys E c n) f)"
proof (rule returns_bind_with [OF benign_ListAccessKeys [OF assms(1)]])
  fix r :: "gerror + string option list"
  assume "\<forall>ks. r = Inr ks \<longrightarrow> None \<notin> set ks"
  with assms(2,3) show "always_returns (f r)" by (cases r) auto
qed

lemma returns_ListAccessKeys:
  "iam_complete E \<Longrightarrow> (\<And>ks. None \<notin> set ks \<Longrightarrow> always_returns (f ks)) \<Longrightarrow>
     always_returns (try_go (awsClient_ListAccessKeys E c n) f)"
  by (rule returns_try_with [OF benign_ListAccessKeys]) auto

lemma returns_case_gerror [returns_intros]:
  "(\<And>x y. always_returns (f1 x y)) \<Longrightarrow> (\<And>x y. always_returns (f2 x y)) \<Longrightarrow> (\<And>x y. always_returns (f3 x y)) \<Longrightarrow>
   (\<And>x. always_returns (f4 x)) \<Longrightarrow> (\<And>x. always_returns (f5 x)) \<Longrightarrow> always_returns (case_gerror f1 f2 f3 f4 f5 e)"
  by (cases e) auto

lemma returns_createUser:
  assumes "iam_complete E" "no_create_race E"
  shows "returns_with (createUser E c n) (\<lambda>r. \<forall>x. r = Inr x \<longrightarrow> (\<exists>u. x = Some (Some u) \<and> complete_user u))"
proof -
  have "returns_with (awsClient_CreateUser E c n) (\<lambda>r. (\<forall>x. r = Inr x \<longrightarrow> (\<exists>u. x = Some u \<and> complete_user u)) \<and>
      (\<forall>text. r \<noteq> Inl (AwsError ErrCodeEntityAlreadyExistsException text)))"
    unfolding awsClient_CreateUser_def using assms
    by (intro returns_with_request) (auto simp: iam_complete_def no_create_race_def)
  then show ?thesis
    unfolding createUser_def
    by (rule returns_with_bind) (auto split: sum.splits gerror.splits intro!: returns_with_ret)
qed

lemma returns_userHasTag_loop:
  "\<forall>tag \<in> set ts. tag_Key tag \<noteq> None \<and> tag_Value tag \<noteq> None \<Longrightarrow> always_returns (userHasTag_loop ts k v)"
  by (induction ts) auto

lemma returns_userHasExpectedTags:
  "u = None \<or> complete_user (the u) \<Longrightarrow> always_returns (userHasExpectedTags u i c)"
  by (auto simp: userHasExpectedTags_def userHasTag_def complete_user_def returns_userHasTag_loop split: option.split)

lemma returns_accessKeyExists: "None \<notin> set ks \<Longrightarrow> always_returns (accessKeyExists ks k)"
proof -
  have "None \<notin> set ks \<Longrightarrow> always_returns (accessKeyExists_loop ks k)" for ks
    by (induction ks) (auto simp: eq_commute [of None])
  then show "None \<notin> set ks \<Longrightarrow> ?thesis" by (simp add: accessKeyExists_def)
qed

lemma returns_deleteAllAccessKeys: "None \<notin> set ks \<Longrightarrow> always_returns (deleteAllAccessKeys E c n ks)"
  by (induction ks) (auto intro!: returns_intros simp: awsClient_DeleteAccessKey_def eq_commute [of None])

lemma returns_allClear:
  "\<forall>r \<in> set rs. er_EvalDecision r \<noteq> None \<and> er_EvalActionName r \<noteq> None \<Longrightarrow> always_returns (allClear_loop rs b)"
  by (induction rs arbitrary: b) auto

lemma returns_LoadInfrastructureName [returns_intros]: "always_returns (LoadInfrastructureName E)"
  unfolding LoadInfrastructureName_def by (intro returns_intros)

lemma returns_buildRoot [returns_intros]: "always_returns (buildRootAWSClient E i)"
  unfolding buildRootAWSClient_def by (intro returns_intros)

lemma returns_buildRead [returns_intros]: "always_returns (buildReadAWSClient E cr i)"
  unfolding buildReadAWSClient_def probeReadAWSClient_def awsClient_GetUser_def by (intro returns_intros)

lemma returns_getCurrentUserPolicy: "iam_complete E \<Longrightarrow> always_returns (getCurrentUserPolicy E c n p)"
proof -
  assume "iam_complete E"
  then have "returns_with (awsClient_GetUserPolicy E c n p) (\<lambda>r. \<forall>x. r = Inr x \<longrightarrow> x \<noteq> None)"
    unfolding awsClient_GetUserPolicy_def by (intro returns_with_request) (auto simp: iam_complete_def)
  then show ?thesis
    unfolding getCurrentUserPolicy_def by (rule returns_bind_with) (auto split: sum.splits gerror.splits)
qed

lemma returns_policy_equal: "iam_complete E \<Longrightarrow> always_returns (awsPolicyEqualsDesiredPolicy E d st c)"
  unfolding awsPolicyEqualsDesiredPolicy_def by (intro returns_intros returns_getCurrentUserPolicy)

lemma returns_CheckPermissions:
  assumes "iam_complete E"
  shows "always_returns (CheckPermissionsUsingQueryClient E q c stmts)"
proof -
  have details: "always_returns (getClientDetails E c)"
    unfolding getClientDetails_def
    by (rule returns_GetUser [OF assms]) (simp_all split: sum.split)
  have sim: "always_returns (bind_go (awsClient_SimulatePrincipalPolicy E q arn acts) (\<lambda>r. case r of
      Inl err \<Rightarrow> ret (Inl (PlainError (''error simulating policy: '' @ error_text err)))
    | Inr results \<Rightarrow> bind_go (allClear_loop results True) (\<lambda>allClear.
        if \<not> allClear then ret (Inr False) else ret (Inr True))))" for arn acts
  proof (rule returns_bind_with)
    show "returns_with (awsClient_SimulatePrincipalPolicy E q arn acts) (\<lambda>r. \<forall>rs. r = Inr rs \<longrightarrow>
        (\<forall>r \<in> set rs. er_EvalDecision r \<noteq> None \<and> er_EvalActionName r \<noteq> None))"
      unfolding awsClient_SimulatePrincipalPolicy_def using assms
      by (intro returns_with_request) (auto simp: iam_complete_def)
  qed (auto intro!: returns_intros returns_allClear split: sum.split)
  show ?thesis
    unfolding CheckPermissionsUsingQueryClient_def Let_def by (rule details sim returns_intros)+
qed

section \<open>Operations\<close>

lemma returns_Exists [returns_intros]: "always_returns (Exists E cr)"
  unfolding Exists_def by (intro returns_intros)

lemma returns_loadExistingSecret [returns_intros]: "always_returns (loadExistingSecret E cr)"
  unfolding loadExistingSecret_def by (intro returns_intros)

lemma returns_DecodeSpec [returns_intros]: "always_returns (aws_DecodeProviderSpec E cr)"
  by (auto simp: aws_DecodeProviderSpec_def DecodeProviderSpec_def intro!: returns_intros split: option.split)

lemma returns_needsUpdate_minted:
  assumes "iam_complete E"
  shows "always_returns (needsUpdate_minted E i k spec st c)"
  unfolding needsUpdate_minted_def loadClusterUUID_def
  by (rule returns_GetUser [OF assms])
    (simp_all add: returns_intros returns_ListAccessKeys returns_accessKeyExists returns_userHasExpectedTags
      returns_policy_equal assms Let_def)

lemma returns_needsUpdate: "iam_complete E \<Longrightarrow> always_returns (needsUpdate E cr i)"
  unfolding needsUpdate_def by (intro returns_intros returns_needsUpdate_minted returns_CheckPermissions)

lemma returns_generateUserName: "random_usable E \<Longrightarrow> always_returns (generateUserName E i n)"
proof -
  assume "random_usable E"
  then have "\<exists>s. rand_String (h_int63 (proc E) t) 5 = Some s" for t
    unfolding random_usable_def by (intro rand_String_returns) blast
  then have "returns_with (request (\<lambda>t. rand_String (h_int63 (proc E) t) 5) EvRandom) (\<lambda>r. r \<noteq> None)"
    by (intro returns_with_request) auto
  then have "always_returns (utilrand_String E 5)"
    unfolding utilrand_String_def by (rule returns_bind_with) auto
  then show ?thesis unfolding generateUserName_def Let_def by (intro returns_intros)
qed

lemma returns_updateProviderStatus [returns_intros]: "always_returns (updateProviderStatus E cr st)"
  unfolding updateProviderStatus_def Let_def by (intro returns_intros)

lemma returns_mint_status: "random_usable E \<Longrightarrow> always_returns (mint_status E cr st i)"
  unfolding mint_status_def Let_def by (intro returns_intros returns_generateUserName)

lemma returns_mint_user:
  assumes "iam_complete E" "no_create_race E"
  shows "returns_with (mint_user E root c n) (\<lambda>r. \<forall>x. r = Inr x \<longrightarrow> (\<exists>u. x = Some u \<and> complete_user u))"
  unfolding mint_user_def try_go_def
  by (rule returns_with_bind [OF benign_GetUser [OF assms(1)]])
    (auto split: sum.splits gerror.splits option.splits intro!: returns_with_ret returns_with_bind [OF returns_createUser [OF assms]])

lemma returns_mint_tags: "complete_user u \<Longrightarrow> always_returns (mint_tags E root n i (Some u))"
  unfolding mint_tags_def loadClusterUUID_def tagUser_def awsClient_TagUser_def
  by (intro returns_intros returns_userHasExpectedTags) simp

lemma returns_mint_policy:
  "iam_complete E \<Longrightarrow> complete_user u \<Longrightarrow> always_returns (mint_policy E root c spec st (Some u))"
  by (auto simp: mint_policy_def setUserPolicy_def awsClient_PutUserPolicy_def complete_user_def Let_def
      intro!: returns_intros returns_policy_equal split: option.split gerror.split)

lemma returns_createAccessKey:
  assumes "iam_complete E"
  shows "returns_with (createAccessKey E c n) (\<lambda>r. \<forall>k. r = Inr k \<longrightarrow> ak_AccessKeyId k \<noteq> None \<and> ak_SecretAccessKey k \<noteq> None)"
proof -
  have "returns_with (awsClient_CreateAccessKey E c n) (\<lambda>r. \<forall>x. r = Inr x \<longrightarrow>
      (\<exists>k. x = Some k \<and> ak_AccessKeyId k \<noteq> None \<and> ak_SecretAccessKey k \<noteq> None))"
    unfolding awsClient_CreateAccessKey_def using assms by (intro returns_with_request) (auto simp: iam_complete_def)
  then show ?thesis
    unfolding createAccessKey_def by (rule returns_with_bind) (auto split: sum.splits intro!: returns_with_ret)
qed

lemma returns_generate_key: "iam_complete E \<Longrightarrow> None \<notin> set ks \<Longrightarrow> always_returns (generate_key E root n ks)"
proof -
  assume E: "iam_complete E" and ks: "None \<notin> set ks"
  have create: "always_returns (try_go (createAccessKey E c n) (\<lambda>accessKey.
      bind_go (deref (ak_AccessKeyId accessKey)) (\<lambda>k. bind_go (deref (ak_SecretAccessKey accessKey)) (\<lambda>s. ret (Inr (k, s))))))" for c
    by (rule returns_try_with [OF returns_createAccessKey [OF E]]) auto
  show ?thesis
    unfolding generate_key_def by (rule create returns_deleteAllAccessKeys [OF ks] returns_intros)+
qed

text \<open>The secret a step works on: the zero one, or one that was read and has data.\<close>

definition usable_secret :: "Secret \<Rightarrow> bool" where
  "usable_secret s \<longleftrightarrow> sec_Name s = [] \<or> sec_Data s \<noteq> None"

definition usable_answer :: "gerror + Secret \<times> string \<times> string \<Rightarrow> bool" where
  "usable_answer r \<longleftrightarrow> (case r of Inl _ \<Rightarrow> True | Inr (s, _) \<Rightarrow> usable_secret s)"

lemma usable_answer_simps [simp]: "usable_answer (Inl e)" "usable_answer (Inr (s, k)) = usable_secret s"
  by (simp_all add: usable_answer_def)

lemma returns_loadExistingSecret_with:
  assumes "secrets_have_data E"
  shows "returns_with (loadExistingSecret E cr) (\<lambda>(s, _, _). usable_secret s)"
proof -
  have "returns_with (kGetSecret E (target_key cr)) (\<lambda>r. \<forall>s. r = Inr s \<longrightarrow> sec_Data s \<noteq> None)"
    using assms by (intro returns_with_request) (auto simp: secrets_have_data_def)
  then show ?thesis
    unfolding loadExistingSecret_def
    by (rule returns_with_bind)
      (auto simp: usable_secret_def empty_Secret_def empty_ObjectMeta_def split: sum.split intro!: returns_with_ret)
qed

lemma returns_syncAccessKeySecret: "usable_secret s \<Longrightarrow> always_returns (syncAccessKeySecret E cr k v s p)"
  by (auto simp: syncAccessKeySecret_def set_key_data_def usable_secret_def set_sec_Annotations_def Let_def
      intro!: returns_intros split: option.split)

lemma returns_choose_key:
  assumes "iam_complete E" "secrets_have_data E" "None \<notin> set ks"
  shows "returns_with (choose_key E root cr n ks) usable_answer"
  unfolding choose_key_def
proof (rule returns_with_bind [OF returns_loadExistingSecret_with [OF assms(2)]], clarify)
  fix s a b
  assume s: "usable_secret s"
  have gen: "returns_with (try_go (generate_key E root n ks) (\<lambda>(k, v). ret (Inr (s, k, v))))
      usable_answer"
    unfolding try_go_def
    by (rule returns_with_bind [OF returns_generate_key [OF assms(1,3), unfolded always_returns_with]])
      (auto simp: s split: sum.split intro!: returns_with_ret)
  show "returns_with (bind_go (accessKeyExists ks a) (\<lambda>keyExists.
      if sec_Name s = [] \<or> a = [] \<or> \<not> keyExists
      then try_go (generate_key E root n ks) (\<lambda>(k, v). ret (Inr (s, k, v))) else ret (Inr (s, [], []))))
      usable_answer"
    by (rule returns_with_bind [OF returns_accessKeyExists [OF assms(3), unfolded always_returns_with]])
      (auto simp: s gen intro!: returns_with_ret)
qed

lemma returns_mint_key:
  assumes "iam_complete E" "secrets_have_data E"
  shows "returns_with (mint_key E root c cr n) usable_answer"
  unfolding mint_key_def try_go_def
  by (rule returns_with_bind [OF benign_ListAccessKeys [OF assms(1)]])
    (auto split: sum.split intro!: returns_with_ret returns_choose_key assms)

lemma returns_mint_steps:
  assumes "aws_benign E"
  shows "always_returns (mint_steps E root cr i spec st)"
proof -
  from assms have E: "iam_complete E" "no_create_race E" "secrets_have_data E" by (simp_all add: aws_benign_def)
  have key: "always_returns (try_go (mint_key E root c cr (User st)) (\<lambda>(s, k, v).
      bind_go (syncAccessKeySecret E cr k v s p) (\<lambda>err. case err of Some e \<Rightarrow> ret (Inl e) | None \<Rightarrow> ret (Inr ()))))" for c p
    by (rule returns_try_with [OF returns_mint_key [OF E(1,3)]]) (auto intro!: returns_intros returns_syncAccessKeySecret)
  have user: "always_returns (try_go (mint_user E root c (User st)) (\<lambda>userOut.
      try_go (mint_tags E root (User st) i userOut) (\<lambda>_.
      try_go (mint_policy E root c spec st userOut) (\<lambda>p.
      try_go (mint_key E root c cr (User st)) (\<lambda>(s, k, v).
      bind_go (syncAccessKeySecret E cr k v s p) (\<lambda>err. case err of Some e \<Rightarrow> ret (Inl e) | None \<Rightarrow> ret (Inr ())))))))" for c
    by (rule returns_try_with [OF returns_mint_user [OF E(1,2)]])
      (auto intro!: returns_try returns_mint_tags returns_mint_policy key E)
  then show ?thesis unfolding mint_steps_def by (intro returns_try returns_buildRead user)
qed

lemma returns_syncMint: "aws_benign E \<Longrightarrow> always_returns (syncMint E cr i)"
  unfolding syncMint_def mint_rest_def Let_def
  by (intro returns_intros returns_mint_steps returns_mint_status) (simp_all add: aws_benign_def)

lemma returns_syncPassthrough:
  assumes "secrets_have_data E"
  shows "always_returns (syncPassthrough E cr root)"
  unfolding syncPassthrough_def Let_def
  by (rule returns_bind_with [OF returns_loadExistingSecret_with [OF assms]])
    (auto intro!: returns_intros returns_syncAccessKeySecret)

lemma returns_sync: "aws_benign E \<Longrightarrow> always_returns (sync E cr)"
  unfolding sync_def getCloudCredentialsSecret_def Let_def
  by (intro returns_intros returns_syncMint returns_syncPassthrough returns_needsUpdate) (simp_all add: aws_benign_def)

lemma returns_delete_policy [returns_intros]: "always_returns (delete_policy E c st)"
  unfolding delete_policy_def awsClient_DeleteUserPolicy_def by (intro returns_intros)

lemma returns_delete_user [returns_intros]: "always_returns (delete_user E c st)"
  unfolding delete_user_def awsClient_DeleteUser_def by (intro returns_intros)

lemma returns_Delete:
  assumes "iam_complete E"
  shows "always_returns (Delete E cr)"
  unfolding Delete_def
  by (simp only: sum.case not_False_eq_True
    | rule returns_ListAccessKeys_bind [OF assms] returns_deleteAllAccessKeys returns_intros | assumption)+

lemma aws_returns:
  assumes "aws_benign E"
  shows "always_returns (act_Exists (AWSActuator E) cr) \<and> always_returns (act_Create (AWSActuator E) cr) \<and>
    always_returns (act_Update (AWSActuator E) cr) \<and> always_returns (act_Delete (AWSActuator E) cr)"
  using assms by (simp add: AWSActuator_def Create_def Update_def returns_Exists returns_sync returns_Delete aws_benign_def)

end
