(* ===== verification/AzureActuator.thy ===== *)
theory AzureActuator
  imports ActuatorIface SecretAnnotator
begin

text \<open>
  \<open>pkg/azure\<close>: the actuator for Azure, which only knows passthrough: \<open>client.go\<close> (the root secret and
  its mode), \<open>secret.go\<close>, \<open>request.go\<close>, \<open>base.go\<close>, \<open>passthrough.go\<close> and \<open>actuator.go\<close>. A missing data entry
  reads as an empty one, as everywhere.

  The lemmas give the effect of an update on every branch and interpret the contract of the
  actuator interface.
\<close>

definition RootSecretNamespace :: string where "RootSecretNamespace = ''openshift-config''"
definition RootSecretName :: string where "RootSecretName = ''azure-creds''"

definition RootSecretKey :: NamespacedName where
  "RootSecretKey = \<lparr>nn_Namespace = RootSecretNamespace, nn_Name = RootSecretName\<rparr>"

definition AzureClientID :: string where "AzureClientID = ''azure_client_id''"
definition AzureClientSecret :: string where "AzureClientSecret = ''azure_client_secret''"

section \<open>Secrets\<close>

definition HasAnnotation :: "Secret \<Rightarrow> bool" where
  "HasAnnotation s =
     (if sec_Annotations s = None then False
      else case map_get (sec_Annotations s) AnnotationKey of None \<Rightarrow> False | Some _ \<Rightarrow> True)"

definition clientWrapper_Secret :: "env \<Rightarrow> NamespacedName \<Rightarrow> (gerror + Secret) io" where
  "clientWrapper_Secret E key = kGetSecret E key"

text \<open>\<open>RootSecret\<close>; the error for a missing annotation prints the whole secret.\<close>

definition clientWrapper_RootSecret :: "env \<Rightarrow> (gerror + Secret) io" where
  "clientWrapper_RootSecret E =
     try_go (clientWrapper_Secret E RootSecretKey) (\<lambda>s.
       if \<not> HasAnnotation s
       then ret (Inl (ActuatorError CredentialsProvisionFailure
              (''cannot proceed without cloud cred secret annotation '' @ Secret_String (proc E) s)))
       else ret (Inr s))"

definition clientWrapper_Mode :: "env \<Rightarrow> (gerror + string) io" where
  "clientWrapper_Mode E =
     try_go (clientWrapper_RootSecret E) (\<lambda>rs. ret (Inr (map_get_str (sec_Annotations rs) AnnotationKey)))"

section \<open>Requests\<close>

record azure_request =
  req_CredentialsRequest :: CredentialsRequest
  AzureSpec :: AzureProviderSpec
  AzureStatus :: AzureProviderStatus

definition newRequest :: "env \<Rightarrow> CredentialsRequest \<Rightarrow> (gerror + azure_request) io" where
  "newRequest E cr =
     bind_go (NewCodec (proc E)) (\<lambda>err. case err of
        Some err \<Rightarrow> ret (Inl err)
      | None \<Rightarrow>
     (case DecodeProviderStatus (decode_AzureProviderStatus (codec E)) (ProviderStatus (cr_Status cr))
             empty_AzureProviderStatus of
        Inl err \<Rightarrow> ret (Inl err)
      | Inr status \<Rightarrow>
     try_go (DecodeProviderSpec (decode_AzureProviderSpec (codec E)) (ProviderSpec (cr_Spec cr))) (\<lambda>spec.
     ret (Inr \<lparr>req_CredentialsRequest = cr, AzureSpec = spec, AzureStatus = status\<rparr>))))"

section \<open>Operations\<close>

definition base_Delete :: "CredentialsRequest \<Rightarrow> (gerror option) io" where
  "base_Delete cr = ret None"

definition base_Exists :: "env \<Rightarrow> CredentialsRequest \<Rightarrow> (gerror + bool) io" where
  "base_Exists E cr =
     try_go (newRequest E cr) (\<lambda>req.
       if ServicePrincipalName (AzureStatus req) = [] \<or> AppID (AzureStatus req) = [] then ret (Inr False)
       else bind_go (kGetSecret E (target_key cr)) (\<lambda>r. case r of
              Inl err \<Rightarrow> if IsNotFound err then ret (Inr False) else ret (Inl err)
            | Inr existingSecret \<Rightarrow> ret (Inr True)))"

definition copySecret :: "CredentialsRequest \<Rightarrow> Secret \<Rightarrow> Secret \<Rightarrow> Secret" where
  "copySecret cr src dest = dest\<lparr>
     sec_Meta := empty_ObjectMeta\<lparr>
       om_Name := or_Name (SecretRef (cr_Spec cr)), om_Namespace := or_Namespace (SecretRef (cr_Spec cr)),
       om_Annotations := Some (fmupd AnnotationCredentialsRequest (cr_ref cr) fmempty)\<rparr>,
     sec_Data := Some (fmupd AzureClientSecret (map_get_str (sec_Data src) AzureClientSecret)
                      (fmupd AzureClientID (map_get_str (sec_Data src) AzureClientID) fmempty))\<rparr>"

definition passthrough_Update :: "env \<Rightarrow> CredentialsRequest \<Rightarrow> (gerror option) io" where
  "passthrough_Update E cr =
     bind_go (clientWrapper_RootSecret E) (\<lambda>r. case r of
       Inl err \<Rightarrow> ret (Some err)
     | Inr root \<Rightarrow>
     bind_go (clientWrapper_Secret E (target_key cr)) (\<lambda>r. case r of
       Inl err \<Rightarrow>
         if IsNotFound err then kCreateSecret E (copySecret cr root empty_Secret)
         else ret (Some err)
     | Inr existing \<Rightarrow>
         let updated = copySecret cr root existing in
         if existing \<noteq> updated
         then bind_go (kUpdateSecret E updated) (\<lambda>err. case err of
                Some e \<Rightarrow> ret (Some (ActuatorError CredentialsProvisionFailure ''error updating secret''))
              | None \<Rightarrow> ret None)
         else ret None))"

definition passthrough_Create :: "env \<Rightarrow> CredentialsRequest \<Rightarrow> (gerror option) io" where
  "passthrough_Create E cr = passthrough_Update E cr"

text \<open>\<open>Actuator\<close> forwards to the passthrough actuator; none of its operations writes to the request.\<close>

definition AzureActuator :: "env \<Rightarrow> actuator" where
  "AzureActuator E = \<lparr>
     act_Create = (\<lambda>cr. bind_go (passthrough_Create E cr) (\<lambda>err. ret (cr, err))),
     act_Delete = base_Delete,
     act_Update = (\<lambda>cr. bind_go (passthrough_Update E cr) (\<lambda>err. ret (cr, err))),
     act_Exists = base_Exists E\<rparr>"

definition azure_NewActuator :: "env \<Rightarrow> (gerror + actuator) io" where
  "azure_NewActuator E =
     try_go (clientWrapper_Mode E) (\<lambda>mode.
       if mode = PassthroughAnnotation then ret (Inr (AzureActuator E))
       else ret (Inl (PlainError ''invalid mode'')))"

section \<open>Properties\<close>

lemma copySecret_for: "for_request cr (copySecret cr root s)"
  by (simp add: copySecret_def for_request_def sec_Key_def target_key_def)

lemma emits_azure_root [emits_intros]:
  "(\<And>n r. P (EvGetSecret n r)) \<Longrightarrow> emits P (clientWrapper_RootSecret E)"
  unfolding clientWrapper_RootSecret_def clientWrapper_Secret_def by (intro emits_intros)

lemma emits_passthrough:
  assumes "\<And>n r. P (EvGetSecret n r)" "\<And>root s r. P (EvCreateSecret (copySecret cr root s) r)"
    "\<And>root s r. P (EvUpdateSecret (copySecret cr root s) r)"
  shows "emits P (passthrough_Update E cr)"
  unfolding passthrough_Update_def clientWrapper_Secret_def Let_def by (intro emits_intros assms)

lemma emits_base_Exists:
  "(\<And>n r. P (EvGetSecret n r)) \<Longrightarrow> emits P (base_Exists E cr)"
  unfolding base_Exists_def newRequest_def DecodeProviderSpec_def by (intro emits_intros)

interpretation azure: actuator_laws E "AzureActuator E" for E
proof unfold_locales
  fix cr
  show "emits read_only (act_Exists (AzureActuator E) cr)"
    by (simp add: AzureActuator_def emits_base_Exists)
  show "emits provision_event (act_Create (AzureActuator E) cr)"
    and "emits provision_event (act_Update (AzureActuator E) cr)"
    unfolding AzureActuator_def actuator.select_convs passthrough_Create_def
    by (intro emits_intros emits_passthrough; simp add: provision_event_def)+
  show "emits (on_target cr) (act_Create (AzureActuator E) cr)"
    and "emits (on_target cr) (act_Update (AzureActuator E) cr)"
    unfolding AzureActuator_def actuator.select_convs passthrough_Create_def
    by (intro emits_intros emits_passthrough; simp add: on_target_def copySecret_for)+
  show "emits deprovision_event (act_Delete (AzureActuator E) cr)"
    by (simp add: AzureActuator_def base_Delete_def)
  show "yields (act_Create (AzureActuator E) cr) (\<lambda>r. same_request cr (fst r))"
    and "yields (act_Update (AzureActuator E) cr) (\<lambda>r. same_request cr (fst r))"
    by (simp_all add: AzureActuator_def yields_bind_any yields_ret)
qed

text \<open>The six ways an update can go, with all its calls.\<close>

lemma passthrough_cases:
  fixes E cr t
  defines "read_root \<equiv> EvGetSecret RootSecretKey" and "read_target \<equiv> EvGetSecret (target_key cr)"
  obtains (no_root) e where "k_get_secret (kube E) t RootSecretKey = Inl e"
      "passthrough_Update E cr t = (Return (Some e), [read_root (Inl e)])"
  | (no_mode) root msg where "k_get_secret (kube E) t RootSecretKey = Inr root" "\<not> HasAnnotation root"
      "passthrough_Update E cr t = (Return (Some (ActuatorError CredentialsProvisionFailure msg)), [read_root (Inr root)])"
  | (no_target) root e where "k_get_secret (kube E) t RootSecretKey = Inr root" "HasAnnotation root"
      "k_get_secret (kube E) (t @ [read_root (Inr root)]) (target_key cr) = Inl e" "\<not> IsNotFound e"
      "passthrough_Update E cr t = (Return (Some e), [read_root (Inr root), read_target (Inl e)])"
  | (create) root e res where "k_get_secret (kube E) t RootSecretKey = Inr root" "HasAnnotation root"
      "k_get_secret (kube E) (t @ [read_root (Inr root)]) (target_key cr) = Inl e" "IsNotFound e"
      "passthrough_Update E cr t = (Return res, [read_root (Inr root), read_target (Inl e),
         EvCreateSecret (copySecret cr root empty_Secret) res])"
  | (update) root old res where "k_get_secret (kube E) t RootSecretKey = Inr root" "HasAnnotation root"
      "k_get_secret (kube E) (t @ [read_root (Inr root)]) (target_key cr) = Inr old" "old \<noteq> copySecret cr root old"
      "passthrough_Update E cr t = (Return (map_option (\<lambda>_. ActuatorError CredentialsProvisionFailure ''error updating secret'') res),
         [read_root (Inr root), read_target (Inr old), EvUpdateSecret (copySecret cr root old) res])"
  | (same) root old where "k_get_secret (kube E) t RootSecretKey = Inr root" "HasAnnotation root"
      "k_get_secret (kube E) (t @ [read_root (Inr root)]) (target_key cr) = Inr old" "old = copySecret cr root old"
      "passthrough_Update E cr t = (Return None, [read_root (Inr root), read_target (Inr old)])"
proof -
  note unfold = passthrough_Update_def clientWrapper_RootSecret_def clientWrapper_Secret_def try_go_def bind_assoc
    bind_request_apply Let_def read_root_def read_target_def
  note cases = that
  show thesis
  proof (cases "k_get_secret (kube E) t RootSecretKey")
    case (Inl e)
    then show thesis by (intro cases(1)) (simp_all add: unfold)
  next
    case root: (Inr root)
    show thesis
    proof (cases "HasAnnotation root")
      case False
      with root show thesis by (intro cases(2)) (simp_all add: unfold)
    next
      case True
      note root = root True
      show thesis
      proof (cases "k_get_secret (kube E) (t @ [read_root (Inr root)]) (target_key cr)")
        case (Inl e)
        then show thesis
          by (cases "IsNotFound e") (use root Inl in \<open>simp_all add: unfold cases(3,4)\<close>)
      next
        case (Inr old)
        then show thesis
        proof (cases "old = copySecret cr root old")
          case False
          from root Inr False show thesis
            by (rule cases(5) [where res = "k_update_secret (kube E) (t @ [read_root (Inr root), read_target (Inr old)])
                  (copySecret cr root old)"]) (use root Inr False in \<open>simp add: unfold split: option.split\<close>)
        qed (use root Inr in \<open>simp add: unfold cases(6)\<close>)
      qed
    qed
  qed
qed

text \<open>What the target secret has to look like: named and annotated for the request, and nothing else.\<close>

definition azure_copy :: "CredentialsRequest \<Rightarrow> Secret \<Rightarrow> Secret \<Rightarrow> bool" where
  "azure_copy cr root s \<longleftrightarrow> sec_Key s = target_key cr \<and>
     sec_Annotations s = Some (fmupd AnnotationCredentialsRequest (cr_ref cr) fmempty) \<and>
     (\<forall>key. map_get (sec_Data s) key =
        (if key \<in> {AzureClientID, AzureClientSecret} then Some (map_get_str (sec_Data root) key) else None))"

lemma copySecret_copies: "azure_copy cr root (copySecret cr root s)"
proof -
  have "AzureClientID \<noteq> AzureClientSecret" by (simp add: AzureClientID_def AzureClientSecret_def)
  then show ?thesis by (simp add: azure_copy_def copySecret_def sec_Key_def target_key_def)
qed

text \<open>
  C34. An Azure update that succeeds, or that tries to write at all, has read a root secret with the
  mode annotation and then the target, and puts exactly the root secret's client id and client
  secret into the target secret, with the back reference as its only annotation. It creates it
  only after the answer that there is none, updates it in place of a different one, or finds it
  so already, with no other call, and it succeeds exactly if that write does. When the root
  secret cannot be read or has no mode annotation, or the target's read fails in any way other
  than not found, the update fails and nothing is written. It never panics.
\<close>

theorem azure_update_copies_root:
  assumes "passthrough_Update E cr t = (out, es)"
  shows "(\<exists>err. out = Return err) \<and>
    (out = Return None \<or> (\<exists>ev \<in> set es. \<not> read_only ev) \<longrightarrow> (\<exists>root r s w res. HasAnnotation root \<and>
       sec_Key s = target_key cr \<and> sec_Annotations s = Some (fmupd AnnotationCredentialsRequest (cr_ref cr) fmempty) \<and>
       (\<forall>key. map_get (sec_Data s) key =
          (if key \<in> {AzureClientID, AzureClientSecret} then Some (map_get_str (sec_Data root) key) else None)) \<and>
       es = [EvGetSecret RootSecretKey (Inr root), EvGetSecret (target_key cr) r] @ w \<and>
       (w = [EvCreateSecret s res] \<and> (\<exists>e. r = Inl e \<and> IsNotFound e) \<or>
        w = [EvUpdateSecret s res] \<and> (\<exists>old. r = Inr old \<and> old \<noteq> s) \<or> w = [] \<and> r = Inr s \<and> res = None) \<and>
       (out = Return None \<longleftrightarrow> res = None))) \<and>
    (\<forall>e. k_get_secret (kube E) t RootSecretKey = Inl e \<longrightarrow>
       out = Return (Some e) \<and> (\<forall>ev \<in> set es. read_only ev)) \<and>
    (\<forall>root. k_get_secret (kube E) t RootSecretKey = Inr root \<and> \<not> HasAnnotation root \<longrightarrow>
       (\<exists>msg. out = Return (Some (ActuatorError CredentialsProvisionFailure msg))) \<and> (\<forall>ev \<in> set es. read_only ev)) \<and>
    (\<forall>root e. k_get_secret (kube E) t RootSecretKey = Inr root \<and> HasAnnotation root \<and> \<not> IsNotFound e \<and>
       k_get_secret (kube E) (t @ [EvGetSecret RootSecretKey (Inr root)]) (target_key cr) = Inl e \<longrightarrow>
       out = Return (Some e) \<and> (\<forall>ev \<in> set es. read_only ev))"
proof (cases rule: passthrough_cases [of E t cr])
  case (create root e res)
  with assms copySecret_copies [of cr root empty_Secret] show ?thesis
    by (auto simp: azure_copy_def)
next
  case (update root old res)
  with assms copySecret_copies [of cr root old] show ?thesis
    by (auto simp: azure_copy_def)
next
  case (same root old)
  with assms copySecret_copies [of cr root old] show ?thesis
    by (auto simp: azure_copy_def)
qed (use assms in auto)

text \<open>A cluster with an annotated Azure root secret and no target secret yet.\<close>

definition azure_root :: Secret where
  "azure_root = empty_Secret\<lparr>
     sec_Meta := empty_ObjectMeta\<lparr>om_Name := RootSecretName, om_Namespace := RootSecretNamespace,
       om_Annotations := Some (fmupd AnnotationKey PassthroughAnnotation fmempty)\<rparr>,
     sec_Data := Some (fmupd AzureClientID ''app'' (fmupd AzureClientSecret ''pw'' fmempty))\<rparr>"

definition azure_env :: env where
  "azure_env = sample_env (sample_kube\<lparr>k_get_secret := \<lambda>t n.
     if n = RootSecretKey then Inr azure_root else Inl not_found\<rparr>) sample_iam"

lemma azure_env_simps [simp]:
  "k_get_secret (kube azure_env) t n = (if n = RootSecretKey then Inr azure_root else Inl not_found)"
  "k_create_secret (kube azure_env) t s = None"
  "HasAnnotation azure_root" "target_key (sample_cr st) \<noteq> RootSecretKey"
  by (simp_all add: azure_env_def azure_root_def HasAnnotation_def RootSecretKey_def RootSecretName_def)

lemma passthrough_fresh:
  assumes "\<And>t. k_get_secret (kube E) t RootSecretKey = Inr azure_root"
    "\<And>t. k_get_secret (kube E) t (target_key cr) = Inl not_found" "\<And>t s. k_create_secret (kube E) t s = None"
  shows "passthrough_Update E cr t = (Return None,
     [EvGetSecret RootSecretKey (Inr azure_root), EvGetSecret (target_key cr) (Inl not_found),
      EvCreateSecret (copySecret cr azure_root empty_Secret) None])"
  by (simp add: passthrough_Update_def clientWrapper_RootSecret_def clientWrapper_Secret_def try_go_def
      bind_assoc bind_request_apply assms)

lemma azure_env_run:
  "passthrough_Update azure_env (sample_cr st) t = (Return None,
     [EvGetSecret RootSecretKey (Inr azure_root), EvGetSecret (target_key (sample_cr st)) (Inl not_found),
      EvCreateSecret (copySecret (sample_cr st) azure_root empty_Secret) None])"
  using azure_env_simps(4) [of st] by (intro passthrough_fresh) simp_all

theorem azure_update_copies_root_witness:
  "\<exists>s. last (snd (passthrough_Update azure_env (sample_cr None) [])) = EvCreateSecret s None \<and>
     sec_Key s = target_key (sample_cr None) \<and> map_get (sec_Data s) AzureClientSecret = Some ''pw'' \<and>
     map_get (sec_Data s) ''other'' = None"
proof -
  have "map_get_str (sec_Data azure_root) AzureClientSecret = ''pw''" "''other'' \<notin> {AzureClientID, AzureClientSecret}"
    by (simp_all add: azure_root_def map_get_str_def AzureClientID_def AzureClientSecret_def)
  then show ?thesis
    using azure_update_copies_root [OF azure_env_run [where st = None and t = "[]"]]
    by (auto simp: azure_env_run)
qed

end
