(* ===== verification/CredentialsRequestController.thy ===== *)
theory CredentialsRequestController
  imports OperatorStatus ActuatorIface
begin

text \<open>
  \<open>pkg/controller/credentialsrequest/credentialsrequest_controller.go\<close>: the reconciler of
  credentials requests. It is defined over an arbitrary actuator, the record of
  \<open>ActuatorIface\<close>; the theories that follow prove its properties from the laws of that
  interface.

  \<open>Reconcile\<close> works on a copy \<open>cr\<close> of the request it has read, \<open>origCR\<close>. It is split at the
  comments of the source: \<open>reconcile_deletion\<close> for a request that is being deleted,
  \<open>reconcile_namespace\<close> for the check of the target namespace and \<open>reconcile_sync\<close> for the rest.
  A \<open>reconcile.Result\<close> is always the empty one here, so only the error is returned. Each
  condition setter is given the time its \<open>metav1.Now()\<close> reads.
\<close>

section \<open>Finalizers\<close>

definition GetFinalizers :: "CredentialsRequest \<Rightarrow> string list" where
  "GetFinalizers cr = (case om_Finalizers (cr_Meta cr) of None \<Rightarrow> [] | Some fs \<Rightarrow> fs)"

definition SetFinalizers :: "CredentialsRequest \<Rightarrow> string list \<Rightarrow> CredentialsRequest" where
  "SetFinalizers cr fs = cr\<lparr>cr_Meta := (cr_Meta cr)\<lparr>om_Finalizers := Some fs\<rparr>\<rparr>"

fun HasFinalizer_loop :: "string list \<Rightarrow> string \<Rightarrow> bool" where
  "HasFinalizer_loop [] finalizer = False"
| "HasFinalizer_loop (f # fs) finalizer = (if f = finalizer then True else HasFinalizer_loop fs finalizer)"

definition HasFinalizer :: "CredentialsRequest \<Rightarrow> string \<Rightarrow> bool" where
  "HasFinalizer cr finalizer = HasFinalizer_loop (GetFinalizers cr) finalizer"

definition AddFinalizer :: "CredentialsRequest \<Rightarrow> string \<Rightarrow> CredentialsRequest" where
  "AddFinalizer cr finalizer =
     (let finalizers = sets_NewString (GetFinalizers cr);
          finalizers = sets_Insert finalizer finalizers
      in SetFinalizers cr (sets_List finalizers))"

definition DeleteFinalizer :: "CredentialsRequest \<Rightarrow> string \<Rightarrow> CredentialsRequest" where
  "DeleteFinalizer cr finalizer =
     (let finalizers = sets_NewString (GetFinalizers cr);
          finalizers = sets_Delete finalizer finalizers
      in SetFinalizers cr (sets_List finalizers))"

section \<open>Conditions\<close>

definition namespaceMissing :: string where "namespaceMissing = ''NamespaceMissing''"
definition namespaceExists :: string where "namespaceExists = ''NamespaceExists''"
definition cloudCredsInsufficient :: string where "cloudCredsInsufficient = ''CloudCredsInsufficient''"
definition cloudCredsSufficient :: string where "cloudCredsSufficient = ''CloudCredsSufficient''"
definition credentialsProvisionFailure :: string where
  "credentialsProvisionFailure = ''CredentialsProvisionFailure''"
definition credentialsProvisionSuccess :: string where
  "credentialsProvisionSuccess = ''CredentialsProvisionSuccess''"
definition cloudCredDeprovisionFailure :: string where
  "cloudCredDeprovisionFailure = ''CloudCredDeprovisionFailure''"
definition cloudCredDeprovisionSuccess :: string where
  "cloudCredDeprovisionSuccess = ''CloudCredDeprovisionSuccess''"

text \<open>Assignments to fields of \<open>cr.Status\<close>.\<close>

definition set_Conditions ::
    "(CredentialsRequestCondition list option \<Rightarrow> CredentialsRequestCondition list option) \<Rightarrow>
     CredentialsRequest \<Rightarrow> CredentialsRequest" where
  "set_Conditions f cr = cr\<lparr>cr_Status := (cr_Status cr)\<lparr>Conditions := f (Conditions (cr_Status cr))\<rparr>\<rparr>"

definition set_Provisioned :: "bool \<Rightarrow> CredentialsRequest \<Rightarrow> CredentialsRequest" where
  "set_Provisioned b cr = cr\<lparr>cr_Status := (cr_Status cr)\<lparr>Provisioned := b\<rparr>\<rparr>"

definition set_LastSync :: "int \<Rightarrow> int \<Rightarrow> CredentialsRequest \<Rightarrow> CredentialsRequest" where
  "set_LastSync now generation cr = cr\<lparr>cr_Status := (cr_Status cr)\<lparr>
     LastSyncTimestamp := Some now, LastSyncGeneration := generation\<rparr>\<rparr>"

definition setMissingTargetNamespaceCondition :: "int \<Rightarrow> CredentialsRequest \<Rightarrow> bool \<Rightarrow> CredentialsRequest" where
  "setMissingTargetNamespaceCondition now cr missing =
     (let ns = or_Namespace (SecretRef (cr_Spec cr));
          (msg, status, reason, updateCheck) =
            (if missing
             then (''target namespace '' @ ns @ '' not found'', ConditionTrue, namespaceMissing,
                   UpdateConditionIfReasonOrMessageChange)
             else (''target namespace '' @ ns @ '' found'', ConditionFalse, namespaceExists,
                   UpdateConditionNever))
      in set_Conditions (\<lambda>cs. SetCredentialsRequestCondition now cs MissingTargetNamespace
           status reason msg updateCheck) cr)"

definition setInsufficientCredsCondition :: "int \<Rightarrow> CredentialsRequest \<Rightarrow> bool \<Rightarrow> CredentialsRequest" where
  "setInsufficientCredsCondition now cr insufficient =
     (let (msg, status, reason, updateCheck) =
            (if insufficient
             then (''cloud creds are insufficient to satisfy CredentialsRequest'', ConditionTrue,
                   cloudCredsInsufficient, UpdateConditionIfReasonOrMessageChange)
             else (''cloud credentials sufficient for minting or passthrough'', ConditionFalse,
                   cloudCredsSufficient, UpdateConditionNever))
      in set_Conditions (\<lambda>cs. SetCredentialsRequestCondition now cs InsufficientCloudCredentials
           status reason msg updateCheck) cr)"

text \<open>\<open>%v\<close> of an error is its text; the callers that pass \<open>false\<close> pass no error.\<close>

definition setFailedToProvisionCredentialsRequest ::
    "int \<Rightarrow> CredentialsRequest \<Rightarrow> bool \<Rightarrow> gerror option \<Rightarrow> CredentialsRequest" where
  "setFailedToProvisionCredentialsRequest now cr failed err =
     (let (msg, status, reason, updateCheck) =
            (if failed
             then (''failed to grant creds: '' @ (case err of None \<Rightarrow> ''<nil>'' | Some e \<Rightarrow> error_text e),
                   ConditionTrue, credentialsProvisionFailure, UpdateConditionIfReasonOrMessageChange)
             else (''successfully granted credentials request'', ConditionFalse,
                   credentialsProvisionSuccess, UpdateConditionNever))
      in set_Conditions (\<lambda>cs. SetCredentialsRequestCondition now cs CredentialsProvisionFailure
           status reason msg updateCheck) cr)"

definition setCredentialsDeprovisionFailureCondition ::
    "int \<Rightarrow> CredentialsRequest \<Rightarrow> bool \<Rightarrow> gerror option \<Rightarrow> CredentialsRequest" where
  "setCredentialsDeprovisionFailureCondition now cr failed err =
     (let (msg, status, reason, updateCheck) =
            (if failed
             then (''failed to deprovision resource: '' @ (case err of None \<Rightarrow> ''<nil>'' | Some e \<Rightarrow> error_text e),
                   ConditionTrue, cloudCredDeprovisionFailure, UpdateConditionIfReasonOrMessageChange)
             else (''deprovisioned cloud credential resource(s)'', ConditionFalse,
                   cloudCredDeprovisionSuccess, UpdateConditionNever))
      in set_Conditions (\<lambda>cs. SetCredentialsRequestCondition now cs CredentialsDeprovisionFailure
           status reason msg updateCheck) cr)"

definition updateActuatorConditions ::
    "env \<Rightarrow> CredentialsRequest \<Rightarrow> CredentialsRequestConditionType \<Rightarrow> gerror option \<Rightarrow> CredentialsRequest io" where
  "updateActuatorConditions E cr reason conditionError =
     bind_go (time_Now E) (\<lambda>now.
     let cr = (if reason = CredentialsProvisionFailure
               then setFailedToProvisionCredentialsRequest now cr True conditionError
               else setFailedToProvisionCredentialsRequest now cr False None) in
     bind_go (time_Now E) (\<lambda>now.
     let cr = (if reason = InsufficientCloudCredentials
               then setInsufficientCredsCondition now cr True
               else setInsufficientCredsCondition now cr False) in
     ret cr))"

section \<open>Writing the request\<close>

text \<open>
  An update that succeeds replaces the object it was given by the server's answer, so the
  request is returned beside the error.
\<close>

definition updateStatus ::
    "env \<Rightarrow> CredentialsRequest \<Rightarrow> CredentialsRequest \<Rightarrow> (CredentialsRequest \<times> gerror option) io" where
  "updateStatus E origCR newCR =
     (if cr_Status newCR \<noteq> cr_Status origCR
      then bind_go (kUpdateCRStatus E newCR) (\<lambda>r. case r of
             Inl err \<Rightarrow> ret (newCR, Some err)
           | Inr answer \<Rightarrow> ret (answer, None))
      else ret (newCR, None))"

definition addDeprovisionFinalizer :: "env \<Rightarrow> CredentialsRequest \<Rightarrow> (gerror option) io" where
  "addDeprovisionFinalizer E cr =
     bind_go (kUpdateCR E (AddFinalizer cr FinalizerDeprovision)) (\<lambda>r. case r of
       Inl err \<Rightarrow> ret (Some err) | Inr _ \<Rightarrow> ret None)"

definition removeDeprovisionFinalizer :: "env \<Rightarrow> CredentialsRequest \<Rightarrow> (gerror option) io" where
  "removeDeprovisionFinalizer E cr =
     bind_go (kUpdateCR E (DeleteFinalizer cr FinalizerDeprovision)) (\<lambda>r. case r of
       Inl err \<Rightarrow> ret (Some err) | Inr _ \<Rightarrow> ret None)"

section \<open>Reconciling\<close>

text \<open>Delete the target secret if it exists, then remove the finalizer.\<close>

definition delete_target_secret :: "env \<Rightarrow> CredentialsRequest \<Rightarrow> (gerror option) io" where
  "delete_target_secret E cr =
     bind_go (kGetSecret E (target_key cr)) (\<lambda>r. case r of
       Inl err \<Rightarrow> if IsNotFound err then ret None else ret (Some err)
     | Inr targetSecret \<Rightarrow> kDeleteSecret E targetSecret)"

text \<open>The two ways on from the actuator's \<open>Delete\<close>.\<close>

definition deprovision_failed ::
    "env \<Rightarrow> CredentialsRequest \<Rightarrow> CredentialsRequest \<Rightarrow> gerror \<Rightarrow> (gerror option) io" where
  "deprovision_failed E origCR cr err =
     bind_go (time_Now E) (\<lambda>now.
     bind_go (updateStatus E origCR (setCredentialsDeprovisionFailureCondition now cr True (Some err))) (\<lambda>r.
     case r of
       (_, Some uerr) \<Rightarrow> ret (Some uerr)
     | (_, None) \<Rightarrow> ret (Some err)))"

definition deprovision_done :: "env \<Rightarrow> CredentialsRequest \<Rightarrow> CredentialsRequest \<Rightarrow> (gerror option) io" where
  "deprovision_done E origCR cr =
     bind_go (time_Now E) (\<lambda>now.
     bind_go (updateStatus E origCR (setCredentialsDeprovisionFailureCondition now cr False None)) (\<lambda>r.
     case r of (cr, _) \<Rightarrow>
     bind_go (delete_target_secret E cr) (\<lambda>err. case err of
       Some e \<Rightarrow> ret (Some e)
     | None \<Rightarrow> removeDeprovisionFinalizer E cr)))"

definition reconcile_deletion ::
    "env \<Rightarrow> actuator \<Rightarrow> CredentialsRequest \<Rightarrow> CredentialsRequest \<Rightarrow> (gerror option) io" where
  "reconcile_deletion E A origCR cr =
     bind_go (act_Delete A cr) (\<lambda>err. case err of
       Some e \<Rightarrow> deprovision_failed E origCR cr e
     | None \<Rightarrow> deprovision_done E origCR cr)"

text \<open>An hour, in nanoseconds.\<close>

definition hour :: int where "hour = 3600 * 10 ^ 9"

text \<open>\<open>hasRecentlySynced\<close>; the clock is only read when there is a time to compare it with.\<close>

definition hasRecentlySynced :: "env \<Rightarrow> CredentialsRequest \<Rightarrow> bool io" where
  "hasRecentlySynced E cr =
     (case LastSyncTimestamp (cr_Status cr) of
        None \<Rightarrow> ret False
      | Some t \<Rightarrow> bind_go (time_Now E) (\<lambda>now. ret (t + hour > now)))"

text \<open>What follows the actuator's answer: the status fields and conditions, and the status update.\<close>

definition finish_reconcile ::
    "env \<Rightarrow> CredentialsRequest \<Rightarrow> CredentialsRequest \<Rightarrow> gerror option \<Rightarrow> (gerror option) io" where
  "finish_reconcile E origCR cr syncErr =
     (case syncErr of
        Some e \<Rightarrow>
          (let cr = set_Provisioned False cr in
           case ActuatorStatus_Reason e of
             Some reason \<Rightarrow>
               bind_go (updateActuatorConditions E cr reason (Some e)) (\<lambda>cr.
               bind_go (updateStatus E origCR cr) (\<lambda>r. case r of
                 (_, Some err) \<Rightarrow> ret (Some err)
               | (_, None) \<Rightarrow> ret (Some e)))
           | None \<Rightarrow> ret (Some e))
      | None \<Rightarrow>
          bind_go (updateActuatorConditions E cr [] None) (\<lambda>cr.
          bind_go (time_Now E) (\<lambda>now.
          let cr = set_LastSync now (om_Generation (cr_Meta origCR)) (set_Provisioned True cr) in
          bind_go (updateStatus E origCR cr) (\<lambda>r. case r of
            (_, Some err) \<Rightarrow> ret (Some err)
          | (_, None) \<Rightarrow> ret None))))"

definition reconcile_sync ::
    "env \<Rightarrow> actuator \<Rightarrow> CredentialsRequest \<Rightarrow> CredentialsRequest \<Rightarrow> (gerror option) io" where
  "reconcile_sync E A origCR cr =
     (let isStale = om_Generation (cr_Meta cr) \<noteq> LastSyncGeneration (cr_Status cr) in
     bind_go (hasRecentlySynced E cr) (\<lambda>recent.
     if \<not> isStale \<and> recent then ret None
     else
     bind_go (act_Exists A cr) (\<lambda>r. case r of
       Inl err \<Rightarrow> ret (Some err)
     | Inr credsExists \<Rightarrow>
     bind_go (if \<not> credsExists then act_Create A cr else act_Update A cr) (\<lambda>r. case r of
       (cr, syncErr) \<Rightarrow> finish_reconcile E origCR cr syncErr))))"

definition reconcile_namespace ::
    "env \<Rightarrow> actuator \<Rightarrow> CredentialsRequest \<Rightarrow> CredentialsRequest \<Rightarrow> (gerror option) io" where
  "reconcile_namespace E A origCR cr =
     bind_go (kGetNamespace E (or_Namespace (SecretRef (cr_Spec cr)))) (\<lambda>err. case err of
       Some e \<Rightarrow>
         if IsNotFound e
         then bind_go (time_Now E) (\<lambda>now.
              bind_go (updateStatus E origCR (setMissingTargetNamespaceCondition now cr True)) (\<lambda>r. case r of
                (_, Some err) \<Rightarrow> ret (Some err)
              | (_, None) \<Rightarrow> ret None))
         else ret (Some e)
     | None \<Rightarrow>
         bind_go (time_Now E) (\<lambda>now.
         reconcile_sync E A origCR (setMissingTargetNamespaceCondition now cr False)))"

definition reconcile_body :: "env \<Rightarrow> actuator \<Rightarrow> NamespacedName \<Rightarrow> (gerror option) io" where
  "reconcile_body E A req =
     bind_go (kGetCR E req) (\<lambda>r. case r of
       Inl err \<Rightarrow> if IsNotFound err then ret None else ret (Some err)
     | Inr cr \<Rightarrow>
         if om_DeletionTimestamp (cr_Meta cr) \<noteq> None
         then (if HasFinalizer cr FinalizerDeprovision then reconcile_deletion E A cr cr else ret None)
         else if \<not> HasFinalizer cr FinalizerDeprovision then addDeprovisionFinalizer E cr
         else reconcile_namespace E A cr cr)"

text \<open>The deferred status sync runs on every way out, panics included; its error is only logged.\<close>

definition Reconcile :: "env \<Rightarrow> actuator \<Rightarrow> NamespacedName \<Rightarrow> (gerror option) io" where
  "Reconcile E A req =
     defer_go (reconcile_body E A req) (bind_go (syncOperatorStatus E) (\<lambda>_. ret ()))"

section \<open>Finalizers as a set\<close>

lemma HasFinalizer_iff: "HasFinalizer cr f \<longleftrightarrow> f \<in> set (GetFinalizers cr)"
proof -
  have "HasFinalizer_loop fs f \<longleftrightarrow> f \<in> set fs" for fs by (induction fs) auto
  then show ?thesis by (simp add: HasFinalizer_def)
qed

lemma GetFinalizers_Set [simp]: "GetFinalizers (SetFinalizers cr fs) = fs"
  by (simp add: GetFinalizers_def SetFinalizers_def)

lemmas finalizer_defs = AddFinalizer_def DeleteFinalizer_def Let_def sets_NewString_def sets_Insert_def
  sets_Delete_def sets_List_def

lemma Set_Set: "SetFinalizers (SetFinalizers cr fs) gs = SetFinalizers cr gs"
  by (simp add: SetFinalizers_def)

lemma finalizer_ops:
  "GetFinalizers (AddFinalizer cr f) = sorted_list_of_set (insert f (set (GetFinalizers cr)))"
  "GetFinalizers (DeleteFinalizer cr f) = sorted_list_of_set (set (GetFinalizers cr) - {f})"
  by (simp_all add: finalizer_defs del: sorted_list_of_set_insert_remove)

lemma HasFinalizer_ops [simp]:
  "HasFinalizer (AddFinalizer cr f) g \<longleftrightarrow> g = f \<or> HasFinalizer cr g"
  "HasFinalizer (DeleteFinalizer cr f) g \<longleftrightarrow> g \<noteq> f \<and> HasFinalizer cr g"
  by (auto simp: HasFinalizer_iff finalizer_ops simp del: sorted_list_of_set_insert_remove)

text \<open>Everything of a request but its finalizers.\<close>

definition but_finalizers :: "CredentialsRequest \<Rightarrow> CredentialsRequest" where
  "but_finalizers cr = cr\<lparr>cr_Meta := (cr_Meta cr)\<lparr>om_Finalizers := None\<rparr>\<rparr>"

lemma but_finalizers_ops [simp]:
  "but_finalizers (AddFinalizer cr f) = but_finalizers cr"
  "but_finalizers (DeleteFinalizer cr f) = but_finalizers cr"
  by (simp_all add: AddFinalizer_def DeleteFinalizer_def SetFinalizers_def but_finalizers_def Let_def)

text \<open>
  The finalizers of a request behave as a set kept in sorted order without duplicates: adding
  and deleting one changes the membership of that one only and nothing else of the request,
  and deleting a finalizer that was just added gives back the request as it was, when its own
  list was sorted and had no duplicates and not this finalizer.
\<close>

theorem finalizers_are_a_sorted_set:
  "sorted (GetFinalizers (AddFinalizer cr f)) \<and> distinct (GetFinalizers (AddFinalizer cr f)) \<and>
   sorted (GetFinalizers (DeleteFinalizer cr f)) \<and> distinct (GetFinalizers (DeleteFinalizer cr f)) \<and>
   (\<forall>g. HasFinalizer (AddFinalizer cr f) g \<longleftrightarrow> g = f \<or> HasFinalizer cr g) \<and>
   (\<forall>g. HasFinalizer (DeleteFinalizer cr f) g \<longleftrightarrow> g \<noteq> f \<and> HasFinalizer cr g) \<and>
   but_finalizers (AddFinalizer cr f) = but_finalizers cr \<and>
   but_finalizers (DeleteFinalizer cr f) = but_finalizers cr \<and>
   (om_Finalizers (cr_Meta cr) = Some fs \<and> sorted fs \<and> distinct fs \<and> f \<notin> set fs \<longrightarrow>
      DeleteFinalizer (AddFinalizer cr f) f = cr)"
proof -
  have "DeleteFinalizer (AddFinalizer cr f) f = cr"
    if fs: "om_Finalizers (cr_Meta cr) = Some fs" "sorted fs" "distinct fs" "f \<notin> set fs"
  proof -
    have g: "GetFinalizers cr = fs" using fs(1) by (simp add: GetFinalizers_def)
    have "DeleteFinalizer (AddFinalizer cr f) f = SetFinalizers cr (sorted_list_of_set (insert f (set fs) - {f}))"
      by (simp add: finalizer_defs Set_Set g del: sorted_list_of_set_insert_remove)
    also have "\<dots> = SetFinalizers cr fs"
      using fs by (simp add: sorted_list_of_set.idem_if_sorted_distinct)
    also have "\<dots> = cr" using fs(1) by (simp add: SetFinalizers_def)
    finally show ?thesis .
  qed
  then show ?thesis
    by (simp add: finalizer_ops del: sorted_list_of_set_insert_remove)
qed

text \<open>A request with a foreign finalizer.\<close>

abbreviation finalized_cr :: CredentialsRequest where
  "finalized_cr \<equiv> SetFinalizers (sample_cr None) [''example.com/other'']"

theorem finalizers_are_a_sorted_set_witness:
  "DeleteFinalizer (AddFinalizer finalized_cr FinalizerDeprovision) FinalizerDeprovision = finalized_cr"
  using finalizers_are_a_sorted_set [of finalized_cr FinalizerDeprovision "[''example.com/other'']"]
  by (simp add: SetFinalizers_def FinalizerDeprovision_def)

end
