(* ===== verification/ReconcileSafety.thy ===== *)
theory ReconcileSafety
  imports CredentialsRequestController AwsOrder AzureActuator
begin

text \<open>
  What the reconciler may do and when. The lemmas are proved once for every actuator that keeps
  the laws of its interface; the properties state them for the actuators the operator can run
  with. They say that credentials are only provisioned for a request that carries the
  deprovision finalizer and whose target namespace exists, that no secret but the request's
  target is ever written, and that the finalizer is only removed when the actuator has
  deprovisioned the credentials and the target secret is gone.
\<close>

section \<open>The calls of the reconciler's steps\<close>

lemma emits_syncOperatorStatus:
  assumes "\<And>n r. P (EvGetCO n r)" "\<And>n e. P (EvGetNamespace n e)" "\<And>n l. P (EvListCR n l)" "\<And>i. P (EvNow i)"
    "\<And>co r. P (EvCreateCO co r)" "\<And>co r. P (EvUpdateCOStatus co r)"
  shows "emits P (syncOperatorStatus E)"
proof -
  have "emits P (finish_sync E oc ov co)" for oc ov co
    unfolding finish_sync_def by (intro emits_intros assms)
  then show ?thesis
    unfolding syncOperatorStatus_def Let_def by (intro emits_intros assms)
qed

lemma emits_updateStatus [emits_intros]:
  "(\<And>r. P (EvUpdateCRStatus cr r)) \<Longrightarrow> emits P (updateStatus E origCR cr)"
  unfolding updateStatus_def by (intro emits_intros)

lemma emits_updateActuatorConditions [emits_intros]:
  "(\<And>i. P (EvNow i)) \<Longrightarrow> emits P (updateActuatorConditions E cr reason err)"
  unfolding updateActuatorConditions_def Let_def by (intro emits_intros)

lemma emits_finish_reconcile [emits_intros]:
  "(\<And>i. P (EvNow i)) \<Longrightarrow> (\<And>c r. P (EvUpdateCRStatus c r)) \<Longrightarrow> emits P (finish_reconcile E origCR cr syncErr)"
  unfolding finish_reconcile_def Let_def by (intro emits_intros)

lemma emits_hasRecentlySynced [emits_intros]:
  "(\<And>i. P (EvNow i)) \<Longrightarrow> emits P (hasRecentlySynced E cr)"
  unfolding hasRecentlySynced_def by (intro emits_intros)

lemma emits_delete_target:
  "(\<And>r. P (EvGetSecret (target_key cr) r)) \<Longrightarrow> (\<And>s r. P (EvDeleteSecret s r)) \<Longrightarrow>
     emits P (delete_target_secret E cr)"
  unfolding delete_target_secret_def by (intro emits_intros)

lemma emits_addFinalizer:
  "(\<And>r. P (EvUpdateCR (AddFinalizer cr FinalizerDeprovision) r)) \<Longrightarrow> emits P (addDeprovisionFinalizer E cr)"
  unfolding addDeprovisionFinalizer_def by (intro emits_intros)

lemma emits_reconcile_sync:
  assumes "\<And>i. P (EvNow i)" "\<And>c r. P (EvUpdateCRStatus c r)"
    and "emits P (act_Exists A cr)" "emits P (act_Create A cr)" "emits P (act_Update A cr)"
  shows "emits P (reconcile_sync E A origCR cr)"
  unfolding reconcile_sync_def Let_def by (intro emits_intros assms)

lemma emits_reconcile_namespace:
  assumes "\<And>i. P (EvNow i)" "\<And>c r. P (EvUpdateCRStatus c r)" "\<And>n r. P (EvGetNamespace n r)"
    and "\<And>now. emits P (reconcile_sync E A origCR (setMissingTargetNamespaceCondition now cr False))"
  shows "emits P (reconcile_namespace E A origCR cr)"
  unfolding reconcile_namespace_def by (intro emits_intros assms)

lemma emits_reconcile_deletion:
  assumes "emits P (act_Delete A cr)" "\<And>i. P (EvNow i)" "\<And>c r. P (EvUpdateCRStatus c r)"
    "\<And>n r. P (EvGetSecret n r)" "\<And>s r. P (EvDeleteSecret s r)" "\<And>c r. P (EvUpdateCR c r)"
  shows "emits P (reconcile_deletion E A origCR cr)"
  unfolding reconcile_deletion_def deprovision_failed_def deprovision_done_def removeDeprovisionFinalizer_def
  by (intro emits_intros emits_delete_target assms)

text \<open>The trace of \<open>Reconcile\<close> is the trace of its body and then that of the deferred status sync.\<close>

lemma Reconcile_event:
  assumes "ev \<in> set (snd (Reconcile E A req t))"
    and "\<And>n r. ev \<noteq> EvGetCO n r" "\<And>n e. ev \<noteq> EvGetNamespace n e" "\<And>n l. ev \<noteq> EvListCR n l" "\<And>i. ev \<noteq> EvNow i"
    "\<And>co r. ev \<noteq> EvCreateCO co r" "\<And>co r. ev \<noteq> EvUpdateCOStatus co r"
  shows "ev \<in> set (snd (reconcile_body E A req t))"
proof -
  have "emits (\<lambda>e. e \<noteq> ev) (bind_go (syncOperatorStatus E) (\<lambda>_. ret ()))"
    by (intro emits_intros emits_syncOperatorStatus assms(2-7) [THEN not_sym])
  from emitsD [OF this] assms(1) show ?thesis
    by (auto simp: Reconcile_def snd_defer split: if_splits)
qed

lemma body_apply:
  "reconcile_body E A req t = (case k_get_cr (kube E) t req of
      Inl err \<Rightarrow> (Return (if IsNotFound err then None else Some err), [EvGetCR req (Inl err)])
    | Inr cr \<Rightarrow> apsnd ((#) (EvGetCR req (Inr cr)))
       ((if om_DeletionTimestamp (cr_Meta cr) \<noteq> None
         then (if HasFinalizer cr FinalizerDeprovision then reconcile_deletion E A cr cr else ret None)
         else if \<not> HasFinalizer cr FinalizerDeprovision then addDeprovisionFinalizer E cr
         else reconcile_namespace E A cr cr) (t @ [EvGetCR req (Inr cr)])))"
  by (simp add: reconcile_body_def bind_request_apply prod_eq_iff split: sum.split)

section \<open>Which secrets are written, and when\<close>

lemma setters_same_request [simp]:
  "same_request cr (setMissingTargetNamespaceCondition now cr b)"
  "same_request cr (setCredentialsDeprovisionFailureCondition now cr b err)"
  by (simp_all add: same_request_def setMissingTargetNamespaceCondition_def
      setCredentialsDeprovisionFailureCondition_def set_Conditions_def Let_def)

lemma updateStatus_same:
  assumes "api_faithful E" "same_request cr0 cr"
  shows "yields (updateStatus E origCR cr) (\<lambda>r. same_request cr0 (fst r))"
  unfolding updateStatus_def
proof (rule yields_if)
  have "yields (kUpdateCRStatus E cr) (\<lambda>r. \<forall>c. r = Inr c \<longrightarrow> same_request cr0 c)"
    by (rule yields_request) (use assms in \<open>auto simp: api_faithful_def intro: same_request_trans\<close>)
  then show "yields (bind_go (kUpdateCRStatus E cr) (\<lambda>r. case r of
      Inl err \<Rightarrow> ret (cr, Some err) | Inr answer \<Rightarrow> ret (answer, None))) (\<lambda>r. same_request cr0 (fst r))"
    by (rule yields_bind) (auto intro!: yields_intros simp: assms(2))
qed (simp add: yields_ret assms(2))

text \<open>The secret writes the reconciler makes for a request.\<close>

definition target_write :: "CredentialsRequest \<Rightarrow> event \<Rightarrow> bool" where
  "target_write cr ev \<longleftrightarrow> on_target cr ev \<and> (\<forall>s r. ev = EvDeleteSecret s r \<longrightarrow> sec_Key s = target_key cr)"

lemma target_write_simps [simp]:
  "target_write cr (EvNow i)" "target_write cr (EvUpdateCRStatus c r)" "target_write cr (EvGetNamespace n e)"
  "target_write cr (EvGetSecret nn sr)" "target_write cr (EvUpdateCR c r)" "target_write cr (EvGetCR nn r)"
  by (simp_all add: target_write_def on_target_def)

lemma delete_target_writes:
  assumes "api_faithful E" "same_request cr0 cr"
  shows "emits (target_write cr0) (delete_target_secret E cr)"
proof -
  have "yields (kGetSecret E (target_key cr)) (\<lambda>r. \<forall>s. r = Inr s \<longrightarrow> sec_Key s = target_key cr0)"
    by (rule yields_request) (use assms in \<open>auto simp: api_faithful_def same_request_key\<close>)
  then show ?thesis
    unfolding delete_target_secret_def
    by (rule emits_bind_yields [rotated])
      (auto intro!: emits_intros simp: target_write_def on_target_def)
qed

context actuator_laws
begin

lemma live_events:
  "emits provision_event (reconcile_namespace E A origCR cr)"
  by (intro emits_reconcile_namespace emits_reconcile_sync exists_provision create_calls update_calls)
    (simp_all add: provision_event_def)

lemma deletion_events:
  "emits (\<lambda>ev. (\<forall>s r. ev \<noteq> EvCreateSecret s r) \<and> (\<forall>s r. ev \<noteq> EvUpdateSecret s r))
     (reconcile_deletion E A origCR cr)"
  by (intro emits_reconcile_deletion emits_mono [OF delete_calls])
    (auto simp: deprovision_event_def split: event.splits)

lemma live_target:
  assumes "api_faithful E"
  shows "emits (target_write cr) (reconcile_namespace E A origCR cr)"
proof -
  have "same_request cr (setMissingTargetNamespaceCondition now cr False)" for now by simp
  then have on_same: "on_target (setMissingTargetNamespaceCondition now cr False) = on_target cr" for now
    by (intro ext on_target_same)
  have create: "emits (on_target cr) (act_Create A (setMissingTargetNamespaceCondition now cr False))"
    and update: "emits (on_target cr) (act_Update A (setMissingTargetNamespaceCondition now cr False))" for now
    using create_target [OF assms, of "setMissingTargetNamespaceCondition now cr False"]
      update_target [OF assms, of "setMissingTargetNamespaceCondition now cr False"]
    by (simp_all add: on_same)
  have reads: "emits (on_target cr) (act_Exists A c)" for c
    by (rule emits_mono [OF exists_reads]) (auto simp: on_target_def split: event.splits)
  have lift: "emits (target_write cr) m" if "emits provision_event m" "emits (on_target cr) m" for m :: "'a io"
  proof (rule emitsI)
    fix t ev
    assume "ev \<in> set (snd (m t))"
    with that have "provision_event ev" "on_target cr ev" by (auto dest: emitsD)
    then show "target_write cr ev" by (auto simp: target_write_def provision_event_def)
  qed
  show ?thesis
    by (intro emits_reconcile_namespace emits_reconcile_sync lift exists_provision create_calls update_calls
        create update reads) simp_all
qed

lemma deletion_target:
  assumes "api_faithful E"
  shows "emits (target_write cr) (reconcile_deletion E A origCR cr)"
proof -
  have "emits (target_write cr) (act_Delete A cr)"
    by (rule emits_mono [OF delete_calls])
      (auto simp: deprovision_event_def target_write_def on_target_def split: event.splits)
  then show ?thesis
    unfolding reconcile_deletion_def deprovision_failed_def deprovision_done_def removeDeprovisionFinalizer_def
    by (intro emits_bind_yields [OF _ updateStatus_same [OF assms]] emits_intros delete_target_writes assms) auto
qed

lemma namespace_found:
  assumes "ev \<in> set (snd (reconcile_namespace E A origCR cr t))" "secret_write ev \<or> iam_write ev"
  shows "k_get_namespace (kube E) t (or_Namespace (SecretRef (cr_Spec cr))) = None"
proof (rule ccontr)
  let ?ns = "or_Namespace (SecretRef (cr_Spec cr))"
  assume "k_get_namespace (kube E) t ?ns \<noteq> None"
  then obtain e where e: "k_get_namespace (kube E) t ?ns = Some e" by blast
  let ?t = "t @ [EvGetNamespace ?ns (Some e)]"
  have "emits (\<lambda>ev. \<not> secret_write ev \<and> \<not> iam_write ev) (if IsNotFound e
         then bind_go (time_Now E) (\<lambda>now.
              bind_go (updateStatus E origCR (setMissingTargetNamespaceCondition now cr True)) (\<lambda>r. case r of
                (_, Some err) \<Rightarrow> ret (Some err)
              | (_, None) \<Rightarrow> ret None))
         else ret (Some e))"
    by (intro emits_intros) simp_all
  from emitsD [OF this, of ev ?t] assms show False
    unfolding reconcile_namespace_def bind_request_apply by (auto simp: e)
qed

lemma provision_guard:
  assumes ev: "ev \<in> set (snd (Reconcile E A req t))" "secret_write ev \<or> iam_write ev"
  shows "\<exists>cr. k_get_cr (kube E) t req = Inr cr \<and> HasFinalizer cr FinalizerDeprovision \<and>
    (if om_DeletionTimestamp (cr_Meta cr) = None
     then k_get_namespace (kube E) (t @ [EvGetCR req (Inr cr)]) (or_Namespace (SecretRef (cr_Spec cr))) = None \<and>
       (\<forall>s r. ev \<noteq> EvDeleteSecret s r)
     else \<forall>s r. ev \<noteq> EvCreateSecret s r \<and> ev \<noteq> EvUpdateSecret s r) \<and>
    (api_faithful E \<longrightarrow> (\<forall>s r. ev \<in> {EvCreateSecret s r, EvUpdateSecret s r, EvDeleteSecret s r} \<longrightarrow>
       sec_Key s = target_key cr))"
proof -
  have body: "ev \<in> set (snd (reconcile_body E A req t))"
    by (rule Reconcile_event [OF ev(1)]) (use ev(2) in auto)
  then obtain cr where cr: "k_get_cr (kube E) t req = Inr cr"
    using ev(2) by (cases "k_get_cr (kube E) t req") (auto simp: body_apply)
  let ?t = "t @ [EvGetCR req (Inr cr)]"
  have fin: "HasFinalizer cr FinalizerDeprovision"
    using body ev(2) cr emitsD [OF emits_addFinalizer [of "\<lambda>ev. \<not> secret_write ev \<and> \<not> iam_write ev" cr E]]
    by (auto simp: body_apply split: if_splits)
  show ?thesis
  proof (cases "om_DeletionTimestamp (cr_Meta cr)")
    case None
    with body cr fin ev(2) have ev': "ev \<in> set (snd (reconcile_namespace E A cr cr ?t))"
      by (auto simp: body_apply)
    have "provision_event ev" by (rule emitsD [OF live_events ev'])
    moreover have "api_faithful E \<Longrightarrow> target_write cr ev" by (rule emitsD [OF live_target ev'])
    ultimately show ?thesis
      using cr fin None namespace_found [OF ev' ev(2)]
      by (auto simp: provision_event_def target_write_def on_target_def for_request_def)
  next
    case (Some d)
    with body cr fin ev(2) have ev': "ev \<in> set (snd (reconcile_deletion E A cr cr ?t))"
      by (auto simp: body_apply)
    have "\<forall>s r. ev \<noteq> EvCreateSecret s r \<and> ev \<noteq> EvUpdateSecret s r" using emitsD [OF deletion_events ev'] by blast
    moreover have "api_faithful E \<Longrightarrow> target_write cr ev" by (rule emitsD [OF deletion_target ev'])
    ultimately show ?thesis
      using cr fin Some by (auto simp: target_write_def)
  qed
qed

end

text \<open>The actuators the operator can run with keep the laws.\<close>

lemma operator_actuator:
  assumes "A \<in> {AWSActuator E, AzureActuator E, DummyActuator}"
  shows "actuator_laws E A"
  using assms aws.actuator_laws_axioms azure.actuator_laws_axioms dummy.actuator_laws_axioms by auto

text \<open>
  C1. Credentials are never provisioned too early or for the wrong target: when a reconcile writes
  a secret or makes a mutating IAM call, the request it has read carries the deprovision
  finalizer. If the request is not being deleted, its target namespace has been found and no
  secret is deleted; if it is being deleted, no secret is created or updated. With an API
  server that answers as documented, the secret that is written or deleted is the request's
  target.
\<close>

theorem provisioning_guarded:
  assumes A: "A \<in> {AWSActuator E, AzureActuator E, DummyActuator}"
    and ev: "ev \<in> set (snd (Reconcile E A req t))" "secret_write ev \<or> iam_write ev"
  shows "\<exists>cr. k_get_cr (kube E) t req = Inr cr \<and> HasFinalizer cr FinalizerDeprovision \<and>
    (if om_DeletionTimestamp (cr_Meta cr) = None
     then k_get_namespace (kube E) (t @ [EvGetCR req (Inr cr)]) (or_Namespace (SecretRef (cr_Spec cr))) = None \<and>
       (\<forall>s r. ev \<noteq> EvDeleteSecret s r)
     else \<forall>s r. ev \<noteq> EvCreateSecret s r \<and> ev \<noteq> EvUpdateSecret s r) \<and>
    (api_faithful E \<longrightarrow> (\<forall>s r. ev \<in> {EvCreateSecret s r, EvUpdateSecret s r, EvDeleteSecret s r} \<longrightarrow>
       sec_Key s = target_key cr))"
  by (rule actuator_laws.provision_guard [OF operator_actuator [OF A] ev])

section \<open>When the finalizer goes\<close>

lemma split_in_front: "xs @ ys = pre @ x # post \<Longrightarrow> x \<notin> set ys \<Longrightarrow> \<exists>post'. xs = pre @ x # post'"
  by (auto simp: append_eq_append_conv2 Cons_eq_append_conv append_eq_Cons_conv)

definition removes_finalizer :: "event \<Rightarrow> bool" where
  "removes_finalizer ev \<longleftrightarrow> (\<exists>c r. ev = EvUpdateCR c r \<and> \<not> HasFinalizer c FinalizerDeprovision)"

lemma removes_finalizer_simps [simp]:
  "\<not> removes_finalizer (EvNow i)" "\<not> removes_finalizer (EvUpdateCRStatus c ur)" "\<not> removes_finalizer (EvGetSecret n s)"
  "\<not> removes_finalizer (EvDeleteSecret se e)" "\<not> removes_finalizer (EvGetCR n ur)" "\<not> removes_finalizer (EvGetNamespace m e)"
  "\<not> removes_finalizer (EvGetCO m co)" "\<not> removes_finalizer (EvListCR m l)" "\<not> removes_finalizer (EvCreateCO x co)"
  "\<not> removes_finalizer (EvUpdateCOStatus x e)" "\<not> removes_finalizer (EvUpdateCR (AddFinalizer c FinalizerDeprovision) ur)"
  by (simp_all add: removes_finalizer_def)

text \<open>The target secret was looked up and not found, or has been deleted.\<close>

definition secret_gone :: "NamespacedName \<Rightarrow> event list \<Rightarrow> bool" where
  "secret_gone key es \<longleftrightarrow> (\<exists>e. IsNotFound e \<and> EvGetSecret key (Inl e) \<in> set es) \<or>
     (\<exists>s. sec_Key s = key \<and> EvDeleteSecret s None \<in> set es)"

lemma secret_gone_append [simp]: "secret_gone key (es @ es') \<longleftrightarrow> secret_gone key es \<or> secret_gone key es'"
  by (auto simp: secret_gone_def)

lemma delete_target_gone:
  assumes "api_faithful E" "same_request cr0 cr"
  shows "post_go (delete_target_secret E cr) (\<lambda>err es. err = None \<longrightarrow> secret_gone (target_key cr0) es)"
  unfolding delete_target_secret_def
proof (rule post_bind)
  show "post_go (kGetSecret E (target_key cr)) (\<lambda>r es. es = [EvGetSecret (target_key cr0) r] \<and>
      (\<forall>s. r = Inr s \<longrightarrow> sec_Key s = target_key cr0))"
    using assms by (auto simp: post_go_def api_faithful_def same_request_key)
qed (auto intro!: post_splits post_ret post_request simp: secret_gone_def)

lemma deprovision_done_ordered:
  assumes "api_faithful E"
  shows "ordered (\<lambda>ev pre. removes_finalizer ev \<longrightarrow> secret_gone (target_key cr) pre) (deprovision_done E origCR cr)"
proof -
  let ?R = "\<lambda>ev pre. removes_finalizer ev \<longrightarrow> secret_gone (target_key cr) pre"
  have mono: "monotone_guard ?R" by (auto simp: monotone_guard_def)
  have quiet: "ordered (\<lambda>ev pre. ?R ev (es @ pre)) m" if "emits (\<lambda>ev. \<not> removes_finalizer ev) m" for es and m :: "'a io"
    by (rule ordered_emits, rule emits_mono [OF that]) simp
  have tail: "ordered (\<lambda>ev pre. ?R ev (es @ pre)) (bind_go (delete_target_secret E c) (\<lambda>err. case err of
       Some e \<Rightarrow> ret (Some e) | None \<Rightarrow> removeDeprovisionFinalizer E c))" if "same_request cr c" for c es
    by (rule ordered_bind_post [OF quiet delete_target_gone [OF assms that]])
      (auto intro!: emits_delete_target ordered_splits ordered_emits emits_intros simp: removeDeprovisionFinalizer_def)
  show ?thesis
    unfolding deprovision_done_def
  proof (rule ordered_bind [OF mono])
    fix now
    show "ordered ?R (bind_go (updateStatus E origCR (setCredentialsDeprovisionFailureCondition now cr False None)) (\<lambda>r.
      case r of (c, _) \<Rightarrow> bind_go (delete_target_secret E c) (\<lambda>err. case err of
       Some e \<Rightarrow> ret (Some e) | None \<Rightarrow> removeDeprovisionFinalizer E c)))"
    proof (rule ordered_bind_post [OF _ post_yields [OF updateStatus_same [OF assms setters_same_request(2)]]])
      show "ordered ?R (updateStatus E origCR (setCredentialsDeprovisionFailureCondition now cr False None))"
        by (intro ordered_emits emits_intros) simp
    qed (auto intro: tail simp del: secret_gone_append)
  qed (auto intro!: ordered_emits emits_intros)
qed

context actuator_laws
begin

lemma deletion_removal:
  assumes faithful: "api_faithful E"
    and ev: "snd (reconcile_deletion E A origCR cr t) = pre @ ev # post" "removes_finalizer ev"
  shows "fst (act_Delete A cr t) = Return None \<and>
    (\<exists>mid. pre = snd (act_Delete A cr t) @ mid \<and> secret_gone (target_key cr) mid)"
proof -
  let ?es = "snd (act_Delete A cr t)"
  have del: "\<not> removes_finalizer e" if "e \<in> set ?es" for e
    using emitsD [OF delete_calls that] by (auto simp: deprovision_event_def removes_finalizer_def)
  have failed: "emits (\<lambda>ev. \<not> removes_finalizer ev) (deprovision_failed E origCR cr e)" for e
    unfolding deprovision_failed_def by (intro emits_intros) simp_all
  have mem: "ev \<in> set (snd (reconcile_deletion E A origCR cr t))" using ev(1) by simp
  have None: "fst (act_Delete A cr t) = Return None"
  proof (cases "fst (act_Delete A cr t)")
    case (Return err)
    with mem ev(2) del emitsD [OF failed] show ?thesis
      by (cases err) (auto simp: reconcile_deletion_def snd_bind)
  qed (use mem ev(2) del in \<open>auto simp: reconcile_deletion_def snd_bind\<close>)
  let ?tail = "snd (deprovision_done E origCR cr (t @ ?es))"
  have split: "?es @ ?tail = pre @ ev # post"
    using ev(1) None by (simp add: reconcile_deletion_def snd_bind)
  then obtain us where "?es = pre @ us \<and> us @ ?tail = ev # post \<or> ?es @ us = pre \<and> ?tail = us @ ev # post"
    by (auto simp: append_eq_append_conv2)
  then show ?thesis
  proof
    assume us: "?es = pre @ us \<and> us @ ?tail = ev # post"
    then have "us = []" using ev(2) del by (cases us) auto
    with us have "?tail = [] @ ev # post" "pre = ?es @ []" by auto
    with None orderedD [OF deprovision_done_ordered [OF faithful]] ev(2) show ?thesis by blast
  next
    assume "?es @ us = pre \<and> ?tail = us @ ev # post"
    with None orderedD [OF deprovision_done_ordered [OF faithful]] ev(2) show ?thesis by blast
  qed
qed

lemma finalizer_removal:
  assumes faithful: "api_faithful E"
    and ev: "snd (Reconcile E A req t) = pre @ ev # post" "removes_finalizer ev"
  shows "\<exists>cr mid. k_get_cr (kube E) t req = Inr cr \<and> om_DeletionTimestamp (cr_Meta cr) \<noteq> None \<and>
    fst (act_Delete A cr (t @ [EvGetCR req (Inr cr)])) = Return None \<and>
    pre = EvGetCR req (Inr cr) # snd (act_Delete A cr (t @ [EvGetCR req (Inr cr)])) @ mid \<and>
    secret_gone (target_key cr) mid"
proof -
  have status: "emits (\<lambda>ev. \<not> removes_finalizer ev) (bind_go (syncOperatorStatus E) (\<lambda>_. ret ()))"
    by (intro emits_intros emits_syncOperatorStatus) simp_all
  obtain es where "snd (Reconcile E A req t) = snd (reconcile_body E A req t) @ es"
    and "\<forall>e \<in> set es. \<not> removes_finalizer e"
    using emitsD [OF status] by (force simp: Reconcile_def snd_defer)
  with ev obtain post' where body: "snd (reconcile_body E A req t) = pre @ ev # post'"
    using split_in_front by metis
  then obtain cr where cr: "k_get_cr (kube E) t req = Inr cr"
    using ev(2) by (cases "k_get_cr (kube E) t req") (auto simp: body_apply Cons_eq_append_conv)
  let ?t = "t @ [EvGetCR req (Inr cr)]"
  have live: "emits (\<lambda>ev. \<not> removes_finalizer ev) (reconcile_namespace E A cr cr)"
    by (rule emits_mono [OF live_events]) (auto simp: provision_event_def removes_finalizer_def)
  have add: "emits (\<lambda>ev. \<not> removes_finalizer ev) (addDeprovisionFinalizer E cr)"
    by (rule emits_addFinalizer) simp
  from body cr ev(2) obtain pre' where pre: "pre = EvGetCR req (Inr cr) # pre'"
    by (cases pre) (auto simp: body_apply)
  have mem: "ev \<in> set (snd (reconcile_body E A req t))" using body by simp
  then have d: "om_DeletionTimestamp (cr_Meta cr) \<noteq> None" and f: "HasFinalizer cr FinalizerDeprovision"
    using cr ev(2) emitsD [OF live] emitsD [OF add] by (auto simp: body_apply split: if_splits)
  from body cr d f pre have "snd (reconcile_deletion E A cr cr ?t) = pre' @ ev # post'" by (simp add: body_apply)
  from deletion_removal [OF faithful this ev(2)] cr d pre show ?thesis by auto
qed

end

text \<open>
  C2. The finalizer guards deprovisioning: when a reconcile writes the request without the
  deprovision finalizer, the request was being deleted, the actuator's \<open>Delete\<close> has been called
  on it before and has returned no error, and after that the target secret was found missing
  or has been deleted. (A read of the API is assumed to return the object it was asked for.)
\<close>

theorem finalizer_removed_last:
  assumes A: "A \<in> {AWSActuator E, AzureActuator E, DummyActuator}" and "api_faithful E"
    and "snd (Reconcile E A req t) = pre @ EvUpdateCR c r # post" "\<not> HasFinalizer c FinalizerDeprovision"
  shows "\<exists>cr mid. k_get_cr (kube E) t req = Inr cr \<and> om_DeletionTimestamp (cr_Meta cr) \<noteq> None \<and>
    fst (act_Delete A cr (t @ [EvGetCR req (Inr cr)])) = Return None \<and>
    pre = EvGetCR req (Inr cr) # snd (act_Delete A cr (t @ [EvGetCR req (Inr cr)])) @ mid \<and>
    ((\<exists>e. IsNotFound e \<and> EvGetSecret (target_key cr) (Inl e) \<in> set mid) \<or>
     (\<exists>s. sec_Key s = target_key cr \<and> EvDeleteSecret s None \<in> set mid))"
  using actuator_laws.finalizer_removal [OF operator_actuator [OF A] assms(2,3)] assms(4)
  by (simp add: removes_finalizer_def secret_gone_def)

text \<open>
  C6. For AWS the two components together: when a reconcile removes the finalizer of a request for
  which a user had been minted, IAM has confirmed before that this user and its policy no
  longer exist.
\<close>

theorem aws_finalizer_means_no_user:
  assumes "api_faithful E"
    and "snd (Reconcile E (AWSActuator E) req t) = pre @ EvUpdateCR c r # post" "\<not> HasFinalizer c FinalizerDeprovision"
    and "k_get_cr (kube E) t req = Inr cr" and st: "aws_DecodeProviderStatus E cr = Inr st" "User st \<noteq> []"
  shows "\<exists>cl p. root_client E cl \<and> gone p \<and>
    EvIam cl (DeleteUserPolicy (User st) (Policy st) p) \<in> set pre \<and>
    ((\<exists>text. EvIam cl (ListAccessKeys (User st) (Inl (AwsError ErrCodeNoSuchEntityException text))) \<in> set pre) \<or>
     (\<exists>d. gone d \<and> EvIam cl (DeleteUser (User st) d) \<in> set pre))"
proof -
  have "removes_finalizer (EvUpdateCR c r)" using assms(3) by (simp add: removes_finalizer_def)
  from aws.finalizer_removal [OF assms(1,2) this] assms(4) obtain mid where
    del: "fst (Delete E cr (t @ [EvGetCR req (Inr cr)])) = Return None"
    and pre: "pre = EvGetCR req (Inr cr) # snd (Delete E cr (t @ [EvGetCR req (Inr cr)])) @ mid"
    by (auto simp: AWSActuator_def)
  from postD [OF Delete_post [OF st] del] obtain cl p pre1 post1 where
    "root_client E cl" "gone p" "user_removal cl (User st) post1"
    "snd (Delete E cr (t @ [EvGetCR req (Inr cr)])) = pre1 @ EvIam cl (DeleteUserPolicy (User st) (Policy st) p) # post1"
    by blast
  then show ?thesis
    unfolding pre user_removal_def by (intro exI [of _ cl] exI [of _ p]) auto
qed

section \<open>A deletion, evaluated\<close>

abbreviation minted_deleting :: CredentialsRequest where
  "minted_deleting \<equiv> deleting_cr (Some minted_status)"

abbreviation cr_key :: NamespacedName where
  "cr_key \<equiv> \<lparr>nn_Namespace = ''cco'', nn_Name = ''registry''\<rparr>"

lemma deleting_fields [simp]:
  "om_DeletionTimestamp (cr_Meta (deleting_cr st)) = Some 0" "HasFinalizer (deleting_cr st) FinalizerDeprovision"
  by (simp_all add: deleting_cr_def HasFinalizer_iff GetFinalizers_def)

lemma no_conditions_kept [simp]:
  "setCredentialsDeprovisionFailureCondition now (deleting_cr st) False None = deleting_cr st"
  by (simp add: setCredentialsDeprovisionFailureCondition_def set_Conditions_def SetCredentialsRequestCondition_def
      deleting_cr_def sample_cr_def Let_def)

lemma rooted_kube [simp]:
  "k_get_cr (kube rooted_env) t n = Inr minted_deleting" "k_update_cr (kube rooted_env) t cr = Inr cr"
  "k_get_secret (kube rooted_env) t \<lparr>nn_Namespace = ''image'', nn_Name = ''creds''\<rparr> = Inl not_found"
  by (simp_all add: rooted_env_def root_creds_key_def rootAWSCredsSecretNamespace_def rootAWSCredsSecret_def)

lemma rooted_deletion:
  defines "c \<equiv> DeleteFinalizer minted_deleting FinalizerDeprovision"
  shows "{EvIam root_cl (DeleteUser ''u'' None), EvUpdateCR c (Inr c)} \<subseteq>
    set (snd (Reconcile rooted_env (AWSActuator rooted_env) cr_key []))"
proof -
  let ?t = "[EvGetCR cr_key (Inr minted_deleting)]"
  have del: "act_Delete (AWSActuator rooted_env) minted_deleting t = Delete rooted_env minted_deleting t" for t
    by (simp add: AWSActuator_def)
  have "{EvIam root_cl (DeleteUser ''u'' None), EvUpdateCR c (Inr c)} \<subseteq>
     set (snd (reconcile_deletion rooted_env (AWSActuator rooted_env) minted_deleting minted_deleting ?t))"
    by (simp add: reconcile_deletion_def del rooted_delete deprovision_done_def updateStatus_def bind_request_apply
        snd_bind fst_bind delete_target_secret_def removeDeprovisionFinalizer_def c_def)
  then show ?thesis by (auto simp: Reconcile_def snd_defer body_apply)
qed

theorem provisioning_guarded_witness:
  "\<exists>cr. EvIam root_cl (DeleteUser ''u'' None) \<in> set (snd (Reconcile rooted_env (AWSActuator rooted_env) cr_key [])) \<and>
     k_get_cr (kube rooted_env) [] cr_key = Inr cr \<and> HasFinalizer cr FinalizerDeprovision"
  using provisioning_guarded [where E = rooted_env and A = "AWSActuator rooted_env" and req = cr_key and t = "[]"
      and ev = "EvIam root_cl (DeleteUser ''u'' None)"] rooted_deletion by auto

theorem finalizer_removed_last_witness:
  "\<exists>pre post c r. snd (Reconcile rooted_env (AWSActuator rooted_env) cr_key []) = pre @ EvUpdateCR c r # post \<and>
     ((\<exists>e. IsNotFound e \<and> EvGetSecret (target_key minted_deleting) (Inl e) \<in> set pre) \<or>
      (\<exists>s. sec_Key s = target_key minted_deleting \<and> EvDeleteSecret s None \<in> set pre))"
proof -
  from rooted_deletion obtain pre post where
    run: "snd (Reconcile rooted_env (AWSActuator rooted_env) cr_key []) =
      pre @ EvUpdateCR (DeleteFinalizer minted_deleting FinalizerDeprovision)
        (Inr (DeleteFinalizer minted_deleting FinalizerDeprovision)) # post"
    by (meson insert_subset split_list)
  have "AWSActuator rooted_env \<in> {AWSActuator rooted_env, AzureActuator rooted_env, DummyActuator}"
    "\<not> HasFinalizer (DeleteFinalizer minted_deleting FinalizerDeprovision) FinalizerDeprovision"
    by (simp_all add: HasFinalizer_ops)
  from finalizer_removed_last [OF this(1) rooted_faithful run this(2)] obtain cr mid where
    cr: "k_get_cr (kube rooted_env) [] cr_key = Inr cr" and
    pre: "pre = EvGetCR cr_key (Inr cr) # snd (act_Delete (AWSActuator rooted_env) cr ([] @ [EvGetCR cr_key (Inr cr)])) @ mid"
    and gone: "(\<exists>e. IsNotFound e \<and> EvGetSecret (target_key cr) (Inl e) \<in> set mid) \<or>
      (\<exists>s. sec_Key s = target_key cr \<and> EvDeleteSecret s None \<in> set mid)"
    by (elim exE conjE) (rule that)
  from pre have "set mid \<subseteq> set pre" by auto
  moreover from cr have "cr = minted_deleting" by simp
  ultimately show ?thesis using run gone by blast
qed

theorem aws_finalizer_means_no_user_witness:
  "\<exists>pre post c r cl. snd (Reconcile rooted_env (AWSActuator rooted_env) cr_key []) = pre @ EvUpdateCR c r # post \<and>
     root_client rooted_env cl \<and> (\<exists>p. EvIam cl (DeleteUserPolicy ''u'' ''u-policy'' p) \<in> set pre)"
proof -
  from rooted_deletion obtain pre post where
    run: "snd (Reconcile rooted_env (AWSActuator rooted_env) cr_key []) =
      pre @ EvUpdateCR (DeleteFinalizer minted_deleting FinalizerDeprovision)
        (Inr (DeleteFinalizer minted_deleting FinalizerDeprovision)) # post"
    by (meson insert_subset split_list)
  from aws_finalizer_means_no_user [OF rooted_faithful run _ rooted_kube(1) minted_decodes] run
  show ?thesis by force
qed

end
