(* ===== verification/ReconcileOutcome.thy ===== *)
theory ReconcileOutcome
  imports ReconcileSafety AwsModes AwsReturns
begin

text \<open>
  What a reconcile leaves behind for a request that is not being deleted, on every way through:
  a request that is up to date is left alone, the actuator's answer is recorded in the status,
  its errors become conditions, and the operator's own status is synced whatever happens.
\<close>

section \<open>Reading conditions\<close>

text \<open>The condition of the type is there and True.\<close>

definition holds :: "CredentialsRequest \<Rightarrow> CredentialsRequestConditionType \<Rightarrow> bool" where
  "holds cr ty \<longleftrightarrow> (\<exists>c. FindCredentialsRequestCondition (cr_conditions cr) ty = Some c \<and> cc_Status c = ConditionTrue)"

text \<open>It is True, with this reason and message.\<close>

definition reports_condition ::
    "CredentialsRequest \<Rightarrow> CredentialsRequestConditionType \<Rightarrow> string \<Rightarrow> string \<Rightarrow> bool" where
  "reports_condition cr ty reason msg \<longleftrightarrow> (\<exists>c. FindCredentialsRequestCondition (cr_conditions cr) ty = Some c \<and>
     cc_Status c = ConditionTrue \<and> cc_Reason c = reason \<and> cc_Message c = msg)"

lemma cr_conditions_set [simp]: "cr_conditions (set_Conditions f cr) = conds (f (Conditions (cr_Status cr)))"
  by (simp add: cr_conditions_def set_Conditions_def)

lemma conds_cr: "conds (Conditions (cr_Status cr)) = cr_conditions cr"
  by (simp add: cr_conditions_def)

lemma status_fields [simp]:
  "cr_conditions (set_Provisioned b cr) = cr_conditions cr" "cr_conditions (set_LastSync now g cr) = cr_conditions cr"
  "holds (set_Provisioned b cr) ty = holds cr ty" "holds (set_LastSync now g cr) ty = holds cr ty"
  "Provisioned (cr_Status (set_Provisioned b cr)) = b"
  "Provisioned (cr_Status (set_LastSync now g cr)) = Provisioned (cr_Status cr)"
  "Provisioned (cr_Status (set_Conditions f cr)) = Provisioned (cr_Status cr)"
  "LastSyncTimestamp (cr_Status (set_LastSync now g cr)) = Some now"
  "LastSyncGeneration (cr_Status (set_LastSync now g cr)) = g"
  by (simp_all add: cr_conditions_def set_Provisioned_def set_LastSync_def set_Conditions_def holds_def)

lemma condition_after_True:
  "(case condition_after now ty status reason msg check old of None \<Rightarrow> False | Some c \<Rightarrow> cc_Status c = ConditionTrue)
     \<longleftrightarrow> status = ConditionTrue"
  by (auto simp: condition_after_def split: option.splits)

lemma holds_set:
  "holds (set_Conditions (\<lambda>cs. SetCredentialsRequestCondition now cs ty status reason msg check) cr) ty' \<longleftrightarrow>
     (if ty' = ty then status = ConditionTrue else holds cr ty')"
  using condition_after_True [of now ty status reason msg check "FindCredentialsRequestCondition (cr_conditions cr) ty"]
  by (auto simp: holds_def Find_Set conds_cr split: option.splits)

lemma reports_set:
  "reports_condition (set_Conditions (\<lambda>cs. SetCredentialsRequestCondition now cs ty ConditionTrue reason msg
     UpdateConditionIfReasonOrMessageChange) cr) ty reason msg"
  by (auto simp: reports_condition_def Find_Set conds_cr condition_after_def
      UpdateConditionIfReasonOrMessageChange_def split: option.splits)

lemma reports_other:
  "ty' \<noteq> ty \<Longrightarrow> reports_condition (set_Conditions (\<lambda>cs. SetCredentialsRequestCondition now cs ty status r m check) cr)
     ty' reason msg \<longleftrightarrow> reports_condition cr ty' reason msg"
  by (simp add: reports_condition_def Find_Set conds_cr)

lemmas setter_defs = setMissingTargetNamespaceCondition_def setInsufficientCredsCondition_def
  setFailedToProvisionCredentialsRequest_def setCredentialsDeprovisionFailureCondition_def Let_def

lemma holds_setters [simp]:
  "holds (setMissingTargetNamespaceCondition now cr b) ty \<longleftrightarrow> (if ty = MissingTargetNamespace then b else holds cr ty)"
  "holds (setInsufficientCredsCondition now cr b) ty \<longleftrightarrow> (if ty = InsufficientCloudCredentials then b else holds cr ty)"
  "holds (setFailedToProvisionCredentialsRequest now cr b e) ty \<longleftrightarrow>
     (if ty = CredentialsProvisionFailure then b else holds cr ty)"
  "holds (setCredentialsDeprovisionFailureCondition now cr b e) ty \<longleftrightarrow>
     (if ty = CredentialsDeprovisionFailure then b else holds cr ty)"
  by (simp_all add: setter_defs holds_set)

lemma Provisioned_setters [simp]:
  "Provisioned (cr_Status (setMissingTargetNamespaceCondition now cr b)) = Provisioned (cr_Status cr)"
  "Provisioned (cr_Status (setInsufficientCredsCondition now cr b)) = Provisioned (cr_Status cr)"
  "Provisioned (cr_Status (setFailedToProvisionCredentialsRequest now cr b e)) = Provisioned (cr_Status cr)"
  by (simp_all add: setter_defs)

lemma reports_failed [simp]:
  "reports_condition (setFailedToProvisionCredentialsRequest now cr True (Some e)) CredentialsProvisionFailure
     ''CredentialsProvisionFailure'' (''failed to grant creds: '' @ error_text e)"
  "reports_condition (setInsufficientCredsCondition now cr b) CredentialsProvisionFailure r m \<longleftrightarrow>
     reports_condition cr CredentialsProvisionFailure r m"
  "reports_condition (setInsufficientCredsCondition now cr True) InsufficientCloudCredentials
     ''CloudCredsInsufficient'' ''cloud creds are insufficient to satisfy CredentialsRequest''"
  by (simp_all add: setter_defs reports_set reports_other credentialsProvisionFailure_def
      cloudCredsInsufficient_def)

section \<open>After the actuator\<close>

text \<open>The request with the conditions \<open>updateActuatorConditions\<close> sets at the two given times.\<close>

definition actuator_conditions ::
    "int \<Rightarrow> int \<Rightarrow> CredentialsRequest \<Rightarrow> CredentialsRequestConditionType \<Rightarrow> gerror option \<Rightarrow> CredentialsRequest" where
  "actuator_conditions n1 n2 cr reason err = setInsufficientCredsCondition n2
     (setFailedToProvisionCredentialsRequest n1 cr (reason = CredentialsProvisionFailure)
       (if reason = CredentialsProvisionFailure then err else None)) (reason = InsufficientCloudCredentials)"

lemma updateActuatorConditions_apply:
  obtains n1 n2 where "updateActuatorConditions E cr reason err t =
    (Return (actuator_conditions n1 n2 cr reason err), [EvNow n1, EvNow n2])"
  by (rule that [of "h_now (proc E) t" "h_now (proc E) (t @ [EvNow (h_now (proc E) t)])"])
    (simp add: updateActuatorConditions_def actuator_conditions_def bind_request_apply Let_def)

lemma updateStatus_apply:
  "updateStatus E origCR cr t =
     (if cr_Status cr = cr_Status origCR then (Return (cr, None), [])
      else case k_update_cr_status (kube E) t cr of
          Inl err \<Rightarrow> (Return (cr, Some err), [EvUpdateCRStatus cr (Inl err)])
        | Inr c \<Rightarrow> (Return (c, None), [EvUpdateCRStatus cr (Inr c)]))"
  by (simp add: updateStatus_def bind_request_apply split: sum.split)

text \<open>
  A computation has left \<open>c\<close> as the status of the request: it was already stored, or it was written
  in the last call; the answer is the error of that call, else \<open>err\<close>.
\<close>

definition left_status ::
    "CredentialsRequest \<Rightarrow> CredentialsRequest \<Rightarrow> gerror option \<Rightarrow> gerror option outcome \<times> event list \<Rightarrow> bool" where
  "left_status origCR c err run \<longleftrightarrow>
     (cr_Status c = cr_Status origCR \<and> fst run = Return err \<and> (\<forall>ev \<in> set (snd run). \<not> cr_write ev) \<or>
      (\<exists>pre r. snd run = pre @ [EvUpdateCRStatus c r] \<and> (\<forall>ev \<in> set pre. \<not> cr_write ev) \<and>
         fst run = Return (case r of Inl e \<Rightarrow> Some e | Inr _ \<Rightarrow> err)))"

lemma finish_reconcile_success:
  obtains c now where "left_status origCR c None (finish_reconcile E origCR cr None t)"
    "Provisioned (cr_Status c)" "LastSyncTimestamp (cr_Status c) = Some now"
    "LastSyncGeneration (cr_Status c) = om_Generation (cr_Meta origCR)"
    "\<not> holds c CredentialsProvisionFailure" "\<not> holds c InsufficientCloudCredentials"
    "\<And>ty. ty \<noteq> CredentialsProvisionFailure \<Longrightarrow> ty \<noteq> InsufficientCloudCredentials \<Longrightarrow> holds c ty \<longleftrightarrow> holds cr ty"
    "\<exists>t'. now = h_now (proc E) t'" "EvNow now \<in> set (snd (finish_reconcile E origCR cr None t))"
proof -
  obtain n1 n2 where u: "updateActuatorConditions E cr [] None t =
      (Return (actuator_conditions n1 n2 cr [] None), [EvNow n1, EvNow n2])"
    by (rule updateActuatorConditions_apply)
  let ?now = "h_now (proc E) (t @ [EvNow n1, EvNow n2])"
  let ?c = "set_LastSync ?now (om_Generation (cr_Meta origCR)) (set_Provisioned True (actuator_conditions n1 n2 cr [] None))"
  show thesis
  proof (rule that [of ?c ?now])
    show "left_status origCR ?c None (finish_reconcile E origCR cr None t)"
      by (simp add: left_status_def finish_reconcile_def fst_bind snd_bind u updateStatus_apply split: sum.split)
  qed (auto simp: actuator_conditions_def finish_reconcile_def snd_bind u)
qed

lemma finish_reconcile_failure:
  obtains c where "left_status origCR c (Some (ActuatorError reason msg))
      (finish_reconcile E origCR cr (Some (ActuatorError reason msg)) t)"
    "\<not> Provisioned (cr_Status c)"
    "reason = CredentialsProvisionFailure \<Longrightarrow> reports_condition c CredentialsProvisionFailure
       ''CredentialsProvisionFailure'' (''failed to grant creds: '' @ msg)"
    "reason = InsufficientCloudCredentials \<Longrightarrow> reports_condition c InsufficientCloudCredentials
       ''CloudCredsInsufficient'' ''cloud creds are insufficient to satisfy CredentialsRequest''"
    "reason \<noteq> CredentialsProvisionFailure \<Longrightarrow> \<not> holds c CredentialsProvisionFailure"
    "reason \<noteq> InsufficientCloudCredentials \<Longrightarrow> \<not> holds c InsufficientCloudCredentials"
proof -
  let ?e = "ActuatorError reason msg"
  obtain n1 n2 where u: "updateActuatorConditions E (set_Provisioned False cr) reason (Some ?e) t =
      (Return (actuator_conditions n1 n2 (set_Provisioned False cr) reason (Some ?e)), [EvNow n1, EvNow n2])"
    by (rule updateActuatorConditions_apply)
  let ?c = "actuator_conditions n1 n2 (set_Provisioned False cr) reason (Some ?e)"
  show thesis
  proof (rule that [of ?c])
    show "left_status origCR ?c (Some ?e) (finish_reconcile E origCR cr (Some ?e) t)"
      by (simp add: left_status_def finish_reconcile_def Let_def fst_bind snd_bind u updateStatus_apply split: sum.split)
  qed (use reports_failed(1) [of n1 "set_Provisioned False cr" ?e] in \<open>simp_all add: actuator_conditions_def\<close>)
qed

section \<open>Requests that are not being deleted\<close>

text \<open>
  The request \<open>cr\<close> is what the API server has, it is held by the finalizer, is not being deleted, and
  its target namespace is found.
\<close>

definition live_request :: "env \<Rightarrow> NamespacedName \<Rightarrow> event list \<Rightarrow> CredentialsRequest \<Rightarrow> bool" where
  "live_request E req t cr \<longleftrightarrow> k_get_cr (kube E) t req = Inr cr \<and> om_DeletionTimestamp (cr_Meta cr) = None \<and>
     HasFinalizer cr FinalizerDeprovision \<and>
     k_get_namespace (kube E) (t @ [EvGetCR req (Inr cr)]) (or_Namespace (SecretRef (cr_Spec cr))) = None"

text \<open>The calls up to the point where the namespace is known, the time read there, and the request then.\<close>

definition live_prefix :: "env \<Rightarrow> NamespacedName \<Rightarrow> event list \<Rightarrow> CredentialsRequest \<Rightarrow> event list" where
  "live_prefix E req t cr =
     (let ns = or_Namespace (SecretRef (cr_Spec cr)); pre = [EvGetCR req (Inr cr), EvGetNamespace ns None]
      in pre @ [EvNow (h_now (proc E) (t @ pre))])"

definition live_cr :: "env \<Rightarrow> NamespacedName \<Rightarrow> event list \<Rightarrow> CredentialsRequest \<Rightarrow> CredentialsRequest" where
  "live_cr E req t cr = setMissingTargetNamespaceCondition (h_now (proc E)
     (t @ [EvGetCR req (Inr cr), EvGetNamespace (or_Namespace (SecretRef (cr_Spec cr))) None])) cr False"

lemma live_body:
  assumes "live_request E req t cr"
  shows "reconcile_body E A req t = apsnd ((@) (live_prefix E req t cr))
    (reconcile_sync E A cr (live_cr E req t cr) (t @ live_prefix E req t cr))"
  using assms
  by (simp add: live_request_def body_apply reconcile_namespace_def bind_request_apply live_prefix_def live_cr_def
      prod_eq_iff Let_def)

lemma live_cr_fields [simp]:
  "om_Generation (cr_Meta (live_cr E req t cr)) = om_Generation (cr_Meta cr)"
  "LastSyncGeneration (cr_Status (live_cr E req t cr)) = LastSyncGeneration (cr_Status cr)"
  "LastSyncTimestamp (cr_Status (live_cr E req t cr)) = LastSyncTimestamp (cr_Status cr)"
  by (simp_all add: live_cr_def setter_defs set_Conditions_def)

text \<open>Whether the request is due for a sync by its recorded status, at a given time.\<close>

definition sync_due :: "CredentialsRequest \<Rightarrow> int \<Rightarrow> bool" where
  "sync_due cr now \<longleftrightarrow> om_Generation (cr_Meta cr) \<noteq> LastSyncGeneration (cr_Status cr) \<or>
     (case LastSyncTimestamp (cr_Status cr) of None \<Rightarrow> True | Some ts \<Rightarrow> ts + 3600 * 10 ^ 9 \<le> now)"

text \<open>The reading of the clock for the comparison, and the history when the actuator is first called.\<close>

definition clock_read :: "env \<Rightarrow> CredentialsRequest \<Rightarrow> event list \<Rightarrow> event list" where
  "clock_read E cr t = (if LastSyncTimestamp (cr_Status cr) = None then [] else [EvNow (h_now (proc E) t)])"

lemma reconcile_sync_apply:
  "reconcile_sync E A origCR cr t =
     (if \<not> sync_due cr (h_now (proc E) t) then (Return None, clock_read E cr t)
      else apsnd ((@) (clock_read E cr t)) (bind_go (act_Exists A cr) (\<lambda>r. case r of
            Inl err \<Rightarrow> ret (Some err)
          | Inr credsExists \<Rightarrow> bind_go (if \<not> credsExists then act_Create A cr else act_Update A cr) (\<lambda>r. case r of
              (cr, syncErr) \<Rightarrow> finish_reconcile E origCR cr syncErr)) (t @ clock_read E cr t)))"
proof (cases "LastSyncTimestamp (cr_Status cr)")
  case None
  then show ?thesis
    by (simp add: reconcile_sync_def hasRecentlySynced_def sync_due_def clock_read_def prod_eq_iff)
next
  case (Some ts)
  let ?now = "h_now (proc E) t"
  have "(ts + hour > ?now) = (\<not> ts + 3600 * 10 ^ 9 \<le> ?now)" by (auto simp: hour_def)
  with Some show ?thesis
    by (auto simp: reconcile_sync_def hasRecentlySynced_def sync_due_def clock_read_def bind_request_apply prod_eq_iff
        bind_assoc fst_bind snd_bind)
qed

definition sync_start :: "env \<Rightarrow> NamespacedName \<Rightarrow> event list \<Rightarrow> CredentialsRequest \<Rightarrow> event list" where
  "sync_start E req t cr = t @ live_prefix E req t cr @
     clock_read E (live_cr E req t cr) (t @ live_prefix E req t cr)"

text \<open>The time a reconcile compares with the time of the last sync.\<close>

definition sync_time :: "env \<Rightarrow> NamespacedName \<Rightarrow> event list \<Rightarrow> CredentialsRequest \<Rightarrow> int" where
  "sync_time E req t cr = h_now (proc E) (t @ live_prefix E req t cr)"

text \<open>The actuator was asked and answered: it gives back the request \<open>cr'\<close> and \<open>err\<close>.\<close>

definition actuator_answers ::
    "actuator \<Rightarrow> CredentialsRequest \<Rightarrow> event list \<Rightarrow> CredentialsRequest \<Rightarrow> gerror option \<Rightarrow> bool" where
  "actuator_answers A cr t cr' err \<longleftrightarrow> (\<exists>credsExists es1 es2. act_Exists A cr t = (Return (Inr credsExists), es1) \<and>
     (if \<not> credsExists then act_Create A cr else act_Update A cr) (t @ es1) = (Return (cr', err), es2))"

lemma live_due_body:
  assumes "live_request E req t cr" "sync_due cr (sync_time E req t cr)"
    and "actuator_answers A (live_cr E req t cr) (sync_start E req t cr) cr' err"
  obtains pre t' where "reconcile_body E A req t = apsnd ((@) pre) (finish_reconcile E cr cr' err t')"
proof -
  let ?c = "live_cr E req t cr" let ?t = "sync_start E req t cr"
  from assms(3) obtain credsExists es1 es2 where ex: "act_Exists A ?c ?t = (Return (Inr credsExists), es1)"
    and op: "(if \<not> credsExists then act_Create A ?c else act_Update A ?c) (?t @ es1) = (Return (cr', err), es2)"
    unfolding actuator_answers_def by blast
  have due: "sync_due ?c (h_now (proc E) (t @ live_prefix E req t cr))"
    using assms(2) by (simp add: sync_due_def sync_time_def)
  let ?pre = "live_prefix E req t cr @ clock_read E ?c (t @ live_prefix E req t cr) @ es1 @ es2"
  have "reconcile_body E A req t = apsnd ((@) ?pre) (finish_reconcile E cr cr' err (?t @ es1 @ es2))"
    using due ex op
    by (simp add: live_body [OF assms(1)] reconcile_sync_apply sync_start_def prod_eq_iff fst_bind snd_bind)
  then show ?thesis by (rule that)
qed

text \<open>
  C22. A live request that is up to date is left alone. Live means that it is read, is not being
  deleted, has the deprovision finalizer, and its target namespace is found (otherwise the
  reconcile deprovisions it, adds the finalizer, or reports the missing namespace). When then
  the recorded generation is the current one and the last sync was less than an hour ago,
  reconciling it succeeds, and neither it nor any secret nor anything in IAM is written,
  whatever the actuator is.
\<close>

theorem reconcile_skips_current:
  assumes "live_request E req t cr" and "\<not> sync_due cr (sync_time E req t cr)"
  shows "fst (reconcile_body E A req t) = Return None \<and>
    (\<forall>ev \<in> set (snd (Reconcile E A req t)). \<not> secret_write ev \<and> \<not> cr_write ev \<and> \<not> iam_write ev)"
proof -
  let ?P = "\<lambda>ev. \<not> secret_write ev \<and> \<not> cr_write ev \<and> \<not> iam_write ev"
  have "\<not> sync_due (live_cr E req t cr) (h_now (proc E) (t @ live_prefix E req t cr))"
    using assms(2) by (simp add: sync_due_def sync_time_def)
  then have body: "reconcile_body E A req t = (Return None, live_prefix E req t cr @
      clock_read E (live_cr E req t cr) (t @ live_prefix E req t cr))"
    by (simp add: live_body [OF assms(1)] reconcile_sync_apply)
  have "emits ?P (bind_go (syncOperatorStatus E) (\<lambda>_. ret ()))"
    by (intro emits_intros emits_syncOperatorStatus) simp_all
  from emitsD [OF this] have "?P ev" if "ev \<in> set (snd (Reconcile E A req t))" for ev
    using that by (auto simp: Reconcile_def snd_defer body live_prefix_def clock_read_def Let_def split: if_splits)
  then show ?thesis by (simp add: body)
qed

text \<open>
  C7. Success is recorded: when a due request's actuator has provisioned it without an error, the
  status the reconcile leaves, in its last call unless it was stored already, says provisioned,
  carries the generation that was read and the time of the sync, and has neither of the two
  actuator conditions True; the reconcile fails only if that write fails.
\<close>

theorem reconcile_success_recorded:
  assumes "live_request E req t cr" and "sync_due cr (sync_time E req t cr)"
    and "actuator_answers A (live_cr E req t cr) (sync_start E req t cr) cr' None"
  shows "\<exists>c now. Provisioned (cr_Status c) \<and> LastSyncGeneration (cr_Status c) = om_Generation (cr_Meta cr) \<and>
    LastSyncTimestamp (cr_Status c) = Some now \<and> EvNow now \<in> set (snd (reconcile_body E A req t)) \<and>
    \<not> holds c CredentialsProvisionFailure \<and> \<not> holds c InsufficientCloudCredentials \<and>
    (cr_Status c = cr_Status cr \<and> fst (reconcile_body E A req t) = Return None \<or>
     (\<exists>pre r. snd (reconcile_body E A req t) = pre @ [EvUpdateCRStatus c r] \<and>
        fst (reconcile_body E A req t) = Return (case r of Inl e \<Rightarrow> Some e | Inr _ \<Rightarrow> None)))"
proof -
  obtain pre t' where body: "reconcile_body E A req t = apsnd ((@) pre) (finish_reconcile E cr cr' None t')"
    by (rule live_due_body [OF assms])
  obtain c now where "left_status cr c None (finish_reconcile E cr cr' None t')"
    "Provisioned (cr_Status c)" "LastSyncTimestamp (cr_Status c) = Some now"
    "LastSyncGeneration (cr_Status c) = om_Generation (cr_Meta cr)"
    "\<not> holds c CredentialsProvisionFailure" "\<not> holds c InsufficientCloudCredentials"
    "EvNow now \<in> set (snd (finish_reconcile E cr cr' None t'))"
    by (rule finish_reconcile_success)
  then show ?thesis
    by (intro exI [of _ c] exI [of _ now]) (auto simp: body left_status_def)
qed

lemma reconcile_failure:
  assumes "live_request E req t cr" and "sync_due cr (sync_time E req t cr)"
    and "actuator_answers A (live_cr E req t cr) (sync_start E req t cr) cr' (Some (ActuatorError reason msg))"
  shows "\<exists>c. \<not> Provisioned (cr_Status c) \<and>
    (if reason = CredentialsProvisionFailure
     then reports_condition c CredentialsProvisionFailure ''CredentialsProvisionFailure'' (''failed to grant creds: '' @ msg)
     else \<not> holds c CredentialsProvisionFailure) \<and>
    (if reason = InsufficientCloudCredentials
     then reports_condition c InsufficientCloudCredentials ''CloudCredsInsufficient''
       ''cloud creds are insufficient to satisfy CredentialsRequest''
     else \<not> holds c InsufficientCloudCredentials) \<and>
    (cr_Status c = cr_Status cr \<and> fst (reconcile_body E A req t) = Return (Some (ActuatorError reason msg)) \<or>
     (\<exists>pre r. snd (reconcile_body E A req t) = pre @ [EvUpdateCRStatus c r] \<and>
        fst (reconcile_body E A req t) =
          Return (case r of Inl e \<Rightarrow> Some e | Inr _ \<Rightarrow> Some (ActuatorError reason msg))))"
proof -
  let ?e = "Some (ActuatorError reason msg)"
  obtain pre t' where body: "reconcile_body E A req t = apsnd ((@) pre) (finish_reconcile E cr cr' ?e t')"
    by (rule live_due_body [OF assms])
  obtain c where c: "left_status cr c ?e (finish_reconcile E cr cr' ?e t')" "\<not> Provisioned (cr_Status c)"
    "reason = CredentialsProvisionFailure \<Longrightarrow> reports_condition c CredentialsProvisionFailure
       ''CredentialsProvisionFailure'' (''failed to grant creds: '' @ msg)"
    "reason = InsufficientCloudCredentials \<Longrightarrow> reports_condition c InsufficientCloudCredentials
       ''CloudCredsInsufficient'' ''cloud creds are insufficient to satisfy CredentialsRequest''"
    "reason \<noteq> CredentialsProvisionFailure \<Longrightarrow> \<not> holds c CredentialsProvisionFailure"
    "reason \<noteq> InsufficientCloudCredentials \<Longrightarrow> \<not> holds c InsufficientCloudCredentials"
    using finish_reconcile_failure [of cr reason msg E cr' t'] by blast
  show ?thesis
  proof (intro exI [of _ c] conjI)
    show "cr_Status c = cr_Status cr \<and> fst (reconcile_body E A req t) = Return ?e \<or>
     (\<exists>pre r. snd (reconcile_body E A req t) = pre @ [EvUpdateCRStatus c r] \<and>
        fst (reconcile_body E A req t) = Return (case r of Inl e \<Rightarrow> Some e | Inr _ \<Rightarrow> ?e))"
      using c(1) by (auto simp: body left_status_def)
  qed (use c(2-) in auto)
qed

text \<open>
  C8. Failure becomes a condition: when the actuator fails a due request with an error that has a
  reason, the status the reconcile leaves says not provisioned, the condition of that reason is
  True with the documented text, the other actuator condition is not True, and the reconcile
  fails, with the actuator's error unless the status could not be written.
\<close>

theorem reconcile_failure_reported:
  assumes "live_request E req t cr" and "sync_due cr (sync_time E req t cr)"
    and "actuator_answers A (live_cr E req t cr) (sync_start E req t cr) cr' (Some (ActuatorError reason msg))"
  shows "\<exists>c. \<not> Provisioned (cr_Status c) \<and>
    (if reason = CredentialsProvisionFailure
     then reports_condition c CredentialsProvisionFailure ''CredentialsProvisionFailure'' (''failed to grant creds: '' @ msg)
     else \<not> holds c CredentialsProvisionFailure) \<and>
    (if reason = InsufficientCloudCredentials
     then reports_condition c InsufficientCloudCredentials ''CloudCredsInsufficient''
       ''cloud creds are insufficient to satisfy CredentialsRequest''
     else \<not> holds c InsufficientCloudCredentials) \<and>
    (cr_Status c = cr_Status cr \<and> fst (reconcile_body E A req t) = Return (Some (ActuatorError reason msg)) \<or>
     (\<exists>pre r. snd (reconcile_body E A req t) = pre @ [EvUpdateCRStatus c r] \<and>
        fst (reconcile_body E A req t) =
          Return (case r of Inl e \<Rightarrow> Some e | Inr _ \<Rightarrow> Some (ActuatorError reason msg))))"
  by (rule reconcile_failure [OF assms])

text \<open>
  C23. An error without a reason is returned as it is and nothing is recorded: the last calls of the
  reconcile before the deferred status sync are the actuator's own, and the status in the
  cluster keeps what it said.
\<close>

theorem reconcile_unexpected_error:
  assumes "live_request E req t cr" and "sync_due cr (sync_time E req t cr)"
    and "actuator_answers A (live_cr E req t cr) (sync_start E req t cr) cr' (Some e)"
    and "\<And>reason msg. e \<noteq> ActuatorError reason msg"
  shows "fst (reconcile_body E A req t) = Return (Some e) \<and>
    (\<exists>pre credsExists es1 es2. snd (reconcile_body E A req t) = pre @ es1 @ es2 \<and> (\<forall>ev \<in> set pre. read_only ev) \<and>
       act_Exists A (live_cr E req t cr) (sync_start E req t cr) = (Return (Inr credsExists), es1) \<and>
       (if \<not> credsExists then act_Create A (live_cr E req t cr) else act_Update A (live_cr E req t cr))
         (sync_start E req t cr @ es1) = (Return (cr', Some e), es2))"
proof -
  let ?c = "live_cr E req t cr" let ?t = "sync_start E req t cr"
  from assms(3) obtain credsExists es1 es2 where ex: "act_Exists A ?c ?t = (Return (Inr credsExists), es1)"
    and op: "(if \<not> credsExists then act_Create A ?c else act_Update A ?c) (?t @ es1) = (Return (cr', Some e), es2)"
    unfolding actuator_answers_def by blast
  have due: "sync_due ?c (h_now (proc E) (t @ live_prefix E req t cr))"
    using assms(2) by (simp add: sync_due_def sync_time_def)
  have no_reason: "ActuatorStatus_Reason e = None" using assms(4) by (cases e) auto
  let ?pre = "live_prefix E req t cr @ clock_read E ?c (t @ live_prefix E req t cr)"
  have "reconcile_body E A req t = (Return (Some e), ?pre @ es1 @ es2)"
    using due ex op
    by (simp add: live_body [OF assms(1)] reconcile_sync_apply sync_start_def prod_eq_iff fst_bind snd_bind
        finish_reconcile_def no_reason)
  moreover have "\<forall>ev \<in> set ?pre. read_only ev" by (auto simp: live_prefix_def clock_read_def Let_def)
  ultimately show ?thesis using ex op by auto
qed

section \<open>The operator's status\<close>

text \<open>Creating the ClusterOperator resource does not lose a condition type.\<close>

definition creates_keep_conditions :: "env \<Rightarrow> bool" where
  "creates_keep_conditions E \<longleftrightarrow> (\<forall>t co co'. k_create_co (kube E) t co = Inr co' \<longrightarrow>
     oc_Type ` set (co_Conditions co) \<subseteq> oc_Type ` set (co_Conditions co'))"

lemma status_sync_returns: "creates_keep_conditions E \<Longrightarrow> always_returns (syncOperatorStatus E)"
  by (rule syncOperatorStatus_returns) (auto simp: creates_keep_conditions_def)

lemma syncOperatorStatus_first:
  obtains r es where "snd (syncOperatorStatus E t) = EvGetCO ''cloud-credential'' r # es"
  by (rule that) (simp add: syncOperatorStatus_def bind_request_apply cloudCredClusterOperator_def)

text \<open>
  C24. The operator's own status is synced after every reconcile that comes back, a failed or
  panicking one included: the calls of the body are followed by a read of the ClusterOperator
  resource and by nothing that writes a request, a secret or IAM; and the outcome of the body
  stands, as long as creating the resource does not lose a condition type.
\<close>

theorem operator_status_always_synced:
  assumes "fst (reconcile_body E A req t) \<noteq> Stop Diverged"
  shows "(\<exists>r es. snd (Reconcile E A req t) =
       snd (reconcile_body E A req t) @ EvGetCO ''cloud-credential'' r # es \<and>
       (\<forall>ev \<in> set es. \<not> secret_write ev \<and> \<not> cr_write ev \<and> \<not> iam_write ev)) \<and>
    (creates_keep_conditions E \<longrightarrow> fst (Reconcile E A req t) = fst (reconcile_body E A req t))"
proof -
  let ?P = "\<lambda>ev. \<not> secret_write ev \<and> \<not> cr_write ev \<and> \<not> iam_write ev"
  let ?t = "t @ snd (reconcile_body E A req t)"
  let ?d = "bind_go (syncOperatorStatus E) (\<lambda>_. ret ())"
  have P: "emits ?P ?d" by (intro emits_intros emits_syncOperatorStatus) simp_all
  obtain r es where r: "snd (syncOperatorStatus E ?t) = EvGetCO ''cloud-credential'' r # es"
    by (rule syncOperatorStatus_first)
  then obtain es' where es': "snd (?d ?t) = EvGetCO ''cloud-credential'' r # es'" by (simp add: snd_bind)
  moreover from this have "\<forall>ev \<in> set es'. ?P ev" using emitsD [OF P, of _ ?t] by simp
  moreover have "fst (Reconcile E A req t) = fst (reconcile_body E A req t)" if "creates_keep_conditions E"
    using always_returnsD [OF status_sync_returns [OF that], of ?t] assms
    by (auto simp: Reconcile_def fst_defer fst_bind)
  ultimately show ?thesis using assms by (auto simp: Reconcile_def snd_defer)
qed

section \<open>Reconciles that always come back\<close>

lemma returns_updateStatus [returns_intros]: "always_returns (updateStatus E origCR cr)"
  unfolding updateStatus_def by (intro returns_intros)

lemma returns_finish_reconcile [returns_intros]: "always_returns (finish_reconcile E origCR cr err)"
  unfolding finish_reconcile_def updateActuatorConditions_def Let_def by (intro returns_intros)

definition actuator_returns :: "actuator \<Rightarrow> CredentialsRequest \<Rightarrow> bool" where
  "actuator_returns A cr \<longleftrightarrow> always_returns (act_Exists A cr) \<and> always_returns (act_Create A cr) \<and>
     always_returns (act_Update A cr) \<and> always_returns (act_Delete A cr)"

lemma returns_reconcile_deletion:
  "actuator_returns A cr \<Longrightarrow> always_returns (reconcile_deletion E A origCR cr)"
  unfolding reconcile_deletion_def deprovision_failed_def deprovision_done_def delete_target_secret_def
    removeDeprovisionFinalizer_def actuator_returns_def
  by (intro returns_intros) auto

lemma returns_reconcile_namespace:
  assumes "\<And>now. actuator_returns A (setMissingTargetNamespaceCondition now cr False)"
  shows "always_returns (reconcile_namespace E A origCR cr)"
  using assms unfolding reconcile_namespace_def reconcile_sync_def hasRecentlySynced_def Let_def actuator_returns_def
  by (intro returns_intros) auto

lemma reconcile_body_returns:
  assumes A: "\<And>cr. ProviderSpec (cr_Spec cr) \<noteq> None \<Longrightarrow> actuator_returns A cr"
    and spec: "\<And>t n cr. k_get_cr (kube E) t n = Inr cr \<Longrightarrow> ProviderSpec (cr_Spec cr) \<noteq> None"
  shows "always_returns (reconcile_body E A req)"
  unfolding always_returns_def
proof
  fix t
  show "\<exists>r. fst (reconcile_body E A req t) = Return r"
  proof (cases "k_get_cr (kube E) t req")
    case (Inr cr)
    let ?t = "t @ [EvGetCR req (Inr cr)]"
    from spec [OF Inr] have "actuator_returns A cr"
      and "actuator_returns A (setMissingTargetNamespaceCondition now cr False)" for now
      by (auto intro!: A simp: setter_defs set_Conditions_def)
    moreover have "always_returns (addDeprovisionFinalizer E cr)"
      unfolding addDeprovisionFinalizer_def by (intro returns_intros)
    ultimately show ?thesis
      using always_returnsD [OF returns_reconcile_deletion, of A cr E cr ?t]
        always_returnsD [OF returns_reconcile_namespace, of A cr E cr ?t]
      by (auto simp: body_apply Inr always_returns_def)
  qed (simp add: body_apply)
qed

lemma azure_returns: "ProviderSpec (cr_Spec cr) \<noteq> None \<Longrightarrow> actuator_returns (AzureActuator E) cr"
  unfolding actuator_returns_def AzureActuator_def actuator.select_convs passthrough_Create_def passthrough_Update_def
    clientWrapper_RootSecret_def clientWrapper_Secret_def base_Exists_def base_Delete_def newRequest_def
    DecodeProviderSpec_def Let_def
  by (intro conjI returns_intros) auto

lemma dummy_returns: "actuator_returns DummyActuator cr"
  by (simp add: actuator_returns_def DummyActuator_def DummyActuator_Exists_def DummyActuator_Create_def
      DummyActuator_Update_def DummyActuator_Delete_def)

text \<open>
  C25. A reconcile always comes back: it neither panics nor runs for ever, whatever the API server
  answers, provided that every request has a provider spec and creating the ClusterOperator
  resource does not lose a condition type. With the AWS actuator this also needs what it relies on:
  IAM answers with the fields it documents, no other party creates the same user between the
  actuator's look-up and its creation, secrets that are read have data, and random words have
  usable letters.
\<close>

theorem reconcile_returns:
  assumes "A \<in> {AzureActuator E, DummyActuator} \<or> A = AWSActuator E \<and> aws_benign E"
    and "\<And>t n cr. k_get_cr (kube E) t n = Inr cr \<Longrightarrow> ProviderSpec (cr_Spec cr) \<noteq> None"
    and "creates_keep_conditions E"
  shows "\<exists>r. fst (Reconcile E A req t) = Return r"
proof -
  from assms(1) have "actuator_returns A cr" if "ProviderSpec (cr_Spec cr) \<noteq> None" for cr
    using that azure_returns dummy_returns aws_returns by (auto simp: actuator_returns_def)
  then have "always_returns (reconcile_body E A req)" by (rule reconcile_body_returns) (use assms(2) in auto)
  with status_sync_returns [OF assms(3)] show ?thesis
    by (auto simp: Reconcile_def fst_defer fst_bind always_returns_def split: outcome.splits)
      (metis outcome.distinct(1))+
qed

section \<open>Concrete reconciles\<close>

text \<open>A request that is held by the finalizer, last synced at the given time, in a cluster that has it.\<close>

definition held_cr :: "int option \<Rightarrow> CredentialsRequest" where
  "held_cr ts = (let cr = SetFinalizers (sample_cr None) [FinalizerDeprovision]
     in cr\<lparr>cr_Status := (cr_Status cr)\<lparr>LastSyncTimestamp := ts\<rparr>\<rparr>)"

definition held_env :: "int option \<Rightarrow> (NamespacedName \<Rightarrow> gerror + Secret) \<Rightarrow> env" where
  "held_env ts secrets = sample_env (sample_kube\<lparr>
     k_get_cr := \<lambda>t n. if n = cr_key then Inr (held_cr ts) else Inl not_found,
     k_get_secret := \<lambda>t n. secrets n\<rparr>) sample_iam"

lemma held_live [simp]: "live_request (held_env ts secrets) cr_key t (held_cr ts)"
  by (simp add: live_request_def held_env_def held_cr_def SetFinalizers_def HasFinalizer_iff GetFinalizers_def Let_def
      sample_cr_def empty_ObjectMeta_def)

lemma held_due [simp]: "sync_due (held_cr None) now" "\<not> sync_due (held_cr (Some 0)) (sync_time (held_env ts secrets) req [] cr)"
  by (simp_all add: sync_due_def sync_time_def live_prefix_def held_env_def held_cr_def SetFinalizers_def Let_def
      sample_cr_def empty_ObjectMeta_def)

lemma dummy_answers [simp]: "actuator_answers DummyActuator cr t cr None"
  unfolding actuator_answers_def
  by (rule exI [of _ True]) (simp add: DummyActuator_def DummyActuator_Exists_def DummyActuator_Update_def)

lemma azure_newRequest:
  assumes "codec E = sample_codec" "proc E = sample_host" "ProviderStatus (cr_Status cr) = None" "ProviderSpec (cr_Spec cr) = Some raw"
  shows "newRequest E cr t = (Return (Inr \<lparr>req_CredentialsRequest = cr,
    AzureSpec = \<lparr>azure_spec_TypeMeta = empty_TypeMeta, RoleBindings = None\<rparr>, AzureStatus = empty_AzureProviderStatus\<rparr>), [])"
  by (simp add: newRequest_def DecodeProviderStatus_def DecodeProviderSpec_def assms sample_codec_def try_go_def
      prod_eq_iff fst_bind snd_bind)

lemma azure_not_there:
  assumes "codec E = sample_codec" "proc E = sample_host" "ProviderStatus (cr_Status cr) = None" "ProviderSpec (cr_Spec cr) = Some raw"
  shows "act_Exists (AzureActuator E) cr t = (Return (Inr False), [])"
  by (simp add: AzureActuator_def base_Exists_def try_go_def prod_eq_iff fst_bind snd_bind azure_newRequest [OF assms]
      empty_AzureProviderStatus_def)

lemma azure_answers:
  assumes "codec E = sample_codec" "proc E = sample_host" "ProviderStatus (cr_Status cr) = None" "ProviderSpec (cr_Spec cr) = Some raw"
    and "fst (passthrough_Update E cr t) = Return err"
  shows "actuator_answers (AzureActuator E) cr t cr err"
  unfolding actuator_answers_def azure_not_there [OF assms(1-4)]
  by (rule exI [of _ False]) (simp add: AzureActuator_def passthrough_Create_def prod_eq_iff fst_bind assms(5))

lemma held_env_simps [simp]:
  "codec (held_env ts secrets) = sample_codec" "proc (held_env ts secrets) = sample_host"
  "ProviderStatus (cr_Status (live_cr E req t (held_cr ts))) = None"
  "ProviderSpec (cr_Spec (live_cr E req t (held_cr ts))) = Some ''spec''"
  "k_get_secret (kube (held_env ts secrets)) t n = secrets n"
  by (simp_all add: held_env_def live_cr_def held_cr_def setter_defs set_Conditions_def SetFinalizers_def)

abbreviation no_secrets :: "NamespacedName \<Rightarrow> gerror + Secret" where
  "no_secrets \<equiv> \<lambda>n. Inl not_found"

text \<open>An Azure root secret the annotator has not seen.\<close>

abbreviation plain_secrets :: "NamespacedName \<Rightarrow> gerror + Secret" where
  "plain_secrets \<equiv> \<lambda>n. Inr empty_Secret"

theorem reconcile_skips_current_witness:
  "fst (reconcile_body (held_env (Some 0) no_secrets) DummyActuator cr_key []) = Return None"
  using reconcile_skips_current [OF held_live held_due(2)] by blast

lemma held_cr_status:
  "\<not> Provisioned (cr_Status (held_cr ts))" "cr_conditions (held_cr ts) = []" "om_Generation (cr_Meta (held_cr ts)) = 0"
  by (simp_all add: held_cr_def SetFinalizers_def sample_cr_def empty_ObjectMeta_def Let_def cr_conditions_def)

theorem reconcile_success_recorded_witness:
  "\<exists>c r. last (snd (reconcile_body (held_env None no_secrets) DummyActuator cr_key [])) = EvUpdateCRStatus c r \<and>
     Provisioned (cr_Status c) \<and> LastSyncGeneration (cr_Status c) = 0 \<and> \<not> holds c CredentialsProvisionFailure"
proof -
  from reconcile_success_recorded [OF held_live held_due(1) dummy_answers, of no_secrets "[]"] held_cr_status(1,3) [of None]
  show ?thesis by (metis last_snoc)
qed

theorem reconcile_failure_reported_witness:
  "\<exists>c r. last (snd (reconcile_body (held_env None plain_secrets) (AzureActuator (held_env None plain_secrets)) cr_key [])) =
       EvUpdateCRStatus c r \<and>
     \<not> Provisioned (cr_Status c) \<and> reports_condition c CredentialsProvisionFailure ''CredentialsProvisionFailure''
       (''failed to grant creds: cannot proceed without cloud cred secret annotation '' @ Secret_String sample_host empty_Secret)"
proof -
  let ?E = "held_env None plain_secrets"
  let ?e = "ActuatorError CredentialsProvisionFailure
    (''cannot proceed without cloud cred secret annotation '' @ Secret_String sample_host empty_Secret)"
  have "\<not> HasAnnotation empty_Secret" by (simp add: HasAnnotation_def empty_Secret_def empty_ObjectMeta_def)
  then have "fst (passthrough_Update ?E cr t) = Return (Some ?e)" for cr t
    by (simp add: passthrough_Update_def clientWrapper_RootSecret_def clientWrapper_Secret_def try_go_def bind_assoc
        bind_request_apply)
  then have "actuator_answers (AzureActuator ?E) (live_cr ?E cr_key [] (held_cr None)) (sync_start ?E cr_key [] (held_cr None))
      (live_cr ?E cr_key [] (held_cr None)) (Some ?e)"
    by (intro azure_answers [where raw = "''spec''"]) simp_all
  from reconcile_failure_reported [OF held_live held_due(1) this] obtain c where c: "\<not> Provisioned (cr_Status c)"
    "reports_condition c CredentialsProvisionFailure ''CredentialsProvisionFailure'' (''failed to grant creds: '' @
       ''cannot proceed without cloud cred secret annotation '' @ Secret_String sample_host empty_Secret)"
    and left: "cr_Status c = cr_Status (held_cr None) \<or>
      (\<exists>pre r. snd (reconcile_body ?E (AzureActuator ?E) cr_key []) = pre @ [EvUpdateCRStatus c r])"
    by auto
  from c(2) held_cr_status(2) [of None] have "cr_Status c \<noteq> cr_Status (held_cr None)"
    by (auto simp: reports_condition_def cr_conditions_def)
  with left c show ?thesis by (metis append.assoc append_Cons append_Nil last_snoc)
qed

theorem reconcile_unexpected_error_witness:
  "fst (reconcile_body (held_env None no_secrets) (AzureActuator (held_env None no_secrets)) cr_key []) =
     Return (Some not_found)"
proof -
  let ?E = "held_env None no_secrets"
  have "fst (passthrough_Update ?E cr t) = Return (Some not_found)" for cr t
    by (simp add: passthrough_Update_def clientWrapper_RootSecret_def clientWrapper_Secret_def try_go_def bind_assoc
        bind_request_apply)
  then have "actuator_answers (AzureActuator ?E) (live_cr ?E cr_key [] (held_cr None)) (sync_start ?E cr_key [] (held_cr None))
      (live_cr ?E cr_key [] (held_cr None)) (Some not_found)"
    by (intro azure_answers [where raw = "''spec''"]) simp_all
  from reconcile_unexpected_error [OF held_live held_due(1) this] show ?thesis by (simp add: not_found_def)
qed

theorem operator_status_always_synced_witness:
  "\<exists>r es. snd (Reconcile (held_env (Some 0) no_secrets) DummyActuator cr_key []) =
     snd (reconcile_body (held_env (Some 0) no_secrets) DummyActuator cr_key []) @ EvGetCO ''cloud-credential'' r # es"
proof -
  have "reconcile_body (held_env (Some 0) no_secrets) DummyActuator cr_key [] =
      (Return None, live_prefix (held_env (Some 0) no_secrets) cr_key [] (held_cr (Some 0)) @
        clock_read (held_env (Some 0) no_secrets) (live_cr (held_env (Some 0) no_secrets) cr_key [] (held_cr (Some 0)))
          (live_prefix (held_env (Some 0) no_secrets) cr_key [] (held_cr (Some 0))))"
    using held_due(2) [of "Some 0" no_secrets cr_key "held_cr (Some 0)"]
    by (simp add: live_body [OF held_live] reconcile_sync_apply sync_due_def sync_time_def)
  with operator_status_always_synced [of "held_env (Some 0) no_secrets" DummyActuator cr_key "[]"]
  show ?thesis by auto
qed

lemma held_benign: "aws_benign (held_env ts no_secrets)"
  by (auto simp: aws_benign_def iam_complete_def complete_user_def no_create_race_def secrets_have_data_def
      random_usable_def usable_def alphanumsIdx_def held_env_def sample_defs sample_user_def sample_host_def intro: exI [of _ 0])

theorem reconcile_returns_witness:
  "\<exists>r. fst (Reconcile (held_env None no_secrets) (AWSActuator (held_env None no_secrets)) cr_key []) = Return r"
proof (rule reconcile_returns)
  show "AWSActuator (held_env None no_secrets) \<in> {AzureActuator (held_env None no_secrets), DummyActuator} \<or>
      AWSActuator (held_env None no_secrets) = AWSActuator (held_env None no_secrets) \<and> aws_benign (held_env None no_secrets)"
    by (simp add: held_benign)
  show "creates_keep_conditions (held_env None no_secrets)"
    by (simp add: creates_keep_conditions_def held_env_def)
qed (auto simp: held_env_def held_cr_def SetFinalizers_def Let_def split: if_splits)

end
