(* ===== verification/Watches.thy ===== *)
theory Watches
  imports ReconcileOutcome
begin

text \<open>
  The watches of the two controllers: which requests an event on a watched object puts on the work
  queue. \<open>pkg/controller/credentialsrequest/credentialsrequest_controller.go\<close> (function \<open>add\<close>) watches
  the requests themselves, the secrets it has written and the namespaces;
  \<open>pkg/controller/secretannotator\<close> (function \<open>add\<close>) watches the root secret. The predicates and the
  two event handlers they use are those of \<open>sigs.k8s.io/controller-runtime\<close>.

  The lemmas show that the back reference on a secret leads back to its request for every
  secret a reconcile writes, and what a new namespace triggers.
\<close>

section \<open>Events, predicates and handlers\<close>

datatype watch_event =
    CreateEvent ObjectMeta
  | UpdateEvent (MetaOld: ObjectMeta) (MetaNew: ObjectMeta)
  | DeleteEvent ObjectMeta
  | GenericEvent ObjectMeta

text \<open>\<open>predicate.Funcs\<close>: a missing function accepts every event.\<close>

record Funcs =
  CreateFunc :: "(ObjectMeta \<Rightarrow> bool) option"
  DeleteFunc :: "(ObjectMeta \<Rightarrow> bool) option"
  UpdateFunc :: "(ObjectMeta \<Rightarrow> ObjectMeta \<Rightarrow> bool) option"
  GenericFunc :: "(ObjectMeta \<Rightarrow> bool) option"

fun Funcs_accepts :: "Funcs \<Rightarrow> watch_event \<Rightarrow> bool" where
  "Funcs_accepts p (CreateEvent m) = (case CreateFunc p of Some f \<Rightarrow> f m | None \<Rightarrow> True)"
| "Funcs_accepts p (DeleteEvent m) = (case DeleteFunc p of Some f \<Rightarrow> f m | None \<Rightarrow> True)"
| "Funcs_accepts p (UpdateEvent old new) = (case UpdateFunc p of Some f \<Rightarrow> f old new | None \<Rightarrow> True)"
| "Funcs_accepts p (GenericEvent m) = (case GenericFunc p of Some f \<Rightarrow> f m | None \<Rightarrow> True)"

text \<open>The keys the handlers add to the queue, in order.\<close>

definition object_key :: "ObjectMeta \<Rightarrow> NamespacedName" where
  "object_key m = \<lparr>nn_Namespace = om_Namespace m, nn_Name = om_Name m\<rparr>"

fun EnqueueRequestForObject :: "watch_event \<Rightarrow> NamespacedName list" where
  "EnqueueRequestForObject (CreateEvent m) = [object_key m]"
| "EnqueueRequestForObject (UpdateEvent old new) = [object_key old, object_key new]"
| "EnqueueRequestForObject (DeleteEvent m) = [object_key m]"
| "EnqueueRequestForObject (GenericEvent m) = [object_key m]"

fun EnqueueRequestsFromMapFunc :: "(ObjectMeta \<Rightarrow> NamespacedName list io) \<Rightarrow> watch_event \<Rightarrow> NamespacedName list io" where
  "EnqueueRequestsFromMapFunc f (CreateEvent m) = f m"
| "EnqueueRequestsFromMapFunc f (UpdateEvent old new) =
     bind_go (f old) (\<lambda>xs. bind_go (f new) (\<lambda>ys. ret (xs @ ys)))"
| "EnqueueRequestsFromMapFunc f (DeleteEvent m) = f m"
| "EnqueueRequestsFromMapFunc f (GenericEvent m) = f m"

text \<open>\<open>OnAdd\<close>, \<open>OnUpdate\<close> and \<open>OnDelete\<close> of the event source: every predicate must accept.\<close>

fun passes :: "Funcs list \<Rightarrow> watch_event \<Rightarrow> bool" where
  "passes [] e = True"
| "passes (p # ps) e = (if \<not> Funcs_accepts p e then False else passes ps e)"

section \<open>The watches of the credentials request controller\<close>

definition secret_mapFn :: "ObjectMeta \<Rightarrow> NamespacedName list" where
  "secret_mapFn a =
     (case SplitMetaNamespaceKey (map_get_str (om_Annotations a) AnnotationCredentialsRequest) of
        None \<Rightarrow> []
      | Some (namespace, name) \<Rightarrow> [\<lparr>nn_Namespace = namespace, nn_Name = name\<rparr>])"

definition has_back_reference :: "ObjectMeta \<Rightarrow> bool" where
  "has_back_reference m = (case map_get (om_Annotations m) AnnotationCredentialsRequest of
     None \<Rightarrow> False | Some _ \<Rightarrow> True)"

definition secret_predicate :: Funcs where
  "secret_predicate = \<lparr>CreateFunc = Some has_back_reference, DeleteFunc = Some has_back_reference,
     UpdateFunc = Some (\<lambda>old new. has_back_reference old), GenericFunc = None\<rparr>"

text \<open>The loop of \<open>namespaceMapFn\<close>. The error of the list call is dropped, which leaves an empty list.\<close>

fun namespace_requests :: "string \<Rightarrow> CredentialsRequest list \<Rightarrow> NamespacedName list \<Rightarrow> NamespacedName list" where
  "namespace_requests newNamespace [] requests = requests"
| "namespace_requests newNamespace (cr # crs) requests =
     namespace_requests newNamespace crs
       (if \<not> Provisioned (cr_Status cr) \<and> or_Namespace (SecretRef (cr_Spec cr)) = newNamespace
        then requests @ [\<lparr>nn_Namespace = cr_Namespace cr, nn_Name = cr_Name cr\<rparr>] else requests)"

definition namespaceMapFn :: "env \<Rightarrow> ObjectMeta \<Rightarrow> NamespacedName list io" where
  "namespaceMapFn E a =
     bind_go (kListCR E []) (\<lambda>r.
       let items = (case r of Inl _ \<Rightarrow> [] | Inr crs \<Rightarrow> crs)
       in ret (namespace_requests (om_Name a) items []))"

definition namespacePred :: Funcs where
  "namespacePred = \<lparr>CreateFunc = Some (\<lambda>m. True), DeleteFunc = Some (\<lambda>m. False),
     UpdateFunc = Some (\<lambda>old new. False), GenericFunc = None\<rparr>"

text \<open>The three watches \<open>add\<close> sets up, as the keys an event adds to the queue.\<close>

definition watch_requests :: "watch_event \<Rightarrow> NamespacedName list" where
  "watch_requests e = EnqueueRequestForObject e"

definition watch_secrets :: "watch_event \<Rightarrow> NamespacedName list io" where
  "watch_secrets e =
     (if passes [secret_predicate] e then EnqueueRequestsFromMapFunc (\<lambda>m. ret (secret_mapFn m)) e else ret [])"

definition watch_namespaces :: "env \<Rightarrow> watch_event \<Rightarrow> NamespacedName list io" where
  "watch_namespaces E e =
     (if passes [namespacePred] e then EnqueueRequestsFromMapFunc (namespaceMapFn E) e else ret [])"

section \<open>The watch of the secret annotator\<close>

definition annotator_predicate :: Funcs where
  "annotator_predicate = \<lparr>CreateFunc = Some cloudCredSecretObjectCheck, DeleteFunc = Some cloudCredSecretObjectCheck,
     UpdateFunc = Some (\<lambda>old new. cloudCredSecretObjectCheck new), GenericFunc = None\<rparr>"

definition watch_root_secret :: "watch_event \<Rightarrow> NamespacedName list" where
  "watch_root_secret e = (if passes [annotator_predicate] e then EnqueueRequestForObject e else [])"

section \<open>From a secret back to its request\<close>

lemma secret_mapFn_back:
  assumes "map_get (om_Annotations m) AnnotationCredentialsRequest = Some (cr_ref cr)"
    and "CHR ''/'' \<notin> set (cr_Namespace cr)" "CHR ''/'' \<notin> set (cr_Name cr)"
  shows "has_back_reference m" and "secret_mapFn m = [\<lparr>nn_Namespace = cr_Namespace cr, nn_Name = cr_Name cr\<rparr>]"
  using assms SplitMetaNamespaceKey_join [of "cr_Namespace cr" "cr_Name cr"]
  by (simp_all add: has_back_reference_def secret_mapFn_def map_get_str_def cr_ref_def)

text \<open>What the API documents of reading a request: the answer is the object that was asked for.\<close>

definition cr_reads_faithful :: "env \<Rightarrow> bool" where
  "cr_reads_faithful E \<longleftrightarrow> (\<forall>t n cr. k_get_cr (kube E) t n = Inr cr \<longrightarrow>
     n = \<lparr>nn_Namespace = cr_Namespace cr, nn_Name = cr_Name cr\<rparr>)"

context actuator_laws
begin

lemma written_for_request:
  assumes "api_faithful E" and ev: "ev \<in> set (snd (Reconcile E A req t))" "ev \<in> {EvCreateSecret s r, EvUpdateSecret s r}"
  obtains cr where "k_get_cr (kube E) t req = Inr cr" "for_request cr s"
proof -
  have "secret_write ev \<or> iam_write ev" using ev(2) by auto
  from provision_guard [OF ev(1) this] ev(2) obtain cr where cr: "k_get_cr (kube E) t req = Inr cr"
    "HasFinalizer cr FinalizerDeprovision" "om_DeletionTimestamp (cr_Meta cr) = None"
    by (auto split: if_splits)
  have "ev \<in> set (snd (reconcile_body E A req t))"
    by (rule Reconcile_event [OF ev(1)]) (use ev(2) in auto)
  with cr ev(2) have "ev \<in> set (snd (reconcile_namespace E A cr cr (t @ [EvGetCR req (Inr cr)])))"
    by (auto simp: body_apply)
  from emitsD [OF live_target [OF assms(1)] this] ev(2) have "for_request cr s"
    by (auto simp: target_write_def on_target_def)
  with cr(1) show ?thesis by (rule that)
qed

end

text \<open>
  C12. The back reference closes the loop: for every secret a reconcile of \<open>req\<close> creates or updates,
  a later create or delete event on that secret puts exactly \<open>req\<close> on the queue, and an update
  event puts it there first, as long as the request's name and namespace have no slash and the
  API server answers as documented.
\<close>

theorem written_secrets_map_back:
  assumes A: "A \<in> {AWSActuator E, AzureActuator E, DummyActuator}"
    and "api_faithful E" "cr_reads_faithful E"
    and "ev \<in> set (snd (Reconcile E A req t))" "ev \<in> {EvCreateSecret s r, EvUpdateSecret s r}"
    and "CHR ''/'' \<notin> set (nn_Namespace req)" "CHR ''/'' \<notin> set (nn_Name req)"
  shows "watch_secrets (CreateEvent (sec_Meta s)) t' = (Return [req], []) \<and>
    watch_secrets (DeleteEvent (sec_Meta s)) t' = (Return [req], []) \<and>
    (\<exists>rest. watch_secrets (UpdateEvent (sec_Meta s) new) t' = (Return (req # rest), []))"
proof -
  obtain cr where cr: "k_get_cr (kube E) t req = Inr cr" "for_request cr s"
    by (rule actuator_laws.written_for_request [OF operator_actuator [OF A] assms(2,4,5)])
  with assms(3) have req: "req = \<lparr>nn_Namespace = cr_Namespace cr, nn_Name = cr_Name cr\<rparr>"
    by (simp add: cr_reads_faithful_def)
  have "map_get (om_Annotations (sec_Meta s)) AnnotationCredentialsRequest = Some (cr_ref cr)"
    using cr(2) by (simp add: for_request_def)
  from secret_mapFn_back [OF this] assms(6,7) req
  have "has_back_reference (sec_Meta s)" "secret_mapFn (sec_Meta s) = [req]" by simp_all
  then show ?thesis
    by (simp add: watch_secrets_def secret_predicate_def prod_eq_iff fst_bind snd_bind)
qed

section \<open>New namespaces\<close>

lemma namespace_requests_eq:
  "namespace_requests ns crs reqs = reqs @ map (\<lambda>cr. \<lparr>nn_Namespace = cr_Namespace cr, nn_Name = cr_Name cr\<rparr>)
     (filter (\<lambda>cr. \<not> Provisioned (cr_Status cr) \<and> or_Namespace (SecretRef (cr_Spec cr)) = ns) crs)"
  by (induction crs arbitrary: reqs) auto

text \<open>
  A new namespace puts on the queue exactly the listed requests that target it and are not
  provisioned, each in the order of the list, in one call to the API server; a namespace that
  is updated or deleted puts nothing there.
\<close>

lemma namespace_creation_enqueues:
  "watch_namespaces E (CreateEvent m) t = (let listed = k_list_cr (kube E) t [] in
     (Return (map (\<lambda>cr. \<lparr>nn_Namespace = cr_Namespace cr, nn_Name = cr_Name cr\<rparr>)
        [cr \<leftarrow> (case listed of Inl _ \<Rightarrow> [] | Inr crs \<Rightarrow> crs).
           \<not> Provisioned (cr_Status cr) \<and> or_Namespace (SecretRef (cr_Spec cr)) = om_Name m]),
      [EvListCR [] listed])) \<and>
   watch_namespaces E (UpdateEvent old new) t = (Return [], []) \<and>
   watch_namespaces E (DeleteEvent m) t = (Return [], [])"
  by (simp add: watch_namespaces_def namespacePred_def namespaceMapFn_def namespace_requests_eq bind_request_apply
      Let_def)

text \<open>
  C26. A request whose target namespace does not exist is not provisioned: the actuator is not
  called at all (the body reads the request, the namespace and the clock, and makes at most one
  more call, the write of the status), the status left says \<open>MissingTargetNamespace\<close> with a
  message naming the namespace, every other condition and every other field of the request,
  provider status and last sync included, is what it was, and the reconcile succeeds unless
  that write fails. So a request that was provisioned before stays marked as provisioned, and
  when its namespace comes back it is not among the requests put on the queue. The request is
  one that is read, is not being deleted and has the deprovision finalizer.
\<close>

theorem missing_namespace_reported:
  assumes "k_get_cr (kube E) t req = Inr cr" "om_DeletionTimestamp (cr_Meta cr) = None"
    and "HasFinalizer cr FinalizerDeprovision"
    and "k_get_namespace (kube E) (t @ [EvGetCR req (Inr cr)]) (or_Namespace (SecretRef (cr_Spec cr))) = Some e"
    and "IsNotFound e"
  shows "\<exists>c pre now. pre = [EvGetCR req (Inr cr), EvGetNamespace (or_Namespace (SecretRef (cr_Spec cr))) (Some e), EvNow now] \<and>
    reports_condition c MissingTargetNamespace ''NamespaceMissing''
      (''target namespace '' @ or_Namespace (SecretRef (cr_Spec cr)) @ '' not found'') \<and>
    (\<forall>ty. ty \<noteq> MissingTargetNamespace \<longrightarrow>
       FindCredentialsRequestCondition (cr_conditions c) ty = FindCredentialsRequestCondition (cr_conditions cr) ty) \<and>
    c = cr\<lparr>cr_Status := (cr_Status cr)\<lparr>Conditions := Conditions (cr_Status c)\<rparr>\<rparr> \<and>
    (cr_Status c = cr_Status cr \<and> reconcile_body E A req t = (Return None, pre) \<or>
     (\<exists>r. reconcile_body E A req t =
        (Return (case r of Inl e \<Rightarrow> Some e | Inr _ \<Rightarrow> None), pre @ [EvUpdateCRStatus c r]))) \<and>
    (\<forall>crs t'. Provisioned (cr_Status cr) \<longrightarrow> k_list_cr (kube E) t' [] = Inr crs \<longrightarrow>
       (\<forall>c' \<in> set crs. cr_Namespace c' = nn_Namespace req \<and> cr_Name c' = nn_Name req \<longrightarrow> cr_Status c' = cr_Status c) \<longrightarrow>
       (\<forall>m reqs es. watch_namespaces E (CreateEvent m) t' = (Return reqs, es) \<longrightarrow> req \<notin> set reqs))"
proof -
  let ?ns = "or_Namespace (SecretRef (cr_Spec cr))"
  let ?pre = "[EvGetCR req (Inr cr), EvGetNamespace ?ns (Some e)]"
  let ?now = "h_now (proc E) (t @ ?pre)"
  let ?c = "setMissingTargetNamespaceCondition ?now cr True"
  have body: "reconcile_body E A req t = (case updateStatus E cr ?c (t @ ?pre @ [EvNow ?now]) of
      (out, es) \<Rightarrow> ((case out of Return (_, err) \<Rightarrow> Return err | Stop s \<Rightarrow> Stop s), ?pre @ EvNow ?now # es))"
    using assms by (auto simp: body_apply reconcile_namespace_def bind_request_apply prod_eq_iff fst_bind snd_bind
        updateStatus_apply split: sum.split)
  have reports: "reports_condition ?c MissingTargetNamespace ''NamespaceMissing'' (''target namespace '' @ ?ns @ '' not found'')"
    using reports_set by (simp add: setter_defs namespaceMissing_def)
  have watch: "req \<notin> set reqs"
    if "Provisioned (cr_Status cr)" "k_list_cr (kube E) t' [] = Inr crs"
      "\<forall>c' \<in> set crs. cr_Namespace c' = nn_Namespace req \<and> cr_Name c' = nn_Name req \<longrightarrow> cr_Status c' = cr_Status ?c"
      "watch_namespaces E (CreateEvent m) t' = (Return reqs, es)" for crs t' m reqs es
    using that by (auto simp: watch_namespaces_def namespacePred_def namespaceMapFn_def namespace_requests_eq
        bind_request_apply Let_def)
  have others: "FindCredentialsRequestCondition (cr_conditions ?c) ty = FindCredentialsRequestCondition (cr_conditions cr) ty"
    if "ty \<noteq> MissingTargetNamespace" for ty
    using that by (simp add: setter_defs Find_Set conds_cr)
  show ?thesis
  proof (intro exI [of _ ?c] exI [of _ "?pre @ [EvNow ?now]"] exI [of _ ?now] conjI)
    show "cr_Status ?c = cr_Status cr \<and> reconcile_body E A req t = (Return None, ?pre @ [EvNow ?now]) \<or>
     (\<exists>r. reconcile_body E A req t =
        (Return (case r of Inl e \<Rightarrow> Some e | Inr _ \<Rightarrow> None), (?pre @ [EvNow ?now]) @ [EvUpdateCRStatus ?c r]))"
      by (auto simp: body updateStatus_apply split: sum.split)
    show "?c = cr\<lparr>cr_Status := (cr_Status cr)\<lparr>Conditions := Conditions (cr_Status ?c)\<rparr>\<rparr>"
      by (simp add: setter_defs set_Conditions_def)
  qed (simp, rule reports, use others in blast, use watch in blast)
qed

section \<open>Concrete watches\<close>

abbreviation azure_held :: env where
  "azure_held \<equiv> held_env None (\<lambda>n. if n = RootSecretKey then Inr azure_root else Inl not_found)"

lemma held_faithful: "cr_reads_faithful (held_env ts secrets)"
  by (auto simp: cr_reads_faithful_def held_env_def held_cr_def SetFinalizers_def sample_cr_def Let_def split: if_splits)

lemma azure_held_faithful: "api_faithful azure_held"
  by (auto simp: api_faithful_def held_env_def azure_root_def RootSecretKey_def sec_Key_def split: if_splits)

lemma azure_held_creates:
  obtains s where "EvCreateSecret s None \<in> set (snd (Reconcile azure_held (AzureActuator azure_held) cr_key []))"
proof -
  let ?E = azure_held let ?c = "live_cr azure_held cr_key [] (held_cr None)"
  have "target_key ?c = target_key (sample_cr None)"
    by (simp add: target_key_def live_cr_def held_cr_def SetFinalizers_def setter_defs set_Conditions_def)
  then have key: "target_key ?c \<noteq> RootSecretKey" using azure_env_simps(4) [of None] by simp
  have create: "k_create_secret (kube ?E) t s = None" for t s by (simp add: held_env_def)
  have run: "passthrough_Update ?E ?c t = (Return None,
     [EvGetSecret RootSecretKey (Inr azure_root), EvGetSecret (target_key ?c) (Inl not_found),
      EvCreateSecret (copySecret ?c azure_root empty_Secret) None])" for t
    by (rule passthrough_fresh) (simp_all add: key create)
  have "sync_due ?c now" for now using held_due(1) [of now] by (simp add: sync_due_def)
  then have "EvCreateSecret (copySecret ?c azure_root empty_Secret) None \<in>
      set (snd (reconcile_body ?E (AzureActuator ?E) cr_key []))"
    by (simp add: live_body [OF held_live] reconcile_sync_apply snd_bind azure_not_there [where raw = "''spec''"])
      (simp add: AzureActuator_def passthrough_Create_def snd_bind run)
  then show thesis by (intro that) (auto simp: Reconcile_def snd_defer)
qed

theorem written_secrets_map_back_witness:
  "\<exists>s. EvCreateSecret s None \<in> set (snd (Reconcile azure_held (AzureActuator azure_held) cr_key [])) \<and>
     watch_secrets (DeleteEvent (sec_Meta s)) [] = (Return [cr_key], [])"
proof -
  obtain s where s: "EvCreateSecret s None \<in> set (snd (Reconcile azure_held (AzureActuator azure_held) cr_key []))"
    by (rule azure_held_creates)
  from written_secrets_map_back [OF _ azure_held_faithful held_faithful s, of s None "[]" "sec_Meta s"] s
  show ?thesis by auto
qed

definition gone_namespace_env :: env where
  "gone_namespace_env = sample_env (sample_kube\<lparr>k_get_cr := \<lambda>t n. Inr (held_cr None),
     k_get_namespace := \<lambda>t n. Some not_found\<rparr>) sample_iam"

theorem missing_namespace_reported_witness:
  "\<exists>c r. last (snd (reconcile_body gone_namespace_env DummyActuator cr_key [])) = EvUpdateCRStatus c r \<and>
     reports_condition c MissingTargetNamespace ''NamespaceMissing'' ''target namespace image not found'' \<and>
     c = (held_cr None)\<lparr>cr_Status := (cr_Status (held_cr None))\<lparr>Conditions := Conditions (cr_Status c)\<rparr>\<rparr>"
proof -
  let ?body = "reconcile_body gone_namespace_env DummyActuator cr_key []"
  have "k_get_cr (kube gone_namespace_env) [] cr_key = Inr (held_cr None)"
    "om_DeletionTimestamp (cr_Meta (held_cr None)) = None" "HasFinalizer (held_cr None) FinalizerDeprovision"
    "k_get_namespace (kube gone_namespace_env) ([] @ [EvGetCR cr_key (Inr (held_cr None))])
       (or_Namespace (SecretRef (cr_Spec (held_cr None)))) = Some not_found" "IsNotFound not_found"
    by (simp_all add: gone_namespace_env_def held_cr_def SetFinalizers_def HasFinalizer_iff GetFinalizers_def
        sample_cr_def empty_ObjectMeta_def)
  from missing_namespace_reported [OF this, of DummyActuator] obtain c pre where
    c: "reports_condition c MissingTargetNamespace ''NamespaceMissing''
       (''target namespace '' @ or_Namespace (SecretRef (cr_Spec (held_cr None))) @ '' not found'')"
      "c = (held_cr None)\<lparr>cr_Status := (cr_Status (held_cr None))\<lparr>Conditions := Conditions (cr_Status c)\<rparr>\<rparr>"
    and left: "cr_Status c = cr_Status (held_cr None) \<and> ?body = (Return None, pre) \<or>
       (\<exists>r. ?body = (Return (case r of Inl e \<Rightarrow> Some e | Inr _ \<Rightarrow> None), pre @ [EvUpdateCRStatus c r]))"
    by blast
  have ns: "or_Namespace (SecretRef (cr_Spec (held_cr None))) = ''image''"
    by (simp add: held_cr_def SetFinalizers_def sample_cr_def)
  have "cr_Status c \<noteq> cr_Status (held_cr None)"
    using c(1) held_cr_status(2) [of None] by (auto simp: reports_condition_def cr_conditions_def)
  with left obtain r where "last (snd ?body) = EvUpdateCRStatus c r" by auto
  with c ns show ?thesis by auto
qed

end
