(* ===== verification/WorkQueue.thy ===== *)
theory WorkQueue
  imports Prelude
begin

text \<open>
  \<open>k8s.io/client-go/util/workqueue/queue.go\<close>: the queue between the watches and the worker of a
  controller. Each method runs under the queue's lock, so it is one atomic step; \<open>Get\<close> blocks on
  an empty queue, which is the result \<open>None\<close>.

  The interface is stated over three sets: the items that need processing, the items being
  processed, and whether the queue is shut down. A client calls \<open>Done\<close> on an item it is
  processing. The locale \<open>work_queue\<close> says what each method does to them, and its lemmas relate
  every run of the methods to a run of the abstract machine \<open>spec_step\<close>; the interpretation at
  the end discharges it for the code. The properties are that the queue implements the
  abstract machine, hands out items in order, and neither loses an item nor hands one out while
  it is being processed.
\<close>

section \<open>The queue\<close>

record 'a workqueue =
  queue :: "'a list"
  dirty :: "'a set"
  processing :: "'a set"
  shuttingDown :: bool

definition wq_New :: "'a workqueue" where
  "wq_New = \<lparr>queue = [], dirty = {}, processing = {}, shuttingDown = False\<rparr>"

definition wq_Add :: "'a \<Rightarrow> 'a workqueue \<Rightarrow> 'a workqueue" where
  "wq_Add item q =
     (if shuttingDown q then q
      else if item \<in> dirty q then q
      else let q = q\<lparr>dirty := insert item (dirty q)\<rparr> in
           if item \<in> processing q then q
           else q\<lparr>queue := queue q @ [item]\<rparr>)"

definition wq_Len :: "'a workqueue \<Rightarrow> nat" where
  "wq_Len q = length (queue q)"

text \<open>\<open>Get\<close> returns the item, which may be \<open>nil\<close>, and whether to shut down.\<close>

definition wq_Get :: "'a workqueue \<Rightarrow> ('a option \<times> bool \<times> 'a workqueue) option" where
  "wq_Get q =
     (if queue q = [] \<and> \<not> shuttingDown q then None
      else case queue q of
          [] \<Rightarrow> Some (None, True, q)
        | item # rest \<Rightarrow> Some (Some item, False,
            q\<lparr>queue := rest, processing := insert item (processing q), dirty := dirty q - {item}\<rparr>))"

definition wq_Done :: "'a \<Rightarrow> 'a workqueue \<Rightarrow> 'a workqueue" where
  "wq_Done item q =
     (let q = q\<lparr>processing := processing q - {item}\<rparr> in
      if item \<in> dirty q then q\<lparr>queue := queue q @ [item]\<rparr> else q)"

definition wq_ShutDown :: "'a workqueue \<Rightarrow> 'a workqueue" where
  "wq_ShutDown q = q\<lparr>shuttingDown := True\<rparr>"

definition wq_ShuttingDown :: "'a workqueue \<Rightarrow> bool" where
  "wq_ShuttingDown q = shuttingDown q"

text \<open>
  The comment on the field \<open>queue\<close>, made exact: the queue holds each item that is dirty and not being
  processed, once.
\<close>

definition wq_inv :: "'a workqueue \<Rightarrow> bool" where
  "wq_inv q \<longleftrightarrow> distinct (queue q) \<and> set (queue q) = dirty q - processing q"

section \<open>The abstract machine\<close>

datatype 'a wq_op = OpAdd 'a | OpGet 'a | OpDone 'a | OpShutDown

type_synonym 'a wq_spec = "'a set \<times> 'a set \<times> bool"

inductive spec_step :: "'a wq_spec \<Rightarrow> 'a wq_op \<Rightarrow> 'a wq_spec \<Rightarrow> bool" where
  spec_add: "spec_step (P, A, False) (OpAdd x) (insert x P, A, False)"
| spec_late: "spec_step (P, A, True) (OpAdd x) (P, A, True)"
| spec_get: "x \<in> P - A \<Longrightarrow> spec_step (P, A, c) (OpGet x) (P - {x}, insert x A, c)"
| spec_done: "x \<in> A \<Longrightarrow> spec_step (P, A, c) (OpDone x) (P, A - {x}, c)"
| spec_shutdown: "spec_step (P, A, c) OpShutDown (P, A, True)"

inductive_cases spec_addE: "spec_step s (OpAdd x) s'"
inductive_cases spec_getE: "spec_step s (OpGet x) s'"
inductive_cases spec_doneE: "spec_step s (OpDone x) s'"
inductive_cases spec_shutdownE: "spec_step s OpShutDown s'"

lemmas spec_elims = spec_addE spec_getE spec_doneE spec_shutdownE

inductive spec_run :: "'a wq_spec \<Rightarrow> 'a wq_op list \<Rightarrow> 'a wq_spec \<Rightarrow> bool" where
  spec_nil: "spec_run s [] s"
| spec_snoc: "spec_run s ops s' \<Longrightarrow> spec_step s' op s'' \<Longrightarrow> spec_run s (ops @ [op]) s''"

lemma spec_run_nil [simp]: "spec_run s [] s' \<longleftrightarrow> s' = s"
  by (auto intro: spec_nil elim: spec_run.cases)

lemma spec_run_snoc [simp]: "spec_run s (ops @ [op]) s'' \<longleftrightarrow> (\<exists>s'. spec_run s ops s' \<and> spec_step s' op s'')"
proof
  assume "spec_run s (ops @ [op]) s''"
  then show "\<exists>s'. spec_run s ops s' \<and> spec_step s' op s''" by (cases rule: spec_run.cases) blast+
qed (blast intro: spec_snoc)

lemma spec_run_append: "spec_run s (xs @ ys) s'' \<longleftrightarrow> (\<exists>s'. spec_run s xs s' \<and> spec_run s' ys s'')"
proof (induction ys arbitrary: s'' rule: rev_induct)
  case (snoc y ys)
  have "spec_run s (xs @ ys @ [y]) s'' \<longleftrightarrow> (\<exists>u. spec_run s (xs @ ys) u \<and> spec_step u y s'')"
    by (metis append.assoc spec_run_snoc)
  also have "\<dots> \<longleftrightarrow> (\<exists>s'. spec_run s xs s' \<and> spec_run s' (ys @ [y]) s'')"
    unfolding snoc.IH spec_run_snoc by blast
  finally show ?case .
qed (simp only: append_Nil2 spec_run_nil, blast)

lemma spec_run_Cons: "spec_run s (op # ops) s'' \<longleftrightarrow> (\<exists>s'. spec_step s op s' \<and> spec_run s' ops s'')"
proof -
  have "spec_run s [op] u \<longleftrightarrow> spec_step s op u" for u
    using spec_run_snoc [of s "[]" op u] by (simp only: append_Nil spec_run_nil) blast
  then show ?thesis using spec_run_append [of s "[op]" ops s''] by (simp only: append_Cons append_Nil)
qed

text \<open>What the abstract machine guarantees: a request stays until it is taken.\<close>

lemma spec_pending_stays:
  assumes "spec_run (P, A, c) ops (P', A', c')" "x \<in> P" "OpGet x \<notin> set ops"
  shows "x \<in> P'"
  using assms
proof (induction ops arbitrary: P' A' c' rule: rev_induct)
  case (snoc op ops)
  then obtain s where run: "spec_run (P, A, c) ops s" and step: "spec_step s op (P', A', c')" by auto
  obtain P1 A1 c1 where s: "s = (P1, A1, c1)" by (cases s)
  have "x \<in> P1" by (rule snoc.IH [OF run [unfolded s]]) (use snoc.prems in auto)
  with step s snoc.prems(3) show ?case by (cases op) (auto elim: spec_elims)
qed auto

lemma spec_open_stays:
  assumes "spec_run (P, A, False) ops (P', A', c')" "OpShutDown \<notin> set ops"
  shows "\<not> c'"
  using assms
proof (induction ops arbitrary: P' A' c' rule: rev_induct)
  case (snoc op ops)
  then obtain s where run: "spec_run (P, A, False) ops s" and step: "spec_step s op (P', A', c')" by auto
  obtain P1 A1 c1 where s: "s = (P1, A1, c1)" by (cases s)
  have "\<not> c1" by (rule snoc.IH [OF run [unfolded s]]) (use snoc.prems in auto)
  with step s snoc.prems(2) show ?case by (cases op) (auto elim: spec_elims)
qed simp

lemma spec_active_stays:
  assumes "spec_run (P, A, c) ops (P', A', c')" "x \<in> A" "OpDone x \<notin> set ops"
  shows "x \<in> A'"
  using assms
proof (induction ops arbitrary: P' A' c' rule: rev_induct)
  case (snoc op ops)
  then obtain s where run: "spec_run (P, A, c) ops s" and step: "spec_step s op (P', A', c')" by auto
  obtain P1 A1 c1 where s: "s = (P1, A1, c1)" by (cases s)
  have "x \<in> A1" by (rule snoc.IH [OF run [unfolded s]]) (use snoc.prems in auto)
  with step s snoc.prems(3) show ?case by (cases op) (auto elim: spec_elims)
qed auto

lemma spec_no_loss:
  assumes "spec_run ({}, {}, False) (pre @ OpAdd x # post) (P, A, c)" "OpShutDown \<notin> set pre" "OpGet x \<notin> set post"
  shows "x \<in> P"
proof -
  obtain s s' where pre: "spec_run ({}, {}, False) pre s" and add: "spec_step s (OpAdd x) s'" and post: "spec_run s' post (P, A, c)"
    using assms(1) unfolding spec_run_append spec_run_Cons by blast
  obtain P1 A1 c1 where s: "s = (P1, A1, c1)" by (cases s)
  from spec_open_stays [OF pre [unfolded s] assms(2)] add s have "s' = (insert x P1, A1, False)"
    by (auto elim: spec_elims)
  with spec_pending_stays [of "insert x P1" A1 False post] post assms(3) show ?thesis by auto
qed

lemma spec_no_overlap:
  assumes "spec_run s0 (pre @ OpGet x # mid @ OpGet x # post) s1"
  shows "OpDone x \<in> set mid"
proof (rule ccontr)
  assume not_done: "OpDone x \<notin> set mid"
  obtain s s' s'' where get: "spec_step s (OpGet x) s'" and mid: "spec_run s' mid s''"
    and again: "\<exists>s3. spec_step s'' (OpGet x) s3"
    using assms unfolding spec_run_append spec_run_Cons by blast
  obtain P A c where s': "s' = (P, A, c)" by (cases s')
  obtain P2 A2 c2 where s'': "s'' = (P2, A2, c2)" by (cases s'')
  from get s' have "x \<in> A" by (auto elim: spec_elims)
  from spec_active_stays [OF mid [unfolded s' s''] this not_done] again s'' show False
    by (auto elim: spec_elims)
qed

section \<open>The interface\<close>

locale work_queue =
  fixes new :: 'q and add :: "'a \<Rightarrow> 'q \<Rightarrow> 'q" and get :: "'q \<Rightarrow> ('a option \<times> bool \<times> 'q) option"
    and finish :: "'a \<Rightarrow> 'q \<Rightarrow> 'q" and shutdown :: "'q \<Rightarrow> 'q"
    and inv :: "'q \<Rightarrow> bool" and pending :: "'q \<Rightarrow> 'a set" and active :: "'q \<Rightarrow> 'a set" and closed :: "'q \<Rightarrow> bool"
  assumes new: "inv new" "pending new = {}" "active new = {}" "\<not> closed new"
    and add: "inv q \<Longrightarrow> inv (add x q)" "inv q \<Longrightarrow> active (add x q) = active q" "closed (add x q) = closed q"
      "pending (add x q) = (if closed q then pending q else insert x (pending q))"
    and get_item: "inv q \<Longrightarrow> get q = Some (Some x, b, q') \<Longrightarrow> \<not> b \<and> x \<in> pending q - active q \<and> inv q' \<and>
      pending q' = pending q - {x} \<and> active q' = insert x (active q) \<and> closed q' = closed q"
    and get_some: "inv q \<Longrightarrow> pending q - active q \<noteq> {} \<Longrightarrow> \<exists>x q'. get q = Some (Some x, False, q')"
    and get_none: "inv q \<Longrightarrow> pending q \<subseteq> active q \<Longrightarrow> get q = (if closed q then Some (None, True, q) else None)"
    and finish: "inv q \<Longrightarrow> x \<in> active q \<Longrightarrow> inv (finish x q)" "pending (finish x q) = pending q"
      "active (finish x q) = active q - {x}" "closed (finish x q) = closed q"
    and shutdown: "inv q \<Longrightarrow> inv (shutdown q)" "pending (shutdown q) = pending q" "active (shutdown q) = active q"
      "closed (shutdown q)"
begin

text \<open>One step of a client, and its effect on the three sets.\<close>

fun op_step :: "'q \<Rightarrow> 'a wq_op \<Rightarrow> 'q \<Rightarrow> bool" where
  "op_step q (OpAdd x) q' \<longleftrightarrow> q' = add x q"
| "op_step q (OpGet x) q' \<longleftrightarrow> get q = Some (Some x, False, q')"
| "op_step q (OpDone x) q' \<longleftrightarrow> x \<in> active q \<and> q' = finish x q"
| "op_step q OpShutDown q' \<longleftrightarrow> q' = shutdown q"

lemma op_step_simulates:
  assumes "inv q" "op_step q op q'"
  shows "inv q' \<and> spec_step (pending q, active q, closed q) op (pending q', active q', closed q')"
proof (cases op)
  case (OpAdd x)
  with assms add show ?thesis by (cases "closed q") (auto intro: spec_step.intros)
next
  case (OpGet x)
  with assms get_item [of q x False q'] show ?thesis by (auto intro: spec_step.intros)
next
  case (OpDone x)
  with assms finish show ?thesis by (auto intro: spec_step.intros)
next
  case OpShutDown
  with assms shutdown show ?thesis by (auto intro: spec_step.intros)
qed

inductive op_run :: "'q \<Rightarrow> 'a wq_op list \<Rightarrow> 'q \<Rightarrow> bool" where
  op_nil: "op_run q [] q"
| op_snoc: "op_run q ops q' \<Longrightarrow> op_step q' op q'' \<Longrightarrow> op_run q (ops @ [op]) q''"

lemma op_run_simulates:
  assumes "op_run q ops q'" "inv q"
  shows "inv q' \<and> spec_run (pending q, active q, closed q) ops (pending q', active q', closed q')"
  using assms
proof (induction rule: op_run.induct)
  case (op_snoc q ops q' op q'')
  with op_step_simulates [of q' op q''] show ?case by (blast intro: spec_snoc)
qed (simp add: spec_nil)

lemma op_run_spec:
  assumes "op_run new ops q"
  shows "inv q" "spec_run ({}, {}, False) ops (pending q, active q, closed q)"
  using op_run_simulates [OF assms new(1)] new by auto

end

section \<open>The code keeps the interface\<close>

lemma Get_apply:
  "wq_Get q = Some (Some x, b, q') \<longleftrightarrow> (\<exists>rest. queue q = x # rest \<and> \<not> b \<and>
     q' = q\<lparr>queue := rest, processing := insert x (processing q), dirty := dirty q - {x}\<rparr>)"
  by (auto simp: wq_Get_def split: list.splits)

interpretation wq: work_queue wq_New wq_Add wq_Get wq_Done wq_ShutDown wq_inv dirty processing shuttingDown
proof unfold_locales
  fix q q' :: "'a workqueue" and x :: 'a and b
  assume inv: "wq_inv q"
  from inv have d: "distinct (queue q)" and s: "set (queue q) = dirty q - processing q"
    by (simp_all add: wq_inv_def)
  show "wq_inv (wq_Add x q)" "wq_inv (wq_ShutDown q)"
    using d s by (simp_all add: wq_inv_def wq_Add_def wq_ShutDown_def Let_def insert_Diff_if)
  show "wq_inv (wq_Done x q)" if "x \<in> processing q"
    using d s that by (auto simp: wq_inv_def wq_Done_def Let_def)
  show "processing (wq_Add x q) = processing q" by (simp add: wq_Add_def Let_def)
  show "\<not> b \<and> x \<in> dirty q - processing q \<and> wq_inv q' \<and> dirty q' = dirty q - {x} \<and>
      processing q' = insert x (processing q) \<and> shuttingDown q' = shuttingDown q"
    if get: "wq_Get q = Some (Some x, b, q')"
  proof -
    from get obtain rest where rest: "queue q = x # rest" "\<not> b"
      "q' = q\<lparr>queue := rest, processing := insert x (processing q), dirty := dirty q - {x}\<rparr>"
      by (auto simp: Get_apply)
    with d s have "set rest = dirty q - {x} - insert x (processing q)" "x \<in> dirty q - processing q" by auto
    with rest d show ?thesis by (simp add: wq_inv_def)
  qed
  show "\<exists>x q'. wq_Get q = Some (Some x, False, q')" if "dirty q - processing q \<noteq> {}" using inv that
    by (cases "queue q") (auto simp: Get_apply wq_inv_def)
  show "wq_Get q = (if shuttingDown q then Some (None, True, q) else None)" if "dirty q \<subseteq> processing q" using inv that
    by (cases "queue q") (auto simp: wq_Get_def wq_inv_def)
qed (auto simp: wq_New_def wq_Add_def wq_Done_def wq_ShutDown_def wq_inv_def Let_def)

section \<open>Runs of the queue\<close>

text \<open>The methods as the watches and the worker interleave them, \<open>Done\<close> on items being processed only.\<close>

inductive wq_run :: "'a workqueue \<Rightarrow> 'a wq_op list \<Rightarrow> 'a workqueue \<Rightarrow> bool" where
  run_nil: "wq_run q [] q"
| run_add: "wq_run q ops q' \<Longrightarrow> wq_run q (ops @ [OpAdd x]) (wq_Add x q')"
| run_get: "wq_run q ops q' \<Longrightarrow> wq_Get q' = Some (Some x, False, q'') \<Longrightarrow> wq_run q (ops @ [OpGet x]) q''"
| run_done: "wq_run q ops q' \<Longrightarrow> x \<in> processing q' \<Longrightarrow> wq_run q (ops @ [OpDone x]) (wq_Done x q')"
| run_shutdown: "wq_run q ops q' \<Longrightarrow> wq_run q (ops @ [OpShutDown]) (wq_ShutDown q')"

lemma wq_run_op_run: "wq_run q ops q' \<Longrightarrow> wq.op_run q ops q'"
  by (induction rule: wq_run.induct) (auto intro: wq.op_run.intros)

text \<open>
  C21. The work queue implements its abstract machine: every interleaving of \<open>Add\<close>, \<open>Get\<close>, \<open>Done\<close> and
  \<open>ShutDown\<close>, with \<open>Done\<close> called on items being processed, is a run of the machine on the set of
  items that need processing, the set of items being processed and the shutdown flag; the queue
  then holds each item that needs processing and is not being processed exactly once, and \<open>Get\<close>
  blocks exactly when there is no such item and the queue is not shut down.
\<close>

theorem work_queue_refines:
  assumes "wq_run wq_New ops q"
  shows "spec_run ({}, {}, False) ops (dirty q, processing q, shuttingDown q) \<and>
    distinct (queue q) \<and> set (queue q) = dirty q - processing q \<and>
    (wq_Get q = None \<longleftrightarrow> dirty q \<subseteq> processing q \<and> \<not> shuttingDown q)"
proof -
  note run = wq.op_run_spec [OF wq_run_op_run [OF assms]]
  have "wq_Get q \<noteq> None" if "\<not> dirty q \<subseteq> processing q"
    using wq.get_some [OF run(1)] that by auto
  then have "wq_Get q = None \<longleftrightarrow> dirty q \<subseteq> processing q \<and> \<not> shuttingDown q"
    using wq.get_none [OF run(1)] by (cases "dirty q \<subseteq> processing q") simp_all
  with run show ?thesis by (simp add: wq_inv_def)
qed

text \<open>
  No item is lost and none is processed twice at a time: an item that was added before a
  shutdown needs processing until it is handed out, and between two times an item is handed
  out its processing has been finished.
\<close>

lemma work_queue_no_loss_no_overlap:
  assumes "wq_run wq_New ops q"
  shows "(ops = pre @ OpAdd x # post \<and> OpShutDown \<notin> set pre \<and> OpGet x \<notin> set post \<longrightarrow> x \<in> dirty q) \<and>
    (ops = pre @ OpGet x # mid @ OpGet x # post \<longrightarrow> OpDone x \<in> set mid)"
  using wq.op_run_spec(2) [OF wq_run_op_run [OF assms]] spec_no_loss [of pre x post] spec_no_overlap [of _ pre x mid post]
  by blast

section \<open>Order\<close>

text \<open>The items handed out, in order.\<close>

fun gets :: "'a wq_op list \<Rightarrow> 'a list" where
  "gets [] = []"
| "gets (OpGet x # ops) = x # gets ops"
| "gets (_ # ops) = gets ops"

lemma gets_append [simp]: "gets (xs @ ys) = gets xs @ gets ys"
  by (induction xs rule: gets.induct) auto

lemma wq_run_order:
  assumes "wq_run q ops q'"
  obtains late where "queue q @ late = gets ops @ queue q'"
proof -
  from assms have "\<exists>late. queue q @ late = gets ops @ queue q'"
  proof (induction rule: wq_run.induct)
    case (run_get q ops q' x q'')
    then show ?case by (auto simp: Get_apply)
  qed (auto simp: wq_Add_def wq_Done_def wq_ShutDown_def Let_def, (metis append.assoc)+)
  with that show thesis by blast
qed

text \<open>
  First in, first out, so no item starves: whatever else happens, the items in the queue are
  handed out in their order before any item that is queued later; in particular the item at
  position \<open>n\<close> is handed out by the \<open>n+1\<close>-st successful \<open>Get\<close> at the latest.
\<close>

theorem work_queue_fifo:
  assumes "wq_run q ops q'" and "n < length (queue q)" and "n < length (gets ops)"
  shows "gets ops ! n = queue q ! n"
proof -
  obtain late where "queue q @ late = gets ops @ queue q'" by (rule wq_run_order [OF assms(1)])
  with assms(2,3) show ?thesis by (metis nth_append)
qed

text \<open>A watch event that arrives while its item is being processed.\<close>

lemma sample_run:
  "wq_run wq_New [OpAdd (1::nat), OpAdd 2, OpGet 1, OpAdd 1, OpDone 1]
     \<lparr>queue = [2, 1], dirty = {1, 2}, processing = {}, shuttingDown = False\<rparr>"
proof -
  let ?q1 = "wq_Add (2::nat) (wq_Add 1 wq_New)"
  let ?q2 = "\<lparr>queue = [2::nat], dirty = {2}, processing = {1}, shuttingDown = False\<rparr>"
  have q1: "?q1 = \<lparr>queue = [1, 2], dirty = {1, 2}, processing = {}, shuttingDown = False\<rparr>"
    by (auto simp: wq_Add_def wq_New_def Let_def)
  have "wq_run wq_New (([] @ [OpAdd (1::nat)]) @ [OpAdd 2]) ?q1" by (intro run_add run_nil)
  moreover have "wq_Get ?q1 = Some (Some 1, False, ?q2)" unfolding q1 by (auto simp: wq_Get_def)
  ultimately have "wq_run wq_New ((([] @ [OpAdd (1::nat)]) @ [OpAdd 2]) @ [OpGet 1]) ?q2" by (rule run_get)
  then have "wq_run wq_New (((([] @ [OpAdd (1::nat)]) @ [OpAdd 2]) @ [OpGet 1]) @ [OpAdd 1]) (wq_Add 1 ?q2)"
    by (rule run_add)
  from run_done [OF this, of 1] show ?thesis
    by (simp add: wq_Add_def wq_Done_def Let_def insert_commute)
qed

theorem work_queue_refines_witness:
  "spec_run ({}, {}, False) [OpAdd (1::nat), OpAdd 2, OpGet 1, OpAdd 1, OpDone 1] ({1, 2}, {}, False)"
  using work_queue_refines [OF sample_run] by simp

theorem work_queue_fifo_witness:
  "gets [OpAdd (1::nat), OpGet 1] ! 0 = queue (wq_Add 1 (wq_New :: nat workqueue)) ! 0"
proof -
  let ?q = "wq_Add (1::nat) wq_New"
  have q: "?q = \<lparr>queue = [1], dirty = {1}, processing = {}, shuttingDown = False\<rparr>"
    by (simp add: wq_Add_def wq_New_def Let_def)
  have "wq_run ?q ([] @ [OpAdd 1]) (wq_Add 1 ?q)" by (intro run_add run_nil)
  moreover have "wq_Get (wq_Add 1 ?q) = Some (Some 1, False,
      \<lparr>queue = [], dirty = {}, processing = {1}, shuttingDown = False\<rparr>)"
    unfolding q by (simp add: wq_Add_def wq_Get_def)
  ultimately have run: "wq_run ?q (([] @ [OpAdd 1]) @ [OpGet 1])
      \<lparr>queue = [], dirty = {}, processing = {1}, shuttingDown = False\<rparr>" by (rule run_get)
  have "queue ?q \<noteq> []" using q by simp
  then show ?thesis using work_queue_fifo [OF run, of 0] by simp
qed

end
