(* ===== verification/InternalController.thy ===== *)
theory InternalController
  imports WorkQueue ApiTypes
begin

text \<open>
  \<open>pkg/controller/internalcontroller/controller.go\<close>, the operator's copy of the controller-runtime
  controller, over the rate limiting queue of \<open>k8s.io/client-go/util/workqueue\<close>
  (\<open>rate_limitting_queue.go\<close>, \<open>delaying_queue.go\<close>, \<open>default_rate_limiters.go\<close>) with the limiter that
  \<open>add\<close> of the credentials request controller configures.

  The worker, the watches and the goroutine of the delaying queue run concurrently; each takes
  the queue's lock for one method at a time. Their interleavings are the runs of \<open>ctl_run\<close>. The
  lemmas bound the delay of a retry and show that no request whose reconcile failed, and no
  watch event, is ever lost before a shutdown.
\<close>

section \<open>Rate limiters\<close>

text \<open>
  \<open>ItemExponentialFailureRateLimiter.When\<close>. The product is computed in floating point, where a
  delay times a power of two is exact, and \<open>math.MaxInt64\<close> reads \<open>2 ^ 63\<close>; the conversion of that
  very value to a duration wraps around.
\<close>

definition duration_of_float :: "int \<Rightarrow> int" where
  "duration_of_float x = (if x = 2 ^ 63 then - (2 ^ 63) else x)"

definition backoff :: "int \<Rightarrow> int \<Rightarrow> nat \<Rightarrow> int" where
  "backoff baseDelay maxDelay failed =
     (let b = baseDelay * 2 ^ failed in
      if b > 2 ^ 63 then maxDelay
      else let calculated = duration_of_float b in
           if calculated > maxDelay then maxDelay else calculated)"

record 'a failure_limiter =
  failures :: "'a \<rightharpoonup> nat"
  baseDelay :: int
  maxDelay :: int

definition fl_When :: "'a \<Rightarrow> 'a failure_limiter \<Rightarrow> int \<times> 'a failure_limiter" where
  "fl_When item r =
     (let failed = (case failures r item of None \<Rightarrow> 0 | Some n \<Rightarrow> n)
      in (backoff (baseDelay r) (maxDelay r) failed, r\<lparr>failures := (failures r)(item \<mapsto> failed + 1)\<rparr>))"

definition fl_NumRequeues :: "'a \<Rightarrow> 'a failure_limiter \<Rightarrow> nat" where
  "fl_NumRequeues item r = (case failures r item of None \<Rightarrow> 0 | Some n \<Rightarrow> n)"

definition fl_Forget :: "'a \<Rightarrow> 'a failure_limiter \<Rightarrow> 'a failure_limiter" where
  "fl_Forget item r = r\<lparr>failures := (failures r)(item := None)\<rparr>"

text \<open>The loop of \<open>MaxOfRateLimiter.When\<close> over the answers of its limiters.\<close>

fun max_loop :: "int list \<Rightarrow> int \<Rightarrow> int" where
  "max_loop [] r = r"
| "max_loop (d # ds) r = max_loop ds (if d > r then d else r)"

text \<open>
  The limiter of the credentials request controller: two seconds to a thousand, and a token
  bucket, whose delay is given.
\<close>

definition second :: int where "second = 10 ^ 9"

definition controller_limiter :: "'a failure_limiter" where
  "controller_limiter = \<lparr>failures = Map.empty, baseDelay = 2 * second, maxDelay = 1000 * second\<rparr>"

definition limiter_When :: "int \<Rightarrow> 'a \<Rightarrow> 'a failure_limiter \<Rightarrow> int \<times> 'a failure_limiter" where
  "limiter_When bucket item r = (let (d, r') = fl_When item r in (max_loop [d, bucket] 0, r'))"

section \<open>The delaying and rate limiting queue\<close>

text \<open>
  The channel feeds the goroutine's waiting entries, at most one per item; an entry is the item and
  when it is ready.
\<close>

record 'a rate_queue =
  rq_queue :: "'a workqueue"
  rq_channel :: "('a \<times> int) list"
  rq_waiting :: "('a \<times> int) list"
  rq_limiter :: "'a failure_limiter"

definition rq_New :: "'a rate_queue" where
  "rq_New = \<lparr>rq_queue = wq_New, rq_channel = [], rq_waiting = [], rq_limiter = controller_limiter\<rparr>"

definition rq_Add :: "'a \<Rightarrow> 'a rate_queue \<Rightarrow> 'a rate_queue" where
  "rq_Add item q = q\<lparr>rq_queue := wq_Add item (rq_queue q)\<rparr>"

definition rq_AddAfter :: "int \<Rightarrow> 'a \<Rightarrow> int \<Rightarrow> 'a rate_queue \<Rightarrow> 'a rate_queue" where
  "rq_AddAfter now item duration q =
     (if wq_ShuttingDown (rq_queue q) then q
      else if duration \<le> 0 then rq_Add item q
      else q\<lparr>rq_channel := rq_channel q @ [(item, now + duration)]\<rparr>)"

definition rq_AddRateLimited :: "int \<Rightarrow> int \<Rightarrow> 'a \<Rightarrow> 'a rate_queue \<Rightarrow> 'a rate_queue" where
  "rq_AddRateLimited now bucket item q =
     (let (d, r) = limiter_When bucket item (rq_limiter q) in rq_AddAfter now item d (q\<lparr>rq_limiter := r\<rparr>))"

definition rq_Forget :: "'a \<Rightarrow> 'a rate_queue \<Rightarrow> 'a rate_queue" where
  "rq_Forget item q = q\<lparr>rq_limiter := fl_Forget item (rq_limiter q)\<rparr>"

definition rq_Done :: "'a \<Rightarrow> 'a rate_queue \<Rightarrow> 'a rate_queue" where
  "rq_Done item q = q\<lparr>rq_queue := wq_Done item (rq_queue q)\<rparr>"

definition rq_ShutDown :: "'a rate_queue \<Rightarrow> 'a rate_queue" where
  "rq_ShutDown q = q\<lparr>rq_queue := wq_ShutDown (rq_queue q)\<rparr>"

text \<open>\<open>insert\<close> of the delaying queue: an item that is waiting already keeps the earlier time.\<close>

fun wait_insert :: "'a \<Rightarrow> int \<Rightarrow> ('a \<times> int) list \<Rightarrow> ('a \<times> int) list" where
  "wait_insert item readyAt [] = [(item, readyAt)]"
| "wait_insert item readyAt ((i, r) # es) =
     (if i = item then (i, if r > readyAt then readyAt else r) # es
      else (i, r) # wait_insert item readyAt es)"

text \<open>The goroutine receives the next entry of the channel.\<close>

definition wait_receive :: "int \<Rightarrow> 'a rate_queue \<Rightarrow> 'a rate_queue" where
  "wait_receive now q = (case rq_channel q of
      [] \<Rightarrow> q
    | (item, readyAt) # rest \<Rightarrow>
        let q = q\<lparr>rq_channel := rest\<rparr> in
        if readyAt > now then q\<lparr>rq_waiting := wait_insert item readyAt (rq_waiting q)\<rparr>
        else rq_Add item q)"

text \<open>It pops a waiting entry that is ready, one whose time is the smallest.\<close>

definition next_ready :: "int \<Rightarrow> 'a \<times> int \<Rightarrow> 'a rate_queue \<Rightarrow> bool" where
  "next_ready now entry q \<longleftrightarrow> entry \<in> set (rq_waiting q) \<and> \<not> snd entry > now \<and>
     (\<forall>e \<in> set (rq_waiting q). snd entry \<le> snd e)"

definition wait_fire :: "'a \<times> int \<Rightarrow> 'a rate_queue \<Rightarrow> 'a rate_queue" where
  "wait_fire entry q = rq_Add (fst entry) (q\<lparr>rq_waiting := filter (\<lambda>e. fst e \<noteq> fst entry) (rq_waiting q)\<rparr>)"

section \<open>The worker\<close>

record Result =
  Requeue :: bool
  RequeueAfter :: int

text \<open>
  What \<open>processNextWorkItem\<close> does with the reconciler's answer for \<open>req\<close>: whether to go on without a
  break, and the queue before the deferred \<open>Done\<close>.
\<close>

definition requeue_item ::
    "int \<Rightarrow> int \<Rightarrow> 'a \<Rightarrow> Result \<times> gerror option \<Rightarrow> 'a rate_queue \<Rightarrow> bool \<times> 'a rate_queue" where
  "requeue_item now bucket req answer q = (case answer of
      (_, Some err) \<Rightarrow> (False, rq_AddRateLimited now bucket req q)
    | (result, None) \<Rightarrow>
        if RequeueAfter result > 0 then (True, rq_AddAfter now req (RequeueAfter result) q)
        else if Requeue result then (True, rq_AddRateLimited now bucket req q)
        else (True, rq_Forget req q))"

text \<open>
  \<open>processNextWorkItem\<close> with nothing interleaved. It blocks on an empty queue (\<open>None\<close>) and stops on a
  shutdown; \<open>Forget\<close> of the \<open>nil\<close> item does nothing. Every item of the queue is a request.
\<close>

definition processNextWorkItem ::
    "int \<Rightarrow> int \<Rightarrow> ('a \<Rightarrow> Result \<times> gerror option) \<Rightarrow> 'a rate_queue \<Rightarrow> (bool \<times> 'a rate_queue) option" where
  "processNextWorkItem now bucket reconcile q = (case wq_Get (rq_queue q) of
      None \<Rightarrow> None
    | Some (None, shutdown, _) \<Rightarrow> Some (False, q)
    | Some (Some req, shutdown, wq) \<Rightarrow>
        (case requeue_item now bucket req (reconcile req) (q\<lparr>rq_queue := wq\<rparr>) of
           (again, q) \<Rightarrow> Some (again, rq_Done req q)))"

section \<open>Starting and watching\<close>

text \<open>
  The fields of \<open>Controller\<close> its methods use. \<open>Do\<close> is the reconciler; \<open>SetFields\<close> injects a
  dependency into an object and is \<open>nil\<close> until the manager has set it. The queue is \<open>rate_queue\<close>.
\<close>

record ('q, 'r, 'i) Controller =
  ctl_Name :: string
  MaxConcurrentReconciles :: nat
  Do :: "'q \<Rightarrow> 'r"
  SetFields :: "('i \<Rightarrow> gerror option) option"
  JitterPeriod :: int
  Started :: bool

definition Controller_Reconcile :: "('q, 'r, 'i) Controller \<Rightarrow> 'q \<Rightarrow> 'r" where
  "Controller_Reconcile c r = Do c r"

definition Controller_InjectFunc :: "('i \<Rightarrow> gerror option) \<Rightarrow> ('q, 'r, 'i) Controller \<Rightarrow> ('q, 'r, 'i) Controller" where
  "Controller_InjectFunc f c = c\<lparr>SetFields := Some f\<rparr>"

text \<open>\<open>Start\<close> up to the point where it waits for the stop channel: the controller and the workers it launched.\<close>

definition Controller_Start :: "bool \<Rightarrow> ('q, 'r, 'i) Controller \<Rightarrow> gerror + ('q, 'r, 'i) Controller \<times> nat" where
  "Controller_Start synced c =
     (if \<not> synced then Inl (PlainError (''failed to wait for '' @ ctl_Name c @ '' caches to sync''))
      else let c = (if JitterPeriod c = 0 then c\<lparr>JitterPeriod := 1 * second\<rparr> else c)
           in Inr (c\<lparr>Started := True\<rparr>, MaxConcurrentReconciles c))"

text \<open>
  \<open>Watch\<close>: inject the dependencies into the source, the handler and each predicate, then start the
  source; \<open>src_Start\<close> is what that answers. Calling a \<open>nil\<close> function panics.
\<close>

fun inject_loop :: "('i \<Rightarrow> gerror option) \<Rightarrow> 'i list \<Rightarrow> gerror option" where
  "inject_loop f [] = None"
| "inject_loop f (pr # prct) = (case f pr of Some err \<Rightarrow> Some err | None \<Rightarrow> inject_loop f prct)"

definition Controller_Watch ::
    "gerror option \<Rightarrow> ('q, 'r, 'i) Controller \<Rightarrow> 'i \<Rightarrow> 'i \<Rightarrow> 'i list \<Rightarrow> ('ev, gerror option) go" where
  "Controller_Watch src_Start c src evthdler prct =
     bind_go (deref (SetFields c)) (\<lambda>f. ret
       (case f src of Some err \<Rightarrow> Some err | None \<Rightarrow>
        case f evthdler of Some err \<Rightarrow> Some err | None \<Rightarrow>
        case inject_loop f prct of Some err \<Rightarrow> Some err | None \<Rightarrow> src_Start))"

section \<open>Bounds on a retry\<close>

lemma backoff_controller:
  "backoff (2 * second) (1000 * second) n = min (2 ^ (n + 1) * second) (1000 * second)"
proof -
  have ne: "2 * second * 2 ^ n \<noteq> (2::int) ^ 63"
  proof
    assume eq: "2 * second * 2 ^ n = (2::int) ^ 63"
    have "(5::int) dvd second" by (simp add: second_def)
    then have "(5::int) dvd 2 ^ 63" by (metis dvd_mult dvd_mult2 eq mult.commute)
    then show False by simp
  qed
  let ?b = "2 * second * 2 ^ n"
  have b: "2 ^ (n + 1) * second = ?b" by simp
  show ?thesis
  proof (cases "?b > 2 ^ 63")
    case True
    moreover from True have "1000 * second < ?b" by (simp add: second_def)
    ultimately show ?thesis unfolding b backoff_def Let_def by simp
  next
    case False
    then show ?thesis
      unfolding b backoff_def Let_def duration_of_float_def if_not_P [OF False] if_not_P [OF ne] by (simp only: min_def) auto
  qed
qed

lemma limiter_When_eq:
  assumes "baseDelay r = 2 * second" "maxDelay r = 1000 * second"
  shows "fst (limiter_When bucket item r) =
     max (min (2 ^ (fl_NumRequeues item r + 1) * second) (1000 * second)) bucket"
    and "2 * second \<le> min (2 ^ (fl_NumRequeues item r + 1) * second) (1000 * second)"
    and "snd (limiter_When bucket item r) = r\<lparr>failures := (failures r)(item \<mapsto> fl_NumRequeues item r + 1)\<rparr>"
proof -
  let ?d = "min (2 ^ (fl_NumRequeues item r + 1) * second) (1000 * second)"
  have "2 * second \<le> 2 ^ (fl_NumRequeues item r + 1) * second"
    by (rule mult_right_mono) (simp_all add: second_def)
  then show d: "2 * second \<le> ?d" by (simp add: second_def)
  have "fl_When item r = (?d, r\<lparr>failures := (failures r)(item \<mapsto> fl_NumRequeues item r + 1)\<rparr>)"
    by (simp only: fl_When_def Let_def assms backoff_controller fl_NumRequeues_def)
  then have run: "limiter_When bucket item r =
      (max_loop [?d, bucket] 0, r\<lparr>failures := (failures r)(item \<mapsto> fl_NumRequeues item r + 1)\<rparr>)"
    by (simp only: limiter_When_def Let_def split_beta fst_conv snd_conv)
  have "0 < ?d" using d by (simp add: second_def)
  then have "max_loop [d, bucket] 0 = max d bucket" if "0 < d" for d using that by (simp add: max_def)
  with run \<open>0 < ?d\<close> show "fst (limiter_When bucket item r) = max ?d bucket"
    "snd (limiter_When bucket item r) = r\<lparr>failures := (failures r)(item \<mapsto> fl_NumRequeues item r + 1)\<rparr>"
    by (simp_all only: fst_conv snd_conv)
qed

text \<open>
  C40. Retries back off exponentially within fixed bounds: when an item has failed \<open>n\<close> times since it
  was last forgotten, its next retry waits \<open>2 ^ (n + 1)\<close> seconds but at most a thousand, or
  longer if the token bucket says so; never less than two seconds; and forgetting it starts
  again at two seconds.
\<close>

theorem retry_backoff_bounds:
  assumes "baseDelay r = 2 * second" "maxDelay r = 1000 * second"
  shows "fst (limiter_When bucket item r) =
      max (min (2 ^ (fl_NumRequeues item r + 1) * second) (1000 * second)) bucket \<and>
    2 * second \<le> fst (limiter_When bucket item r) \<and>
    fl_NumRequeues item (snd (limiter_When bucket item r)) = fl_NumRequeues item r + 1 \<and>
    fst (limiter_When bucket item (fl_Forget item r)) = max (2 * second) bucket"
proof -
  have forget: "baseDelay (fl_Forget item r) = 2 * second" "maxDelay (fl_Forget item r) = 1000 * second"
    "fl_NumRequeues item (fl_Forget item r) = 0"
    using assms by (simp_all add: fl_Forget_def fl_NumRequeues_def)
  have "min (2 ^ (0 + 1) * second) (1000 * second) = 2 * second" by (simp add: second_def)
  with limiter_When_eq(1) [OF assms, of bucket item] limiter_When_eq(2) [OF assms, of item]
    limiter_When_eq(3) [OF assms, of bucket item] limiter_When_eq(1) [OF forget(1,2), of bucket item] forget(3)
  show ?thesis by (simp add: fl_NumRequeues_def)
qed

theorem retry_backoff_bounds_witness:
  "fst (limiter_When 0 CHR ''x'' (fl_Forget CHR ''x'' controller_limiter)) = 2 * second"
  using retry_backoff_bounds [of controller_limiter 0 "CHR ''x''"]
  by (simp add: controller_limiter_def second_def)

section \<open>Interleavings\<close>

text \<open>
  The state of a running controller: its queue, the item its one worker is processing, whether
  the reconciler has answered for it, and the time. A step is one method of the queue, called by
  a watch (\<open>Event\<close>), by the worker (\<open>Take\<close>, \<open>Answer\<close> with what the reconciler said, \<open>Release\<close>, the
  deferred \<open>Done\<close>) or by the delaying queue's goroutine (\<open>Receive\<close>, \<open>Fire\<close>); time passes (\<open>Tick\<close>),
  and the manager shuts the queue down (\<open>Close\<close>).
\<close>

record 'a sys =
  sys_queue :: "'a rate_queue"
  sys_worker :: "'a option"
  sys_answered :: bool
  sys_now :: int

datatype 'a ctl_op = Event 'a | Take 'a | Answer 'a "Result \<times> gerror option" | Release 'a
  | Receive | Fire 'a | Tick | Close

inductive ctl_run :: "'a ctl_op list \<Rightarrow> 'a sys \<Rightarrow> bool" where
  ctl_init: "ctl_run [] \<lparr>sys_queue = rq_New, sys_worker = None, sys_answered = False, sys_now = now\<rparr>"
| ctl_event: "ctl_run ops s \<Longrightarrow> ctl_run (ops @ [Event x]) (s\<lparr>sys_queue := rq_Add x (sys_queue s)\<rparr>)"
| ctl_take: "ctl_run ops s \<Longrightarrow> sys_worker s = None \<Longrightarrow>
    wq_Get (rq_queue (sys_queue s)) = Some (Some x, False, wq) \<Longrightarrow>
    ctl_run (ops @ [Take x]) (s\<lparr>sys_queue := (sys_queue s)\<lparr>rq_queue := wq\<rparr>, sys_worker := Some x\<rparr>)"
| ctl_answer: "ctl_run ops s \<Longrightarrow> sys_worker s = Some x \<Longrightarrow> \<not> sys_answered s \<Longrightarrow> ctl_run (ops @ [Answer x answer])
    (s\<lparr>sys_queue := snd (requeue_item (sys_now s) bucket x answer (sys_queue s)), sys_answered := True\<rparr>)"
| ctl_release: "ctl_run ops s \<Longrightarrow> sys_worker s = Some x \<Longrightarrow> sys_answered s \<Longrightarrow> ctl_run (ops @ [Release x])
    (s\<lparr>sys_queue := rq_Done x (sys_queue s), sys_worker := None, sys_answered := False\<rparr>)"
| ctl_receive: "ctl_run ops s \<Longrightarrow> ctl_run (ops @ [Receive]) (s\<lparr>sys_queue := wait_receive (sys_now s) (sys_queue s)\<rparr>)"
| ctl_fire: "ctl_run ops s \<Longrightarrow> next_ready (sys_now s) entry (sys_queue s) \<Longrightarrow>
    ctl_run (ops @ [Fire (fst entry)]) (s\<lparr>sys_queue := wait_fire entry (sys_queue s)\<rparr>)"
| ctl_tick: "ctl_run ops s \<Longrightarrow> sys_now s \<le> now \<Longrightarrow> ctl_run (ops @ [Tick]) (s\<lparr>sys_now := now\<rparr>)"
| ctl_close: "ctl_run ops s \<Longrightarrow> ctl_run (ops @ [Close]) (s\<lparr>sys_queue := rq_ShutDown (sys_queue s)\<rparr>)"

text \<open>
  Whether \<open>x\<close> has to be reconciled after these steps: a watch event has asked for it, or a reconcile of
  it has failed or asked to be called again, and it has not been taken up since. The most recent
  step comes first.
\<close>

fun wants_again :: "Result \<times> gerror option \<Rightarrow> bool" where
  "wants_again (result, Some err) = True"
| "wants_again (result, None) = (RequeueAfter result > 0 \<or> Requeue result)"

fun wanted_rev :: "'a \<Rightarrow> 'a ctl_op list \<Rightarrow> bool" where
  "wanted_rev x [] = False"
| "wanted_rev x (Event y # ops) = (y = x \<or> wanted_rev x ops)"
| "wanted_rev x (Take y # ops) = (y \<noteq> x \<and> wanted_rev x ops)"
| "wanted_rev x (Answer y answer # ops) = (y = x \<and> wants_again answer \<or> wanted_rev x ops)"
| "wanted_rev x (_ # ops) = wanted_rev x ops"

definition wanted :: "'a \<Rightarrow> 'a ctl_op list \<Rightarrow> bool" where
  "wanted x ops = wanted_rev x (rev ops)"

text \<open>The items a queue will hand out, now or later.\<close>

definition kept :: "'a rate_queue \<Rightarrow> 'a set" where
  "kept q = dirty (rq_queue q) \<union> fst ` set (rq_channel q) \<union> fst ` set (rq_waiting q)"

abbreviation rq_open :: "'a rate_queue \<Rightarrow> bool" where
  "rq_open q \<equiv> \<not> shuttingDown (rq_queue q)"

lemma rq_Add_fields [simp]:
  "rq_queue (rq_Add x q) = wq_Add x (rq_queue q)" "rq_channel (rq_Add x q) = rq_channel q"
  "rq_waiting (rq_Add x q) = rq_waiting q" "rq_limiter (rq_Add x q) = rq_limiter q"
  by (simp_all add: rq_Add_def)

lemma dirty_Add: "rq_open q \<Longrightarrow> dirty (wq_Add x (rq_queue q)) = insert x (dirty (rq_queue q))"
  by (simp add: wq.add(4))

lemma kept_Add: "rq_open q \<Longrightarrow> kept (rq_Add x q) = insert x (kept q)"
  by (simp add: kept_def dirty_Add)

lemma kept_AddAfter: "rq_open q \<Longrightarrow> kept (rq_AddAfter now x d q) = insert x (kept q)"
  by (simp add: rq_AddAfter_def wq_ShuttingDown_def kept_Add) (auto simp: kept_def)

lemma kept_AddRateLimited: "rq_open q \<Longrightarrow> kept (rq_AddRateLimited now b x q) = insert x (kept q)"
  by (simp add: rq_AddRateLimited_def split_beta Let_def kept_AddAfter) (simp add: kept_def)

lemma kept_others [simp]:
  "kept (rq_Done x q) = kept q" "kept (rq_Forget x q) = kept q" "kept (rq_ShutDown q) = kept q"
  by (simp_all add: kept_def rq_Done_def rq_Forget_def rq_ShutDown_def wq.finish(2) wq.shutdown(2))

lemma wait_insert_items: "fst ` set (wait_insert x r es) = insert x (fst ` set es)"
  by (induction x r es rule: wait_insert.induct) auto

lemma kept_receive: "rq_open q \<Longrightarrow> kept (wait_receive now q) = kept q"
  by (cases "rq_channel q") (auto simp: wait_receive_def kept_def wait_insert_items dirty_Add Let_def image_iff
      wq.add(4) split: prod.split)

lemma kept_fire: "rq_open q \<Longrightarrow> kept q \<subseteq> kept (wait_fire e q)"
  by (auto simp: wait_fire_def kept_def wq.add(4))

lemma kept_requeue:
  "rq_open q \<Longrightarrow> kept q \<subseteq> kept (snd (requeue_item now b x answer q)) \<and>
     (wants_again answer \<longrightarrow> x \<in> kept (snd (requeue_item now b x answer q)))"
  by (cases answer; cases "snd answer") (auto simp: requeue_item_def kept_AddRateLimited kept_AddAfter)

text \<open>What a step does to the inner queue: one of its methods, or nothing.\<close>

lemma inner_AddAfter: "rq_queue (rq_AddAfter now x d q) \<in> {rq_queue q, wq_Add x (rq_queue q)}"
  by (simp add: rq_AddAfter_def rq_Add_def)

lemma inner_AddRateLimited: "rq_queue (rq_AddRateLimited now b x q) \<in> {rq_queue q, wq_Add x (rq_queue q)}"
  using inner_AddAfter [of now x _ "q\<lparr>rq_limiter := snd (limiter_When b x (rq_limiter q))\<rparr>"]
  by (auto simp: rq_AddRateLimited_def split_beta Let_def)

lemma inner_requeue: "rq_queue (snd (requeue_item now b x answer q)) \<in> {rq_queue q, wq_Add x (rq_queue q)}"
  using inner_AddAfter [of now x "RequeueAfter (fst answer)" q] inner_AddRateLimited [of now b x q]
  by (cases answer; cases "snd answer") (auto simp: requeue_item_def rq_Forget_def)

definition ctl_inv :: "'a ctl_op list \<Rightarrow> 'a sys \<Rightarrow> bool" where
  "ctl_inv ops s \<longleftrightarrow> wq_inv (rq_queue (sys_queue s)) \<and>
     processing (rq_queue (sys_queue s)) = set_option (sys_worker s) \<and>
     (rq_open (sys_queue s) \<longrightarrow> (\<forall>x. wanted x ops \<longrightarrow> x \<in> kept (sys_queue s)))"

lemma wanted_simps [simp]:
  "\<not> wanted x []" "wanted x (ops @ [Event y]) \<longleftrightarrow> y = x \<or> wanted x ops"
  "wanted x (ops @ [Take y]) \<longleftrightarrow> y \<noteq> x \<and> wanted x ops"
  "wanted x (ops @ [Answer y answer]) \<longleftrightarrow> y = x \<and> wants_again answer \<or> wanted x ops"
  "wanted x (ops @ [Release y]) = wanted x ops"
  "wanted x (ops @ [Receive]) = wanted x ops" "wanted x (ops @ [Fire y]) = wanted x ops"
  "wanted x (ops @ [Tick]) = wanted x ops" "wanted x (ops @ [Close]) = wanted x ops"
  by (simp_all add: wanted_def)

lemma add_keeps:
  "wq_inv q \<Longrightarrow> wq_inv (wq_Add x q)" "wq_inv q \<Longrightarrow> processing (wq_Add x q) = processing q"
  "shuttingDown (wq_Add x q) = shuttingDown q"
  by (rule wq.add; assumption?)+

lemma requeue_keeps:
  assumes "wq_inv (rq_queue q)"
  shows "wq_inv (rq_queue (snd (requeue_item now b x answer q)))"
    and "processing (rq_queue (snd (requeue_item now b x answer q))) = processing (rq_queue q)"
    and "shuttingDown (rq_queue (snd (requeue_item now b x answer q))) = shuttingDown (rq_queue q)"
  using inner_requeue [of now b x answer q] assms by (auto simp: add_keeps)

lemma receive_keeps:
  assumes "wq_inv (rq_queue q)"
  shows "wq_inv (rq_queue (wait_receive now q))"
    and "processing (rq_queue (wait_receive now q)) = processing (rq_queue q)"
    and "shuttingDown (rq_queue (wait_receive now q)) = shuttingDown (rq_queue q)"
  using assms by (auto simp: wait_receive_def Let_def add_keeps split: list.split)

lemma ctl_run_inv: "ctl_run ops s \<Longrightarrow> ctl_inv ops s"
proof (induction rule: ctl_run.induct)
  case (ctl_init now)
  show ?case by (simp add: ctl_inv_def rq_New_def wq.new)
next
  case (ctl_event ops s x)
  then show ?case by (auto simp: ctl_inv_def add_keeps kept_Add)
next
  case (ctl_take ops s x wq)
  then have inv: "wq_inv (rq_queue (sys_queue s))" "processing (rq_queue (sys_queue s)) = {}"
    by (simp_all add: ctl_inv_def)
  from wq.get_item [OF inv(1) ctl_take(3)] ctl_take show ?case by (auto simp: ctl_inv_def kept_def)
next
  case (ctl_answer ops s x answer bucket)
  then have inv: "wq_inv (rq_queue (sys_queue s))" by (simp add: ctl_inv_def)
  note keeps = requeue_keeps [OF inv, of "sys_now s" bucket x answer]
  from kept_requeue [of "sys_queue s" "sys_now s" bucket x answer] keeps ctl_answer show ?case
    by (auto simp: ctl_inv_def)
next
  case (ctl_release ops s x)
  then have "wq_inv (rq_queue (sys_queue s))" "x \<in> processing (rq_queue (sys_queue s))"
    by (simp_all add: ctl_inv_def)
  with ctl_release show ?case by (auto simp: ctl_inv_def rq_Done_def kept_def wq.finish)
next
  case (ctl_receive ops s)
  then have "wq_inv (rq_queue (sys_queue s))" by (simp add: ctl_inv_def)
  note keeps = receive_keeps [OF this, of "sys_now s"]
  from ctl_receive(2) show ?case unfolding ctl_inv_def by (simp add: keeps kept_receive)
next
  case (ctl_fire ops s entry)
  have q: "rq_queue (wait_fire entry (sys_queue s)) = wq_Add (fst entry) (rq_queue (sys_queue s))"
    by (simp add: wait_fire_def)
  from ctl_fire(3) kept_fire [of "sys_queue s" entry] show ?case
    unfolding ctl_inv_def by (simp add: q add_keeps) blast
next
  case (ctl_tick ops s now)
  then show ?case by (simp add: ctl_inv_def)
next
  case (ctl_close ops s)
  then show ?case by (simp add: ctl_inv_def rq_ShutDown_def wq.shutdown)
qed

text \<open>
  C13. No request is forgotten, however the watches, the worker and the delaying queue interleave:
  until the queue is shut down, an item that a watch event has asked for, or whose reconcile has
  failed or asked to be called again, and that has not been taken up since, is in the queue or
  waiting for its delay to end; and the only item being processed is the worker's, so two
  reconciles never run at the same time.
\<close>

theorem no_request_lost:
  assumes "ctl_run ops s"
  shows "processing (rq_queue (sys_queue s)) = set_option (sys_worker s) \<and>
    (wanted x ops \<and> \<not> shuttingDown (rq_queue (sys_queue s)) \<longrightarrow>
      x \<in> dirty (rq_queue (sys_queue s)) \<or>
      (\<exists>readyAt. (x, readyAt) \<in> set (rq_channel (sys_queue s)) \<union> set (rq_waiting (sys_queue s))))"
  using ctl_run_inv [OF assms] by (auto simp: ctl_inv_def kept_def)

section \<open>Progress\<close>

text \<open>
  A measure of the work before the queue is empty when no new events come: every step of the
  worker and of the delaying queue lowers it.
\<close>

definition pending_work :: "'a sys \<Rightarrow> nat" where
  "pending_work s = 5 * length (rq_channel (sys_queue s)) + 4 * length (rq_waiting (sys_queue s)) +
     3 * card (dirty (rq_queue (sys_queue s))) +
     (if sys_worker s = None then 0 else if sys_answered s then 1 else 2)"

lemma wait_insert_length: "length (wait_insert x r es) \<le> length es + 1"
  by (induction x r es rule: wait_insert.induct) auto

lemma finite_dirty: "ctl_inv ops s \<Longrightarrow> finite (dirty (rq_queue (sys_queue s)))"
proof -
  assume "ctl_inv ops s"
  then have "dirty (rq_queue (sys_queue s)) \<subseteq> set (queue (rq_queue (sys_queue s))) \<union> set_option (sys_worker s)"
    by (auto simp: ctl_inv_def wq_inv_def)
  then show ?thesis by (rule finite_subset) (cases "sys_worker s"; simp)
qed

lemma card_dirty_Add: "finite (dirty q) \<Longrightarrow> card (dirty (wq_Add x q)) \<le> card (dirty q) + 1"
  by (simp add: wq.add(4) card_insert_if)

lemma receive_less:
  assumes "finite (dirty (rq_queue q))" "rq_channel q \<noteq> []"
  shows "5 * length (rq_channel (wait_receive now q)) + 4 * length (rq_waiting (wait_receive now q)) +
      3 * card (dirty (rq_queue (wait_receive now q))) <
    5 * length (rq_channel q) + 4 * length (rq_waiting q) + 3 * card (dirty (rq_queue q))"
proof -
  obtain item readyAt rest where "rq_channel q = (item, readyAt) # rest"
    using assms(2) by (cases "rq_channel q") auto
  with wait_insert_length [of item readyAt "rq_waiting q"] card_dirty_Add [OF assms(1), of item]
  show ?thesis by (simp add: wait_receive_def Let_def)
qed

lemma fire_less:
  assumes "finite (dirty (rq_queue q))" "entry \<in> set (rq_waiting q)"
  shows "rq_channel (wait_fire entry q) = rq_channel q"
    and "4 * length (rq_waiting (wait_fire entry q)) + 3 * card (dirty (rq_queue (wait_fire entry q))) <
      4 * length (rq_waiting q) + 3 * card (dirty (rq_queue q))"
proof -
  have "length (filter (\<lambda>e. fst e \<noteq> fst entry) (rq_waiting q)) < length (rq_waiting q)"
    by (rule length_filter_less [OF assms(2)]) simp
  with card_dirty_Add [OF assms(1), of "fst entry"]
  show "4 * length (rq_waiting (wait_fire entry q)) + 3 * card (dirty (rq_queue (wait_fire entry q))) <
      4 * length (rq_waiting q) + 3 * card (dirty (rq_queue q))"
    by (simp add: wait_fire_def)
qed (simp add: wait_fire_def)

lemma earliest:
  assumes "(es :: ('a \<times> int) list) \<noteq> []"
  obtains e where "e \<in> set es" "\<forall>e' \<in> set es. snd e \<le> snd e'"
  by (rule that [of "arg_min_list snd es"])
    (use assms arg_min_list_in [of es snd] f_arg_min_list_f [of es snd] in auto)

text \<open>A reconcile that has nothing to add.\<close>

abbreviation success :: "Result \<times> gerror option" where
  "success \<equiv> (\<lparr>Requeue = False, RequeueAfter = 0\<rparr>, None)"

text \<open>From a state in which \<open>x\<close> is kept, either \<open>x\<close> can be taken, or a step that is no event comes closer.\<close>

lemma ctl_progress_fire:
  assumes run: "ctl_run ops s" and opn: "rq_open (sys_queue s)" and x: "x \<in> kept (sys_queue s)"
    and idle: "sys_worker s = None" "rq_channel (sys_queue s) = []" "rq_waiting (sys_queue s) \<noteq> []"
  obtains ops' s' where "ctl_run (ops @ ops') s'" "\<And>y. Event y \<notin> set ops'" "rq_open (sys_queue s')"
    "x \<in> kept (sys_queue s')" "pending_work s' < pending_work s"
proof -
  obtain e where e: "e \<in> set (rq_waiting (sys_queue s))" "\<forall>e' \<in> set (rq_waiting (sys_queue s)). snd e \<le> snd e'"
    by (rule earliest [OF idle(3)])
  let ?s = "s\<lparr>sys_now := max (sys_now s) (snd e)\<rparr>"
  have "ctl_run (ops @ [Tick]) ?s" by (rule ctl_tick [OF run]) simp
  moreover have "next_ready (sys_now ?s) e (sys_queue ?s)" using e by (simp add: next_ready_def)
  ultimately have fire: "ctl_run ((ops @ [Tick]) @ [Fire (fst e)]) (?s\<lparr>sys_queue := wait_fire e (sys_queue ?s)\<rparr>)"
    by (rule ctl_fire)
  have "rq_open (wait_fire e (sys_queue s))" using opn by (simp add: wait_fire_def add_keeps)
  with fire idle x kept_fire [OF opn, of e] fire_less [OF finite_dirty [OF ctl_run_inv [OF run]] e(1)] show thesis
    by (intro that [of "[Tick, Fire (fst e)]" "?s\<lparr>sys_queue := wait_fire e (sys_queue ?s)\<rparr>"])
      (auto simp: pending_work_def)
qed

lemma ctl_progress_take:
  assumes run: "ctl_run ops s" and opn: "rq_open (sys_queue s)" and x: "x \<in> kept (sys_queue s)"
    and idle: "sys_worker s = None" "rq_channel (sys_queue s) = []" "rq_waiting (sys_queue s) = []"
  obtains s' where "ctl_run (ops @ [Take x]) s'"
  | ops' s' where "ctl_run (ops @ ops') s'" "\<And>y. Event y \<notin> set ops'" "rq_open (sys_queue s')"
      "x \<in> kept (sys_queue s')" "pending_work s' < pending_work s"
proof -
  have inv: "ctl_inv ops s" by (rule ctl_run_inv [OF run])
  then have wq: "wq_inv (rq_queue (sys_queue s))" "processing (rq_queue (sys_queue s)) = set_option (sys_worker s)"
    by (simp_all add: ctl_inv_def)
  from idle x wq have ne: "dirty (rq_queue (sys_queue s)) - processing (rq_queue (sys_queue s)) \<noteq> {}"
    by (auto simp: kept_def)
  from wq.get_some [OF wq(1) ne] obtain y q where get: "wq_Get (rq_queue (sys_queue s)) = Some (Some y, False, q)" by blast
  note take = ctl_take [OF run idle(1) get]
  from wq.get_item [OF wq(1) get] have q: "y \<in> dirty (rq_queue (sys_queue s))"
    "dirty q = dirty (rq_queue (sys_queue s)) - {y}" "shuttingDown q = shuttingDown (rq_queue (sys_queue s))" by auto
  show thesis
  proof (cases "y = x")
    case True
    with take show thesis by (intro that(1)) simp
  next
    case False
    have "card (dirty q) < card (dirty (rq_queue (sys_queue s)))"
      unfolding q(2) by (rule card_Diff1_less [OF finite_dirty [OF inv] q(1)])
    with False idle x opn q show thesis
      by (intro that(2) [OF take]) (auto simp: pending_work_def kept_def)
  qed
qed

lemma ctl_progress_step:
  assumes run: "ctl_run ops s" and opn: "rq_open (sys_queue s)" and x: "x \<in> kept (sys_queue s)"
  obtains s' where "ctl_run (ops @ [Take x]) s'"
  | ops' s' where "ctl_run (ops @ ops') s'" "\<And>y. Event y \<notin> set ops'" "rq_open (sys_queue s')"
      "x \<in> kept (sys_queue s')" "pending_work s' < pending_work s"
proof -
  have inv: "ctl_inv ops s" by (rule ctl_run_inv [OF run])
  then have wq: "wq_inv (rq_queue (sys_queue s))" "processing (rq_queue (sys_queue s)) = set_option (sys_worker s)"
    by (simp_all add: ctl_inv_def)
  note fin = finite_dirty [OF inv]
  consider y where "sys_worker s = Some y" "\<not> sys_answered s" | y where "sys_worker s = Some y" "sys_answered s"
    | "sys_worker s = None" "rq_channel (sys_queue s) \<noteq> []"
    | "sys_worker s = None" "rq_channel (sys_queue s) = []" "rq_waiting (sys_queue s) \<noteq> []"
    | "sys_worker s = None" "rq_channel (sys_queue s) = []" "rq_waiting (sys_queue s) = []"
    by fastforce
  then show thesis
  proof cases
    case (1 y)
    show thesis
      by (rule that(2) [OF ctl_answer [OF run 1, of success 0]])
        (use 1 opn x in \<open>auto simp: requeue_item_def pending_work_def rq_Forget_def kept_def\<close>)
  next
    case (2 y)
    show thesis
      by (rule that(2) [OF ctl_release [OF run 2]])
        (use 2 opn x in \<open>auto simp: pending_work_def rq_Done_def kept_def wq.finish\<close>)
  next
    case 3
    show thesis
      by (rule that(2) [OF ctl_receive [OF run]])
        (use 3 opn x receive_less [OF fin, of "sys_now s"] receive_keeps [OF wq(1), of "sys_now s"] in
          \<open>auto simp: pending_work_def kept_receive\<close>)
  next
    case 4
    show thesis by (rule ctl_progress_fire [OF run opn x 4]) (rule that(2))
  next
    case 5
    show thesis by (rule ctl_progress_take [OF run opn x 5]) (rule that(1), assumption, rule that(2))
  qed
qed

lemma ctl_progress:
  assumes "ctl_run ops s" "rq_open (sys_queue s)" "x \<in> kept (sys_queue s)"
  shows "\<exists>ops' s'. ctl_run (ops @ ops' @ [Take x]) s' \<and> (\<forall>y. Event y \<notin> set ops')"
  using assms
proof (induction "pending_work s" arbitrary: ops s rule: less_induct)
  case less
  show ?case
  proof (rule ctl_progress_step [OF less.prems])
    fix s' assume "ctl_run (ops @ [Take x]) s'"
    then show ?thesis by (intro exI [of _ "[]"] exI [of _ s']) simp
  next
    fix ops1 s1
    assume s1: "ctl_run (ops @ ops1) s1" "\<And>y. Event y \<notin> set ops1" "rq_open (sys_queue s1)" "x \<in> kept (sys_queue s1)"
      "pending_work s1 < pending_work s"
    from less.hyps [OF s1(5,1,3,4)] obtain ops2 s2 where
      "ctl_run ((ops @ ops1) @ ops2 @ [Take x]) s2" "\<forall>y. Event y \<notin> set ops2" by blast
    with s1(2) show ?thesis by (intro exI [of _ "ops1 @ ops2"] exI [of _ s2]) auto
  qed
qed

text \<open>
  C14. Every request that is wanted can be served: from any state the controller can reach in which
  a request is wanted and the queue is open, there is a continuation, with no further event from
  outside, in which the worker takes that request up. In particular a request whose reconcile
  failed is not stuck behind its delay or behind other requests.
\<close>

theorem wanted_request_can_be_served:
  assumes "ctl_run ops s" "wanted x ops" "\<not> shuttingDown (rq_queue (sys_queue s))"
  shows "\<exists>ops' s'. ctl_run (ops @ ops' @ [Take x]) s' \<and> (\<forall>y. Event y \<notin> set ops')"
  using ctl_progress [OF assms(1,3)] ctl_run_inv [OF assms(1)] assms(2,3) by (simp add: ctl_inv_def)

text \<open>A watch event, a reconcile that fails, and the queue afterwards.\<close>

definition failure :: "Result \<times> gerror option" where
  "failure = (\<lparr>Requeue = False, RequeueAfter = 0\<rparr>, Some (PlainError ''x''))"

definition failed_sys :: "nat sys" where
  "failed_sys = \<lparr>sys_queue = rq_Done 7 (snd (requeue_item 0 0 7 failure ((rq_Add 7 rq_New)\<lparr>rq_queue :=
     \<lparr>queue = [], dirty = {}, processing = {7}, shuttingDown = False\<rparr>\<rparr>))), sys_worker = None, sys_answered = False, sys_now = 0\<rparr>"

lemma failed_run: "ctl_run [Event 7, Take 7, Answer 7 failure, Release 7] failed_sys"
proof -
  let ?q0 = "rq_Add (7::nat) rq_New"
  let ?wq = "\<lparr>queue = [], dirty = {}, processing = {7}, shuttingDown = False\<rparr> :: nat workqueue"
  let ?s1 = "\<lparr>sys_queue = ?q0, sys_worker = None, sys_answered = False, sys_now = 0\<rparr>"
  have "ctl_run ([] @ [Event 7]) ?s1"
    using ctl_event [OF ctl_init [of 0], of 7] by simp
  moreover have "wq_Get (rq_queue (sys_queue ?s1)) = Some (Some 7, False, ?wq)"
    by (simp add: rq_Add_def rq_New_def wq_Add_def wq_New_def wq_Get_def)
  ultimately have "ctl_run (([] @ [Event 7]) @ [Take 7])
      \<lparr>sys_queue = ?q0\<lparr>rq_queue := ?wq\<rparr>, sys_worker = Some 7, sys_answered = False, sys_now = 0\<rparr>"
    using ctl_take [of "[] @ [Event 7]" ?s1 7 ?wq] by simp
  from ctl_release [OF ctl_answer [OF this, of 7 failure 0], of 7]
  show ?thesis by (simp add: failed_sys_def)
qed

theorem no_request_lost_witness:
  "(7::nat) \<in> dirty (rq_queue (sys_queue failed_sys)) \<or>
     (\<exists>readyAt. (7, readyAt) \<in> set (rq_channel (sys_queue failed_sys)) \<union> set (rq_waiting (sys_queue failed_sys)))"
proof -
  have "\<not> shuttingDown (rq_queue (sys_queue failed_sys))"
    by (simp add: failed_sys_def rq_Done_def wq.finish(4) requeue_keeps(3) wq_inv_def)
  then show ?thesis
    using no_request_lost [OF failed_run, of 7] by (simp add: wanted_def failure_def)
qed

theorem wanted_request_can_be_served_witness:
  "\<exists>ops' s'. ctl_run ([Event (7::nat), Take 7, Answer 7 failure, Release 7] @ ops' @ [Take 7]) s' \<and> (\<forall>y. Event y \<notin> set ops')"
proof (rule wanted_request_can_be_served [OF failed_run])
  show "wanted 7 [Event 7, Take 7, Answer 7 failure, Release 7]" by (simp add: wanted_def failure_def)
  show "\<not> shuttingDown (rq_queue (sys_queue failed_sys))"
    by (simp add: failed_sys_def rq_Done_def wq.finish(4) requeue_keeps(3) wq_inv_def)
qed

end
