(* ===== verification/ControllerManager.thy ===== *)
theory ControllerManager
  imports Watches InternalController
begin

text \<open>
  How the operator starts: \<open>cmd/manager/main.go\<close>, \<open>pkg/controller/controller.go\<close> with the functions
  it registers (\<open>add_credentialsrequest.go\<close>, \<open>add_secretannotator.go\<close>), and the functions \<open>add\<close> of
  the two controllers, which build a controller, add it to the manager and start its watches.

  The manager of controller-runtime is a state: what it answers when it injects dependencies or
  starts an event source is given, and it collects the controllers added to it (\<open>runnables\<close>) and
  the event sources that feed each controller's queue. \<open>log.Fatal\<close> and \<open>os.Exit\<close> end the process.
\<close>

section \<open>The manager\<close>

datatype watch_kind = WatchRequests | WatchSecrets | WatchNamespaces | WatchRootSecret

text \<open>What dependencies are injected into.\<close>

datatype injectable = Inj_Reconciler string | Inj_Controller string
  | Inj_Source watch_kind | Inj_Handler watch_kind | Inj_Predicate watch_kind

type_synonym controller = "(NamespacedName, gerror option io, injectable) Controller"

record manager =
  mgr_SetFields :: "injectable \<Rightarrow> gerror option"
  mgr_source_Start :: "watch_kind \<Rightarrow> gerror option"
  mgr_Scheme :: Scheme
  runnables :: "controller list"
  sources :: "(string \<times> watch_kind) list"

text \<open>\<open>Add\<close> of the manager injects its own \<open>SetFields\<close> into the controller and keeps it.\<close>

definition mgr_Add :: "controller \<Rightarrow> manager \<Rightarrow> (gerror + controller) \<times> manager" where
  "mgr_Add c mgr = (case mgr_SetFields mgr (Inj_Controller (ctl_Name c)) of
      Some err \<Rightarrow> (Inl err, mgr)
    | None \<Rightarrow> let c = Controller_InjectFunc (mgr_SetFields mgr) c
              in (Inr c, mgr\<lparr>runnables := runnables mgr @ [c]\<rparr>))"

text \<open>A call of \<open>Watch\<close>: on success the source feeds the controller's queue.\<close>

definition start_watch :: "controller \<Rightarrow> watch_kind \<Rightarrow> injectable list \<Rightarrow> manager \<Rightarrow> (gerror option \<times> manager) io" where
  "start_watch c k prct mgr =
     bind_go (Controller_Watch (mgr_source_Start mgr k) c (Inj_Source k) (Inj_Handler k) prct) (\<lambda>err. case err of
       Some e \<Rightarrow> ret (Some e, mgr)
     | None \<Rightarrow> ret (None, mgr\<lparr>sources := sources mgr @ [(ctl_Name c, k)]\<rparr>))"

section \<open>Adding the secret annotator\<close>

text \<open>\<open>controller.New\<close> of controller-runtime, with the default of one worker.\<close>

definition controller_New ::
    "string \<Rightarrow> (NamespacedName \<Rightarrow> gerror option io) \<Rightarrow> nat \<Rightarrow> manager \<Rightarrow> (gerror + controller) \<times> manager" where
  "controller_New name r workers mgr =
     (if length name = 0 then (Inl (PlainError ''must specify Name for Controller''), mgr)
      else let workers = (if workers \<le> 0 then 1 else workers) in
      case mgr_SetFields mgr (Inj_Reconciler name) of Some err \<Rightarrow> (Inl err, mgr)
      | None \<Rightarrow> mgr_Add \<lparr>ctl_Name = name, MaxConcurrentReconciles = workers, Do = r, SetFields = None,
          JitterPeriod = 0, Started = False\<rparr> mgr)"

definition annotator_controllerName :: string where
  "annotator_controllerName = ''secretannotator''"

definition annotator_add :: "(NamespacedName \<Rightarrow> gerror option io) \<Rightarrow> manager \<Rightarrow> (gerror option \<times> manager) io" where
  "annotator_add r mgr = (case controller_New annotator_controllerName r 0 mgr of
      (Inl err, mgr) \<Rightarrow> ret (Some err, mgr)
    | (Inr c, mgr) \<Rightarrow> start_watch c WatchRootSecret [Inj_Predicate WatchRootSecret] mgr)"

definition annotator_Add :: "env \<Rightarrow> manager \<Rightarrow> (gerror option \<times> manager) io" where
  "annotator_Add E mgr = annotator_add (ReconcileCloudCredSecret_Reconcile E) mgr"

section \<open>Adding the credentials request controller\<close>

definition credentialsrequest_Controller :: "(NamespacedName \<Rightarrow> gerror option io) \<Rightarrow> controller" where
  "credentialsrequest_Controller r = \<lparr>ctl_Name = ''credentialsrequest-controller'', MaxConcurrentReconciles = 1,
     Do = r, SetFields = None, JitterPeriod = 0, Started = False\<rparr>"

text \<open>The three watches of \<open>add\<close>; the first error ends it.\<close>

fun start_watches :: "controller \<Rightarrow> (watch_kind \<times> injectable list) list \<Rightarrow> manager \<Rightarrow> (gerror option \<times> manager) io" where
  "start_watches c [] mgr = ret (None, mgr)"
| "start_watches c ((k, prct) # ws) mgr = bind_go (start_watch c k prct mgr) (\<lambda>(err, mgr). case err of
      Some e \<Rightarrow> ret (Some e, mgr) | None \<Rightarrow> start_watches c ws mgr)"

definition credentialsrequest_add ::
    "(NamespacedName \<Rightarrow> gerror option io) \<Rightarrow> manager \<Rightarrow> (gerror option \<times> manager) io" where
  "credentialsrequest_add r mgr =
     (let name = ''credentialsrequest-controller'' in
      case mgr_SetFields mgr (Inj_Reconciler name) of Some err \<Rightarrow> ret (Some err, mgr) | None \<Rightarrow>
      case mgr_Add (credentialsrequest_Controller r) mgr of
        (Inl err, mgr) \<Rightarrow> ret (Some err, mgr)
      | (Inr c, mgr) \<Rightarrow> start_watches c
          [(WatchRequests, []), (WatchSecrets, [Inj_Predicate WatchSecrets]),
           (WatchNamespaces, [Inj_Predicate WatchNamespaces])] mgr)"

definition AddWithActuator :: "env \<Rightarrow> actuator \<Rightarrow> manager \<Rightarrow> (gerror option \<times> manager) io" where
  "AddWithActuator E a mgr = credentialsrequest_add (Reconcile E a) mgr"

section \<open>Platforms\<close>

text \<open>A process goes on with a result, or has ended with an exit code.\<close>

datatype 'a process = Exit nat | Goes_on 'a

text \<open>
  What the libraries called at startup answer. The first is what parsing the command line yields:
  an error, or what was given for \<open>--log-level\<close>. The manager that is made carries the scheme of
  client-go, which \<open>Run\<close> fills.
\<close>

record startup =
  su_Flags :: "gerror + string option"
  su_GetConfig :: "gerror option"
  su_NewManager :: "gerror + manager"
  su_ClientConfig :: "gerror option"
  su_NewClient :: "gerror option"
  su_Start :: "gerror option"

definition getClient :: "startup \<Rightarrow> gerror option" where
  "getClient S = (case su_ClientConfig S of Some err \<Rightarrow> Some err | None \<Rightarrow> su_NewClient S)"

definition platformType :: "env \<Rightarrow> startup \<Rightarrow> (gerror + string) io" where
  "platformType E S = (case getClient S of
      Some err \<Rightarrow> ret (Inl err)
    | None \<Rightarrow> bind_go (kGetInfrastructure E ''cluster'') (\<lambda>r. case r of
          Inl err \<Rightarrow> ret (Inl err)
        | Inr infra \<Rightarrow> ret (Inr (Platform infra))))"

definition AWSPlatformType :: string where "AWSPlatformType = ''AWS''"
definition AzurePlatformType :: string where "AzurePlatformType = ''Azure''"

text \<open>The \<open>switch\<close> on the platform.\<close>

definition platform_actuator :: "env \<Rightarrow> string \<Rightarrow> (gerror + actuator) io" where
  "platform_actuator E plat =
     (if plat = AWSPlatformType then NewAWSActuator E
      else if plat = AzurePlatformType then azure_NewActuator E
      else ret (Inr DummyActuator))"

text \<open>The functions the \<open>init\<close> functions register, and the two loops of \<open>AddToManager\<close>.\<close>

definition AddToManagerFuncs :: "env \<Rightarrow> (manager \<Rightarrow> (gerror option \<times> manager) io) list" where
  "AddToManagerFuncs E = [annotator_Add E]"

definition AddToManagerWithActuatorFuncs :: "env \<Rightarrow> (actuator \<Rightarrow> manager \<Rightarrow> (gerror option \<times> manager) io) list" where
  "AddToManagerWithActuatorFuncs E = [AddWithActuator E]"

fun add_controllers ::
    "(manager \<Rightarrow> (gerror option \<times> manager) io) list \<Rightarrow> manager \<Rightarrow> (gerror option \<times> manager) io" where
  "add_controllers [] m = ret (None, m)"
| "add_controllers (f # fs) m = bind_go (f m) (\<lambda>(err, m). case err of
      Some e \<Rightarrow> ret (Some e, m) | None \<Rightarrow> add_controllers fs m)"

fun add_with_actuator ::
    "env \<Rightarrow> startup \<Rightarrow> (actuator \<Rightarrow> manager \<Rightarrow> (gerror option \<times> manager) io) list \<Rightarrow> manager \<Rightarrow>
     (gerror option \<times> manager) process io" where
  "add_with_actuator E S [] m = ret (Goes_on (None, m))"
| "add_with_actuator E S (f # fs) m =
     bind_go (platformType E S) (\<lambda>plat. case plat of
       Inl err \<Rightarrow> ret (Exit 1)
     | Inr plat \<Rightarrow>
     bind_go (platform_actuator E plat) (\<lambda>a. case a of
       Inl err \<Rightarrow> ret (Goes_on (Some err, m))
     | Inr a \<Rightarrow>
     bind_go (f a m) (\<lambda>(err, m). case err of
       Some e \<Rightarrow> ret (Goes_on (Some e, m))
     | None \<Rightarrow> add_with_actuator E S fs m)))"

definition AddToManager :: "env \<Rightarrow> startup \<Rightarrow> manager \<Rightarrow> (gerror option \<times> manager) process io" where
  "AddToManager E S m =
     bind_go (add_controllers (AddToManagerFuncs E) m) (\<lambda>(err, m). case err of
       Some e \<Rightarrow> ret (Goes_on (Some e, m))
     | None \<Rightarrow> add_with_actuator E S (AddToManagerWithActuatorFuncs E) m)"

section \<open>The process\<close>

text \<open>Log levels, as logrus parses them; \<open>strings.ToLower\<close> on the ASCII letters.\<close>

datatype Level = PanicLevel | FatalLevel | ErrorLevel | WarnLevel | InfoLevel | DebugLevel | TraceLevel

definition strings_ToLower :: "string \<Rightarrow> string" where
  "strings_ToLower s = map (\<lambda>c. if CHR ''A'' \<le> c \<and> c \<le> CHR ''Z'' then char_of (of_char c + 32 :: nat) else c) s"

definition ParseLevel :: "string \<Rightarrow> gerror + Level" where
  "ParseLevel lvl = (let l = strings_ToLower lvl in
     if l = ''panic'' then Inr PanicLevel
     else if l = ''fatal'' then Inr FatalLevel
     else if l = ''error'' then Inr ErrorLevel
     else if l = ''warn'' \<or> l = ''warning'' then Inr WarnLevel
     else if l = ''info'' then Inr InfoLevel
     else if l = ''debug'' then Inr DebugLevel
     else if l = ''trace'' then Inr TraceLevel
     else Inl (PlainError (''not a valid logrus Level: '' @ [CHR 0x22] @ lvl @ [CHR 0x22])))"

record ControllerManagerOptions =
  LogLevel :: string

definition defaultLogLevel :: string where
  "defaultLogLevel = ''info''"

text \<open>
  The \<open>Run\<close> function of the root command. It comes back when the manager has been stopped, here
  with the manager it ran.
\<close>

definition NewRootCommand_Run :: "env \<Rightarrow> startup \<Rightarrow> ControllerManagerOptions \<Rightarrow> manager process io" where
  "NewRootCommand_Run E S opts =
     (case ParseLevel (LogLevel opts) of Inl err \<Rightarrow> ret (Exit 1) | Inr level \<Rightarrow>
      case su_GetConfig S of Some err \<Rightarrow> ret (Exit 1) | None \<Rightarrow>
      case su_NewManager S of Inl err \<Rightarrow> ret (Exit 1) | Inr mgr \<Rightarrow>
      bind_go (run_outcome (apis_AddToScheme (mgr_Scheme mgr))) (\<lambda>(err, scheme).
      case err of Some err \<Rightarrow> ret (Exit 1) | None \<Rightarrow>
      let mgr = mgr\<lparr>mgr_Scheme := scheme\<rparr> in
      bind_go (run_outcome (Install (mgr_Scheme mgr))) (\<lambda>(err, scheme).
      case err of Some err \<Rightarrow> ret (Exit 1) | None \<Rightarrow>
      let mgr = mgr\<lparr>mgr_Scheme := scheme\<rparr> in
      bind_go (AddToManager E S mgr) (\<lambda>p. case p of
        Exit n \<Rightarrow> ret (Exit n)
      | Goes_on (Some err, mgr) \<Rightarrow> ret (Exit 1)
      | Goes_on (None, mgr) \<Rightarrow>
          (case su_Start S of Some err \<Rightarrow> ret (Exit 1) | None \<Rightarrow> ret (Goes_on mgr))))))"

text \<open>\<open>main\<close>: the command parses its flags into the options, which start with the default level, and runs.\<close>

definition main :: "env \<Rightarrow> startup \<Rightarrow> manager process io" where
  "main E S = (case su_Flags S of
      Inl err \<Rightarrow> ret (Exit 1)
    | Inr level \<Rightarrow> NewRootCommand_Run E S \<lparr>LogLevel = (case level of None \<Rightarrow> defaultLogLevel | Some l \<Rightarrow> l)\<rparr>)"

section \<open>What a successful start has set up\<close>

lemma azure_NewActuator_yields:
  assumes "fst (azure_NewActuator E t) = Return (Inr a)"
  shows "a = AzureActuator E" and "\<exists>s. k_get_secret (kube E) t RootSecretKey = Inr s \<and>
    map_get (sec_Annotations s) AnnotationKey = Some PassthroughAnnotation"
proof -
  let ?g = "k_get_secret (kube E) t RootSecretKey"
  note unfold = azure_NewActuator_def clientWrapper_Mode_def clientWrapper_RootSecret_def clientWrapper_Secret_def
    try_go_def bind_assoc bind_request_apply
  from assms obtain s where s: "?g = Inr s" by (cases ?g) (auto simp: unfold)
  with assms have h: "HasAnnotation s" by (cases "HasAnnotation s") (auto simp: unfold)
  with assms s have m: "map_get_str (sec_Annotations s) AnnotationKey = PassthroughAnnotation" and "a = AzureActuator E"
    by (auto simp: unfold split: if_splits)
  then show "a = AzureActuator E" by simp
  from h m have "map_get (sec_Annotations s) AnnotationKey = Some PassthroughAnnotation"
    by (auto simp: HasAnnotation_def map_get_str_def split: option.splits if_splits)
  with s show "\<exists>s. ?g = Inr s \<and> map_get (sec_Annotations s) AnnotationKey = Some PassthroughAnnotation" by blast
qed

text \<open>The actuator that belongs to a platform.\<close>

definition actuator_for :: "env \<Rightarrow> string \<Rightarrow> actuator" where
  "actuator_for E plat = (if plat = ''AWS'' then AWSActuator E else if plat = ''Azure'' then AzureActuator E else DummyActuator)"

lemma platform_actuator_yields:
  assumes "fst (platform_actuator E plat t) = Return (Inr a)"
  shows "a = actuator_for E plat"
    and "plat = ''Azure'' \<Longrightarrow> \<exists>s. k_get_secret (kube E) t RootSecretKey = Inr s \<and>
      map_get (sec_Annotations s) AnnotationKey = Some PassthroughAnnotation"
  using assms azure_NewActuator_yields [of E t a]
  by (auto simp: platform_actuator_def actuator_for_def AWSPlatformType_def AzurePlatformType_def NewAWSActuator_def
      split: if_splits option.splits)

lemma run_outcome_Return [simp]: "fst (run_outcome r t) = Return x \<longleftrightarrow> r = Return x"
  by (simp add: run_outcome_def)

lemma bind_Return:
  assumes "fst (bind_go m f t) = Return y"
  obtains x where "fst (m t) = Return x" "fst (f x (t @ snd (m t))) = Return y"
  using assms by (auto simp: fst_bind split: outcome.splits)


lemma bind_Return_pair:
  assumes "fst (bind_go m f t) = Return y"
  obtains x z where "fst (m t) = Return (x, z)" "fst (f (x, z) (t @ snd (m t))) = Return y"
  using assms by (auto elim!: bind_Return)

lemma start_watch_None:
  assumes "fst (start_watch c k prct mgr t) = Return (None, mgr')"
  shows "mgr' = mgr\<lparr>sources := sources mgr @ [(ctl_Name c, k)]\<rparr>"
  using assms unfolding start_watch_def by (elim bind_Return) (auto split: option.splits)

lemma start_watches_None:
  assumes "fst (start_watches c ws mgr t) = Return (None, mgr')"
  shows "mgr' = mgr\<lparr>sources := sources mgr @ map (\<lambda>(k, prct). (ctl_Name c, k)) ws\<rparr>"
  using assms
proof (induction c ws mgr arbitrary: t rule: start_watches.induct)
  case (2 c k prct ws mgr)
  from "2.prems" obtain m1 t1 where "fst (start_watch c k prct mgr t) = Return (None, m1)"
    and rest: "fst (start_watches c ws m1 t1) = Return (None, mgr')"
    by (auto elim!: bind_Return_pair split: option.splits)
  from start_watch_None [OF this(1)] "2.IH" [OF refl rest] show ?case by simp
qed simp

lemma mgr_Add_Inr:
  assumes "mgr_Add c mgr = (Inr c', mgr')"
  shows "c' = c\<lparr>SetFields := Some (mgr_SetFields mgr)\<rparr>" "mgr' = mgr\<lparr>runnables := runnables mgr @ [c']\<rparr>"
  using assms by (auto simp: mgr_Add_def Controller_InjectFunc_def Let_def split: option.splits)

lemma annotator_Add_None:
  assumes "fst (annotator_Add E mgr t) = Return (None, mgr')"
  obtains c where "ctl_Name c = ''secretannotator''" "MaxConcurrentReconciles c = 1"
    "Do c = ReconcileCloudCredSecret_Reconcile E"
    "mgr' = mgr\<lparr>runnables := runnables mgr @ [c], sources := sources mgr @ [(''secretannotator'', WatchRootSecret)]\<rparr>"
proof -
  let ?new = "controller_New annotator_controllerName (ReconcileCloudCredSecret_Reconcile E) 0 mgr"
  from assms obtain c m1 where new: "?new = (Inr c, m1)"
    and watch: "fst (start_watch c WatchRootSecret [Inj_Predicate WatchRootSecret] m1 t) = Return (None, mgr')"
    by (auto simp: annotator_Add_def annotator_add_def split: prod.splits sum.splits)
  from new have "c = \<lparr>ctl_Name = ''secretannotator'', MaxConcurrentReconciles = 1,
      Do = ReconcileCloudCredSecret_Reconcile E, SetFields = Some (mgr_SetFields mgr), JitterPeriod = 0, Started = False\<rparr>"
    "m1 = mgr\<lparr>runnables := runnables mgr @ [c]\<rparr>"
    by (auto simp: controller_New_def annotator_controllerName_def dest: mgr_Add_Inr split: option.splits)
  with start_watch_None [OF watch] show thesis by (intro that [of c]) simp_all
qed

lemma AddWithActuator_None:
  assumes "fst (AddWithActuator E a mgr t) = Return (None, mgr')"
  obtains c where "ctl_Name c = ''credentialsrequest-controller''" "MaxConcurrentReconciles c = 1"
    "Do c = Reconcile E a"
    "mgr' = mgr\<lparr>runnables := runnables mgr @ [c], sources := sources mgr @
       map (Pair ''credentialsrequest-controller'') [WatchRequests, WatchSecrets, WatchNamespaces]\<rparr>"
proof -
  from assms obtain c m1 where add: "mgr_Add (credentialsrequest_Controller (Reconcile E a)) mgr = (Inr c, m1)"
    and watch: "fst (start_watches c [(WatchRequests, []), (WatchSecrets, [Inj_Predicate WatchSecrets]),
           (WatchNamespaces, [Inj_Predicate WatchNamespaces])] m1 t) = Return (None, mgr')"
    by (auto simp: AddWithActuator_def credentialsrequest_add_def Let_def simp del: start_watches.simps
        split: option.splits prod.splits sum.splits)
  from mgr_Add_Inr [OF add] start_watches_None [OF watch] show thesis
    by (intro that [of c]) (simp_all add: credentialsrequest_Controller_def)
qed

lemma AddToManager_None:
  assumes "fst (AddToManager E S m t) = Return (Goes_on (None, mgr))"
  obtains m1 infra t1 t2 t3 where "fst (annotator_Add E m t) = Return (None, m1)"
    "k_get_infrastructure (kube E) t1 ''cluster'' = Inr infra"
    "fst (platform_actuator E (Platform infra) t2) = Return (Inr (actuator_for E (Platform infra)))"
    "fst (AddWithActuator E (actuator_for E (Platform infra)) m1 t3) = Return (None, mgr)"
proof -
  from assms obtain m1 t1 where ann: "fst (annotator_Add E m t) = Return (None, m1)"
    and run: "fst (add_with_actuator E S [AddWithActuator E] m1 t1) = Return (Goes_on (None, mgr))"
    unfolding AddToManager_def AddToManagerFuncs_def AddToManagerWithActuatorFuncs_def add_controllers.simps
    by (auto elim!: bind_Return_pair split: option.splits simp del: add_with_actuator.simps)
  from run obtain plat t2 where plat: "fst (platformType E S t1) = Return (Inr plat)"
    and rest: "fst (bind_go (platform_actuator E plat) (\<lambda>a. case a of
       Inl err \<Rightarrow> ret (Goes_on (Some err, m1))
     | Inr a \<Rightarrow> bind_go (AddWithActuator E a m1) (\<lambda>(err, m). case err of
         Some e \<Rightarrow> ret (Goes_on (Some e, m)) | None \<Rightarrow> ret (Goes_on (None, m)))) t2) = Return (Goes_on (None, mgr))"
    unfolding add_with_actuator.simps by (elim bind_Return) (auto split: sum.splits)
  from plat obtain infra where infra: "k_get_infrastructure (kube E) t1 ''cluster'' = Inr infra" "plat = Platform infra"
    by (auto simp: platformType_def bind_request_apply split: option.splits sum.splits)
  from rest obtain a t3 where a: "fst (platform_actuator E plat t2) = Return (Inr a)"
    and fa: "fst (AddWithActuator E a m1 t3) = Return (None, mgr)"
    by (elim bind_Return) (auto elim!: bind_Return_pair split: sum.splits option.splits)
  from platform_actuator_yields(1) [OF a] ann infra a fa show thesis by (intro that) simp_all
qed

text \<open>The two registrations of the process, and what it goes on with.\<close>

lemma Run_AddToManager:
  assumes "fst (main E S t) = Return (Goes_on mgr)" and "su_NewManager S = Inr m"
  obtains s where "has_kinds (api_kinds \<union> config_kinds) s"
    and "fst (AddToManager E S (m\<lparr>mgr_Scheme := s\<rparr>) t) = Return (Goes_on (None, mgr))"
proof -
  from assms obtain s1 s2 where s1: "apis_AddToScheme (mgr_Scheme m) = Return (None, s1)"
    and s2: "Install s1 = Return (None, s2)"
    and add: "fst (AddToManager E S (m\<lparr>mgr_Scheme := s2\<rparr>) t) = Return (Goes_on (None, mgr))"
    unfolding main_def NewRootCommand_Run_def Let_def
    by (auto elim!: bind_Return split: option.splits sum.splits process.splits prod.splits)
  note a = s1 [unfolded apis_AddToScheme_Return, THEN conjunct2] and b = s2 [unfolded Install_Return, THEN conjunct2]
  have "has_kinds (api_kinds \<union> config_kinds) s2"
    unfolding has_kinds_def using api.kinds [OF a] config.kinds [OF b] by blast
  then show thesis using add by (rule that)
qed

text \<open>
  C17. What runs is what was verified. When \<open>main\<close> has started its manager, starting from one
  with no controllers, the manager has exactly two controllers, each with one worker: the secret
  annotator, fed by the root secret's events, and the credentials request controller, fed by
  those of requests, secrets and namespaces. The latter reconciles with the actuator of the
  platform the cluster's infrastructure resource names (AWS, Azure, or the no-op one for any
  other), which keeps the laws of the actuator interface; on Azure the root secret was
  annotated for passthrough. The manager's scheme knows the kinds of the operator's API and those
  of the cluster configuration.
\<close>

theorem startup_wires_operator:
  assumes "fst (main E S t) = Return (Goes_on mgr)"
    and "su_NewManager S = Inr m" "runnables m = []" "sources m = []"
  shows "\<exists>infra t1 ann ctl A. k_get_infrastructure (kube E) t1 ''cluster'' = Inr infra \<and>
    runnables mgr = [ann, ctl] \<and> map MaxConcurrentReconciles [ann, ctl] = [1, 1] \<and>
    Do ann = ReconcileCloudCredSecret_Reconcile E \<and> Do ctl = Reconcile E A \<and>
    sources mgr = [(ctl_Name ann, WatchRootSecret), (ctl_Name ctl, WatchRequests),
      (ctl_Name ctl, WatchSecrets), (ctl_Name ctl, WatchNamespaces)] \<and> ctl_Name ann \<noteq> ctl_Name ctl \<and>
    A = (if Platform infra = ''AWS'' then AWSActuator E
         else if Platform infra = ''Azure'' then AzureActuator E else DummyActuator) \<and> actuator_laws E A \<and>
    (Platform infra = ''Azure'' \<longrightarrow> (\<exists>t2 s. k_get_secret (kube E) t2 RootSecretKey = Inr s \<and>
       map_get (sec_Annotations s) AnnotationKey = Some PassthroughAnnotation)) \<and>
    (\<forall>(k, ty) \<in> api_kinds \<union> config_kinds. Scheme_New (mgr_Scheme mgr) k = Inr (TPtr ty))"
proof -
  obtain s where s: "has_kinds (api_kinds \<union> config_kinds) s"
    and run: "fst (AddToManager E S (m\<lparr>mgr_Scheme := s\<rparr>) t) = Return (Goes_on (None, mgr))"
    by (rule Run_AddToManager [OF assms(1,2)])
  from run obtain m1 infra t1 t2 t3 where ann: "fst (annotator_Add E (m\<lparr>mgr_Scheme := s\<rparr>) t) = Return (None, m1)"
    and infra: "k_get_infrastructure (kube E) t1 ''cluster'' = Inr infra"
    and act: "fst (platform_actuator E (Platform infra) t2) = Return (Inr (actuator_for E (Platform infra)))"
    and add: "fst (AddWithActuator E (actuator_for E (Platform infra)) m1 t3) = Return (None, mgr)"
    by (rule AddToManager_None)
  obtain c1 where c1: "ctl_Name c1 = ''secretannotator''" "MaxConcurrentReconciles c1 = 1"
    "Do c1 = ReconcileCloudCredSecret_Reconcile E"
    "m1 = m\<lparr>mgr_Scheme := s, runnables := runnables m @ [c1], sources := sources m @ [(''secretannotator'', WatchRootSecret)]\<rparr>"
    by (rule annotator_Add_None [OF ann]) simp
  obtain c2 where c2: "ctl_Name c2 = ''credentialsrequest-controller''" "MaxConcurrentReconciles c2 = 1"
    "Do c2 = Reconcile E (actuator_for E (Platform infra))"
    "mgr = m1\<lparr>runnables := runnables m1 @ [c2], sources := sources m1 @
       map (Pair ''credentialsrequest-controller'') [WatchRequests, WatchSecrets, WatchNamespaces]\<rparr>"
    by (rule AddWithActuator_None [OF add])
  have "actuator_laws E (actuator_for E (Platform infra))"
    by (rule operator_actuator) (simp add: actuator_for_def)
  moreover have "\<forall>(k, ty) \<in> api_kinds \<union> config_kinds. Scheme_New (mgr_Scheme mgr) k = Inr (TPtr ty)"
    using has_kinds_New [OF s] by (auto simp: c1(4) c2(4))
  ultimately show ?thesis using infra c1 c2 assms(3,4) platform_actuator_yields(2) [OF act]
    by (intro exI [of _ infra] exI [of _ t1] exI [of _ c1] exI [of _ c2] exI [of _ "actuator_for E (Platform infra)"])
      (auto simp: actuator_for_def)
qed

definition fresh_manager :: manager where
  "fresh_manager = \<lparr>mgr_SetFields = (\<lambda>i. None), mgr_source_Start = (\<lambda>k. None), mgr_Scheme = empty_Scheme,
     runnables = [], sources = []\<rparr>"

definition smooth_startup :: startup where
  "smooth_startup = \<lparr>su_Flags = Inr None, su_GetConfig = None, su_NewManager = Inr fresh_manager,
     su_ClientConfig = None, su_NewClient = None, su_Start = None\<rparr>"

text \<open>With nothing failing, each step of the startup goes through.\<close>

lemma default_level [simp]: "ParseLevel defaultLogLevel = Inr InfoLevel"
  by code_simp

definition smooth :: "manager \<Rightarrow> bool" where
  "smooth m \<longleftrightarrow> mgr_SetFields m = (\<lambda>i. None) \<and> mgr_source_Start m = (\<lambda>k. None)"

lemma smooth_watch:
  "smooth m \<Longrightarrow> SetFields c = Some (\<lambda>i. None) \<Longrightarrow>
     start_watch c k prct m = ret (None, m\<lparr>sources := sources m @ [(ctl_Name c, k)]\<rparr>)"
proof -
  have "inject_loop (\<lambda>i. None) prct = None" by (induction prct) auto
  then show "smooth m \<Longrightarrow> SetFields c = Some (\<lambda>i. None) \<Longrightarrow> ?thesis"
    by (simp add: start_watch_def Controller_Watch_def smooth_def fun_eq_iff prod_eq_iff fst_bind snd_bind)
qed

lemma smooth_annotator: "smooth m \<Longrightarrow> \<exists>m'. (\<forall>t. annotator_Add E m t = (Return (None, m'), [])) \<and> smooth m'"
  by (simp add: annotator_Add_def annotator_add_def controller_New_def annotator_controllerName_def mgr_Add_def
      Controller_InjectFunc_def Let_def smooth_watch smooth_def)

lemma smooth_credentialsrequest: "smooth m \<Longrightarrow> \<exists>m'. (\<forall>t. AddWithActuator E a m t = (Return (None, m'), [])) \<and> smooth m'"
  by (simp add: AddWithActuator_def credentialsrequest_add_def credentialsrequest_Controller_def mgr_Add_def
      Controller_InjectFunc_def Let_def smooth_watch smooth_def)

lemma smooth_start:
  obtains mgr where "fst (main (sample_env sample_kube sample_iam) smooth_startup []) = Return (Goes_on mgr)"
proof -
  let ?E = "sample_env sample_kube sample_iam"
  have "fits (api_kinds \<union> config_kinds) unversioned_names empty_Scheme" by (simp add: fits_def)
  from api_then_config [OF empty_Scheme(1) this] obtain s1 s2
    where s: "apis_AddToScheme empty_Scheme = Return (None, s1)" "Install s1 = Return (None, s2)" by blast
  let ?m = "fresh_manager\<lparr>mgr_Scheme := s2\<rparr>"
  have "smooth ?m" by (simp add: smooth_def fresh_manager_def)
  with smooth_annotator obtain m1 where m1: "\<And>t. annotator_Add ?E ?m t = (Return (None, m1), [])" "smooth m1" by blast
  with smooth_credentialsrequest obtain m2 where m2: "\<And>t. AddWithActuator ?E (AWSActuator ?E) m1 t = (Return (None, m2), [])" by blast
  have "fst (AddToManager ?E smooth_startup ?m []) = Return (Goes_on (None, m2))"
    by (simp add: AddToManager_def AddToManagerFuncs_def AddToManagerWithActuatorFuncs_def m1(1) m2 platformType_def
        getClient_def smooth_startup_def platform_actuator_def NewAWSActuator_def AWSPlatformType_def fst_bind)
  then have "fst (main ?E smooth_startup []) = Return (Goes_on m2)"
    by (simp add: main_def NewRootCommand_Run_def default_level smooth_startup_def s fst_bind fresh_manager_def)
  then show thesis by (rule that)
qed

theorem startup_wires_operator_witness:
  "\<exists>mgr ann ctl. fst (main (sample_env sample_kube sample_iam) smooth_startup []) = Return (Goes_on mgr) \<and>
     runnables mgr = [ann, ctl] \<and>
     Do ctl = Reconcile (sample_env sample_kube sample_iam) (AWSActuator (sample_env sample_kube sample_iam))"
proof -
  let ?E = "sample_env sample_kube sample_iam"
  obtain mgr where run: "fst (main ?E smooth_startup []) = Return (Goes_on mgr)" by (rule smooth_start)
  from startup_wires_operator [OF this, of fresh_manager] obtain ann ctl infra t1 A where
    "k_get_infrastructure (kube ?E) t1 ''cluster'' = Inr infra" "runnables mgr = [ann, ctl]" "Do ctl = Reconcile ?E A"
    "A = (if Platform infra = ''AWS'' then AWSActuator ?E else if Platform infra = ''Azure'' then AzureActuator ?E
       else DummyActuator)"
    by (auto simp: smooth_startup_def fresh_manager_def)
  then have "runnables mgr = [ann, ctl]" "Do ctl = Reconcile ?E (AWSActuator ?E)" by auto
  with run show ?thesis by blast
qed

end
