(* ===== verification/GoMemory.thy ===== *)
theory GoMemory
  imports Main
begin

text \<open>
  Go memory with aliasing, for the code that shares or copies mutable objects. Everywhere else
  in the development values are immutable; this theory holds what that needs to be justified.

  A memory maps block addresses to arrays of cells and allocates blocks at increasing addresses.
  A pointer is \<open>nil\<close> or names an element of a block; a slice is \<open>nil\<close> or a block with an offset, a
  length and a capacity. Code that uses memory is a function from memories to results with
  memories, \<open>None\<close> being a panic (a \<open>nil\<close> dereference or an index out of range).

  A reader turns an in-memory value into the tree of values it denotes, together with its
  footprint, the blocks it visits. The locale \<open>deep_copier\<close> is the contract of a deep copy:
  it returns, the copy reads as the same tree, no block that existed before is changed, and the
  copy's footprint consists of new blocks only, none of them visited twice (the copy is a tree). Its lemmas show that the original and the copy
  are independent. The sublocales show that a pointer to, and a slice of, such objects is
  deep-copied by the loops that the generator \<open>deepcopy-gen\<close> emits.
\<close>

section \<open>Memory\<close>

record 'c mem =
  blocks :: "nat \<Rightarrow> 'c list option"
  next_block :: nat

definition wf_mem :: "'c mem \<Rightarrow> bool" where
  "wf_mem m \<longleftrightarrow> (\<forall>a. next_block m \<le> a \<longrightarrow> blocks m a = None)"

definition empty_mem :: "'c mem" where
  "empty_mem = \<lparr>blocks = \<lambda>_. None, next_block = 0\<rparr>"

datatype ptr = Nil_ptr | Ptr nat nat

datatype slice = Nil_slice | Slice (sl_block: nat) (sl_off: nat) (sl_len: nat) (sl_cap: nat)

type_synonym ('c, 'a) hp = "'c mem \<Rightarrow> ('a \<times> 'c mem) option"

definition hret :: "'a \<Rightarrow> ('c, 'a) hp" where
  "hret x m = Some (x, m)"

definition hbind :: "('c, 'a) hp \<Rightarrow> ('a \<Rightarrow> ('c, 'b) hp) \<Rightarrow> ('c, 'b) hp" where
  "hbind p f m = (case p m of None \<Rightarrow> None | Some (x, m') \<Rightarrow> f x m')"

definition new_block :: "'c list \<Rightarrow> ('c, nat) hp" where
  "new_block cs m = Some (next_block m,
     m\<lparr>blocks := (blocks m)(next_block m := Some cs), next_block := Suc (next_block m)\<rparr>)"

definition peek :: "'c mem \<Rightarrow> nat \<Rightarrow> nat \<Rightarrow> 'c option" where
  "peek m a i = (case blocks m a of
      None \<Rightarrow> None
    | Some cs \<Rightarrow> if i < length cs then Some (cs ! i) else None)"

definition load :: "('c \<Rightarrow> 't option) \<Rightarrow> ptr \<Rightarrow> ('c, 't) hp" where
  "load prj p m = (case p of
      Nil_ptr \<Rightarrow> None
    | Ptr a i \<Rightarrow> (case peek m a i of
          None \<Rightarrow> None
        | Some c \<Rightarrow> (case prj c of None \<Rightarrow> None | Some v \<Rightarrow> Some (v, m))))"

definition store :: "('t \<Rightarrow> 'c) \<Rightarrow> ptr \<Rightarrow> 't \<Rightarrow> ('c, unit) hp" where
  "store mk p v m = (case p of
      Nil_ptr \<Rightarrow> None
    | Ptr a i \<Rightarrow> (case blocks m a of
          None \<Rightarrow> None
        | Some cs \<Rightarrow> if i < length cs
            then Some ((), m\<lparr>blocks := (blocks m)(a := Some (cs[i := mk v]))\<rparr>) else None))"

text \<open>\<open>new(T)\<close>, \<open>make([]T, n)\<close>, \<open>len(s)\<close> and \<open>&s[i]\<close>.\<close>

definition new_obj :: "('t \<Rightarrow> 'c) \<Rightarrow> 't \<Rightarrow> ('c, ptr) hp" where
  "new_obj mk zero = hbind (new_block [mk zero]) (\<lambda>a. hret (Ptr a 0))"

definition make_slice :: "('t \<Rightarrow> 'c) \<Rightarrow> 't \<Rightarrow> nat \<Rightarrow> ('c, slice) hp" where
  "make_slice mk zero n =
     hbind (new_block (replicate n (mk zero))) (\<lambda>a. hret (Slice a 0 n n))"

fun slice_len :: "slice \<Rightarrow> nat" where
  "slice_len Nil_slice = 0"
| "slice_len (Slice a off n cap) = n"

fun elem_ptr :: "slice \<Rightarrow> nat \<Rightarrow> ptr" where
  "elem_ptr Nil_slice i = Nil_ptr"
| "elem_ptr (Slice a off n cap) i = (if i < n then Ptr a (off + i) else Nil_ptr)"

text \<open>A \<open>for i := range\<close> loop over the indices from \<open>i\<close> on, \<open>k\<close> of them.\<close>

fun for_range :: "nat \<Rightarrow> nat \<Rightarrow> (nat \<Rightarrow> ('c, unit) hp) \<Rightarrow> ('c, unit) hp" where
  "for_range i 0 body = hret ()"
| "for_range i (Suc k) body = hbind (body i) (\<lambda>_. for_range (Suc i) k body)"

text \<open>
  \<open>append(s, v)\<close>: in place when the capacity allows it, else in a new block. The spare capacity of
  a new block is up to the runtime: it is the argument \<open>spare\<close>.
\<close>

definition append_slice :: "nat \<Rightarrow> ('t \<Rightarrow> 'c) \<Rightarrow> 't \<Rightarrow> slice \<Rightarrow> 't \<Rightarrow> ('c, slice) hp" where
  "append_slice spare mk zero s v m = (case s of
      Nil_slice \<Rightarrow> hbind (new_block (mk v # replicate spare (mk zero)))
        (\<lambda>b. hret (Slice b 0 1 (1 + spare))) m
    | Slice a off n cap \<Rightarrow>
        if n < cap then hbind (store mk (Ptr a (off + n)) v) (\<lambda>_. hret (Slice a off (Suc n) cap)) m
        else (case blocks m a of
            None \<Rightarrow> None
          | Some cs \<Rightarrow> hbind (new_block (take n (drop off cs) @ mk v # replicate spare (mk zero)))
              (\<lambda>b. hret (Slice b 0 (Suc n) (Suc n + spare))) m))"

section \<open>The copying code that deepcopy-gen emits\<close>

text \<open>
  \<open>in.DeepCopyInto(out)\<close> through pointers: \<open>into\<close> gets the struct \<open>*in\<close> and returns what it writes
  to \<open>*out\<close>; the two never overlap, since \<open>out\<close> is always new. The emitted code calls it on
  \<open>out := new(T)\<close> behind a \<open>nil\<close> check, and in the loop over a slice.
\<close>

definition copy_into ::
    "('t \<Rightarrow> 'c) \<Rightarrow> ('c \<Rightarrow> 't option) \<Rightarrow> ('t \<Rightarrow> ('c, 't) hp) \<Rightarrow> ptr \<Rightarrow> ptr \<Rightarrow> ('c, unit) hp" where
  "copy_into mk prj into p out =
     hbind (load prj p) (\<lambda>v. hbind (into v) (\<lambda>v'. store mk out v'))"

definition copy_ptr ::
    "('t \<Rightarrow> 'c) \<Rightarrow> ('c \<Rightarrow> 't option) \<Rightarrow> 't \<Rightarrow> ('t \<Rightarrow> ('c, 't) hp) \<Rightarrow> ptr \<Rightarrow> ('c, ptr) hp" where
  "copy_ptr mk prj zero into p =
     (if p = Nil_ptr then hret Nil_ptr
      else hbind (new_obj mk zero) (\<lambda>out. hbind (copy_into mk prj into p out) (\<lambda>_. hret out)))"

definition copy_each ::
    "('t \<Rightarrow> 'c) \<Rightarrow> ('c \<Rightarrow> 't option) \<Rightarrow> 't \<Rightarrow> ('t \<Rightarrow> ('c, 't) hp) \<Rightarrow> slice \<Rightarrow> ('c, slice) hp" where
  "copy_each mk prj zero into s =
     (if s = Nil_slice then hret Nil_slice
      else hbind (make_slice mk zero (slice_len s)) (\<lambda>out.
           hbind (for_range 0 (slice_len s)
             (\<lambda>i. copy_into mk prj into (elem_ptr s i) (elem_ptr out i))) (\<lambda>_. hret out)))"

section \<open>Readers\<close>

type_synonym ('c, 'a) reader = "'c mem \<Rightarrow> ('a \<times> nat list) option"

definition rd_val :: "'a \<Rightarrow> ('c, 'a) reader" where
  "rd_val x m = Some (x, [])"

definition rd_map :: "('a \<Rightarrow> 'b) \<Rightarrow> ('c, 'a) reader \<Rightarrow> ('c, 'b) reader" where
  "rd_map f r m = (case r m of None \<Rightarrow> None | Some (x, F) \<Rightarrow> Some (f x, F))"

definition rd_pair :: "('c, 'a) reader \<Rightarrow> ('c, 'b) reader \<Rightarrow> ('c, 'a \<times> 'b) reader" where
  "rd_pair r s m = (case r m of None \<Rightarrow> None | Some (x, F) \<Rightarrow>
     (case s m of None \<Rightarrow> None | Some (y, G) \<Rightarrow> Some ((x, y), F @ G)))"

definition rd_ptr :: "('c \<Rightarrow> 't option) \<Rightarrow> ('t \<Rightarrow> ('c, 'a) reader) \<Rightarrow> ptr \<Rightarrow> ('c, 'a option) reader" where
  "rd_ptr prj rd p m = (case p of
      Nil_ptr \<Rightarrow> Some (None, [])
    | Ptr a i \<Rightarrow> (case load prj p m of
          None \<Rightarrow> None
        | Some (v, _) \<Rightarrow> (case rd v m of None \<Rightarrow> None | Some (x, F) \<Rightarrow> Some (Some x, a # F))))"

fun rd_list :: "('t \<Rightarrow> ('c, 'a) reader) \<Rightarrow> 't list \<Rightarrow> ('c, 'a list) reader" where
  "rd_list rd [] m = Some ([], [])"
| "rd_list rd (v # vs) m = (case rd v m of None \<Rightarrow> None | Some (x, F) \<Rightarrow>
     (case rd_list rd vs m of None \<Rightarrow> None | Some (xs, G) \<Rightarrow> Some (x # xs, F @ G)))"

text \<open>The elements of a slice: its length within its capacity, its capacity within the block.\<close>

fun slice_elems :: "('c \<Rightarrow> 't option) \<Rightarrow> slice \<Rightarrow> 'c mem \<Rightarrow> 't list option" where
  "slice_elems prj Nil_slice m = Some []"
| "slice_elems prj (Slice a off n cap) m = (case blocks m a of
      None \<Rightarrow> None
    | Some cs \<Rightarrow> if n \<le> cap \<and> off + cap \<le> length cs
        then those (map prj (take n (drop off cs))) else None)"

definition rd_slice :: "('c \<Rightarrow> 't option) \<Rightarrow> ('t \<Rightarrow> ('c, 'a) reader) \<Rightarrow> slice \<Rightarrow> ('c, 'a list option) reader" where
  "rd_slice prj rd s m = (case s of
      Nil_slice \<Rightarrow> Some (None, [])
    | Slice a off n cap \<Rightarrow> (case slice_elems prj s m of
          None \<Rightarrow> None
        | Some vs \<Rightarrow> (case rd_list rd vs m of
              None \<Rightarrow> None | Some (xs, F) \<Rightarrow> Some (Some xs, a # F))))"

text \<open>A pointer that must not be \<open>nil\<close>.\<close>

definition rd_ref :: "('c \<Rightarrow> 't option) \<Rightarrow> ('t \<Rightarrow> ('c, 'a) reader) \<Rightarrow> ptr \<Rightarrow> ('c, 'a) reader" where
  "rd_ref prj rd p m = (case rd_ptr prj rd p m of
      Some (Some x, F) \<Rightarrow> Some (x, F) | _ \<Rightarrow> None)"

definition rd_option :: "('v \<Rightarrow> ('c, 'a) reader) \<Rightarrow> 'v option \<Rightarrow> ('c, 'a option) reader" where
  "rd_option rd v = (case v of None \<Rightarrow> rd_val None | Some w \<Rightarrow> rd_map Some (rd w))"

subsection \<open>Locality\<close>

definition agree :: "nat list \<Rightarrow> 'c mem \<Rightarrow> 'c mem \<Rightarrow> bool" where
  "agree F m m' \<longleftrightarrow> (\<forall>a \<in> set F. blocks m' a = blocks m a)"

text \<open>A reader depends on its footprint only, and its footprint is allocated.\<close>

definition local_reader :: "('c, 'a) reader \<Rightarrow> bool" where
  "local_reader r \<longleftrightarrow> (\<forall>m x F. r m = Some (x, F) \<longrightarrow>
     (\<forall>a \<in> set F. blocks m a \<noteq> None) \<and> (\<forall>m'. agree F m m' \<longrightarrow> r m' = Some (x, F)))"

named_theorems local_intros \<open>readers that depend on their footprint only\<close>

lemma local_reader_same:
  "local_reader r \<Longrightarrow> r m = Some (x, F) \<Longrightarrow> agree F m m' \<Longrightarrow> r m' = Some (x, F)"
  unfolding local_reader_def by blast

lemma local_reader_allocated:
  "local_reader r \<Longrightarrow> wf_mem m \<Longrightarrow> r m = Some (x, F) \<Longrightarrow> set F \<subseteq> {..<next_block m}"
  unfolding local_reader_def wf_mem_def by (meson lessThan_iff not_le_imp_less subsetI)

lemma agree_append [simp]: "agree (F @ G) m m' \<longleftrightarrow> agree F m m' \<and> agree G m m'"
  by (auto simp: agree_def)

lemma agree_Cons [simp]: "agree (a # F) m m' \<longleftrightarrow> blocks m' a = blocks m a \<and> agree F m m'"
  by (auto simp: agree_def)

lemma local_val [local_intros]: "local_reader (rd_val x)"
  by (simp add: local_reader_def rd_val_def)

lemma local_readerI:
  assumes "\<And>m x F a. r m = Some (x, F) \<Longrightarrow> a \<in> set F \<Longrightarrow> blocks m a \<noteq> None"
    and "\<And>m m' x F. r m = Some (x, F) \<Longrightarrow> agree F m m' \<Longrightarrow> r m' = Some (x, F)"
  shows "local_reader r"
  using assms unfolding local_reader_def by blast

lemma local_readerD:
  "local_reader r \<Longrightarrow> r m = Some (x, F) \<Longrightarrow> a \<in> set F \<Longrightarrow> blocks m a \<noteq> None"
  unfolding local_reader_def by blast

lemma rd_map_Some: "rd_map f r m = Some (y, F) \<longleftrightarrow> (\<exists>x. r m = Some (x, F) \<and> y = f x)"
  by (auto simp: rd_map_def split: option.splits)

lemma rd_pair_Some: "rd_pair r s m = Some (z, H) \<longleftrightarrow>
    (\<exists>x F y G. r m = Some (x, F) \<and> s m = Some (y, G) \<and> z = (x, y) \<and> H = F @ G)"
  by (auto simp: rd_pair_def split: option.splits)

lemma local_map [local_intros]: "local_reader r \<Longrightarrow> local_reader (rd_map f r)"
  by (rule local_readerI) (auto simp: rd_map_Some dest: local_readerD local_reader_same)

lemma local_pair [local_intros]: "local_reader r \<Longrightarrow> local_reader s \<Longrightarrow> local_reader (rd_pair r s)"
  by (rule local_readerI)
    (auto simp: rd_pair_Some dest: local_readerD, metis local_reader_same)

lemma load_Some:
  "load prj p m = Some (v, m') \<longleftrightarrow> m' = m \<and>
     (\<exists>a i cs. p = Ptr a i \<and> blocks m a = Some cs \<and> i < length cs \<and> prj (cs ! i) = Some v)"
  by (cases p) (auto simp: load_def peek_def split: option.splits if_splits)

lemma rd_ptr_Some:
  "rd_ptr prj rd (Ptr a i) m = Some (y, G) \<longleftrightarrow> (\<exists>v x F. load prj (Ptr a i) m = Some (v, m) \<and>
     rd v m = Some (x, F) \<and> y = Some x \<and> G = a # F)"
  by (auto simp: rd_ptr_def load_def split: option.splits)

lemma local_ptr [local_intros]:
  assumes rd: "\<And>v. local_reader (rd v)"
  shows "local_reader (rd_ptr prj rd p)"
proof (cases p)
  case Nil_ptr
  then show ?thesis by (simp add: local_reader_def rd_ptr_def)
next
  case (Ptr a i)
  have "local_reader (rd_ptr prj rd (Ptr a i))"
    by (rule local_readerI)
      (auto simp: rd_ptr_Some load_Some dest: local_readerD [OF rd] local_reader_same [OF rd])
  with Ptr show ?thesis by simp
qed

lemma local_list [local_intros]:
  assumes "\<And>v. local_reader (rd v)"
  shows "local_reader (rd_list rd vs)"
proof (induction vs)
  case Nil
  then show ?case by (simp add: local_reader_def)
next
  case (Cons v vs)
  have "rd_list rd (v # vs) = rd_map (\<lambda>(x, xs). x # xs) (rd_pair (rd v) (rd_list rd vs))"
    by (auto simp: rd_map_def rd_pair_def fun_eq_iff split: option.splits prod.splits)
  then show ?case by (simp add: local_intros assms Cons)
qed

lemma slice_elems_same:
  "blocks m' a = blocks m a \<Longrightarrow> slice_elems prj (Slice a off n cap) m' = slice_elems prj (Slice a off n cap) m"
  by simp

lemma rd_slice_Some:
  "rd_slice prj rd (Slice a off n cap) m = Some (y, G) \<longleftrightarrow> (\<exists>vs xs F.
     slice_elems prj (Slice a off n cap) m = Some vs \<and> rd_list rd vs m = Some (xs, F) \<and>
     y = Some xs \<and> G = a # F)"
  by (auto simp: rd_slice_def split: option.splits)

lemma local_slice [local_intros]:
  assumes "\<And>v. local_reader (rd v)"
  shows "local_reader (rd_slice prj rd s)"
proof (cases s)
  case Nil_slice
  then show ?thesis by (simp add: local_reader_def rd_slice_def)
next
  case (Slice a off n cap)
  have "local_reader (rd_slice prj rd (Slice a off n cap))"
  proof (rule local_readerI)
    fix m x F b
    assume "rd_slice prj rd (Slice a off n cap) m = Some (x, F)" "b \<in> set F"
    then show "blocks m b \<noteq> None"
      by (auto simp: rd_slice_Some split: option.splits dest: local_readerD [OF local_list [OF assms]])
  next
    fix m m' x F
    assume "rd_slice prj rd (Slice a off n cap) m = Some (x, F)" "agree F m m'"
    then obtain vs xs G where *: "slice_elems prj (Slice a off n cap) m = Some vs"
        "rd_list rd vs m = Some (xs, G)" "x = Some xs" "F = a # G" "agree G m m'"
        "blocks m' a = blocks m a"
      by (auto simp: rd_slice_Some simp del: slice_elems.simps)
    have "rd_list rd vs m' = Some (xs, G)"
      using local_list [OF assms] *(2,5) by (rule local_reader_same)
    moreover have "slice_elems prj (Slice a off n cap) m' = Some vs"
      using *(1) slice_elems_same [OF *(6), of prj off n cap] by (rule trans [rotated])
    ultimately show "rd_slice prj rd (Slice a off n cap) m' = Some (x, F)"
      using * by (simp only: rd_slice_Some) blast
  qed
  with Slice show ?thesis by simp
qed

lemma rd_ref_Some: "rd_ref prj rd p m = Some (x, F) \<longleftrightarrow> rd_ptr prj rd p m = Some (Some x, F)"
  by (auto simp: rd_ref_def split: option.splits)

lemma local_ref [local_intros]:
  assumes "\<And>v. local_reader (rd v)"
  shows "local_reader (rd_ref prj rd p)"
  using local_ptr [where rd = rd and prj = prj and p = p, OF assms]
  by (intro local_readerI) (auto simp: rd_ref_Some dest: local_readerD local_reader_same)

lemma local_option [local_intros]: "(\<And>v. local_reader (rd v)) \<Longrightarrow> local_reader (rd_option rd v)"
  by (cases v) (simp_all add: rd_option_def local_intros)

section \<open>Copying\<close>

text \<open>Every old block except those of \<open>X\<close> is kept; blocks are only added.\<close>

definition grows_except :: "nat set \<Rightarrow> 'c mem \<Rightarrow> 'c mem \<Rightarrow> bool" where
  "grows_except X m m' \<longleftrightarrow> wf_mem m' \<and> next_block m \<le> next_block m' \<and>
     (\<forall>a < next_block m. a \<notin> X \<longrightarrow> blocks m' a = blocks m a)"

abbreviation grows :: "'c mem \<Rightarrow> 'c mem \<Rightarrow> bool" where
  "grows \<equiv> grows_except {}"

text \<open>A footprint of new blocks, each visited once: what it belongs to is a tree.\<close>

definition fresh_tree :: "'c mem \<Rightarrow> 'c mem \<Rightarrow> nat list \<Rightarrow> bool" where
  "fresh_tree m m' F \<longleftrightarrow> distinct F \<and> set F \<subseteq> {next_block m ..< next_block m'}"

lemma fresh_tree_Nil [simp]: "fresh_tree m m' []"
  by (simp add: fresh_tree_def)

lemma fresh_tree_append:
  "fresh_tree m m1 F \<Longrightarrow> fresh_tree m1 m' G \<Longrightarrow> next_block m \<le> next_block m1 \<Longrightarrow>
     next_block m1 \<le> next_block m' \<Longrightarrow> fresh_tree m m' (F @ G)"
  unfolding fresh_tree_def by fastforce

lemma fresh_tree_Cons:
  "fresh_tree m1 m' G \<Longrightarrow> next_block m1 = Suc (next_block m) \<Longrightarrow> Suc (next_block m) \<le> next_block m' \<Longrightarrow>
     fresh_tree m m' (next_block m # G)"
  unfolding fresh_tree_def by fastforce

lemma grows_refl: "wf_mem m \<Longrightarrow> grows_except X m m"
  by (simp add: grows_except_def)

lemma grows_trans:
  "grows_except X m m' \<Longrightarrow> grows_except Y m' m'' \<Longrightarrow> X \<union> Y \<inter> {..<next_block m} \<subseteq> Z \<Longrightarrow>
     grows_except Z m m''"
  unfolding grows_except_def
  by (elim conjE, intro conjI allI impI)
    (simp_all, metis Int_iff UnCI UnI1 lessThan_iff less_le_trans subsetD)

lemma grows_agree: "grows_except X m m' \<Longrightarrow> set F \<subseteq> {..<next_block m} \<Longrightarrow> set F \<inter> X = {} \<Longrightarrow> agree F m m'"
  unfolding grows_except_def agree_def by blast

lemma grows_wf: "grows_except X m m' \<Longrightarrow> wf_mem m'"
  by (simp add: grows_except_def)

lemma grows_next: "grows_except X m m' \<Longrightarrow> next_block m \<le> next_block m'"
  by (simp add: grows_except_def)

text \<open>
  The computation \<open>c\<close> makes a fresh copy of what \<open>r\<close> reads; its result is read by \<open>R\<close>.
\<close>

definition copies :: "('c, 'a) reader \<Rightarrow> ('c, 'v) hp \<Rightarrow> ('v \<Rightarrow> ('c, 'a) reader) \<Rightarrow> bool" where
  "copies r c R \<longleftrightarrow> (\<forall>m x F. wf_mem m \<longrightarrow> r m = Some (x, F) \<longrightarrow>
     (\<exists>v' m' F'. c m = Some (v', m') \<and> grows m m' \<and> R v' m' = Some (x, F') \<and> fresh_tree m m' F'))"

lemma copiesE:
  assumes "copies r c R" "wf_mem m" "r m = Some (x, F)"
  obtains v' m' F' where "c m = Some (v', m')" "grows m m'" "R v' m' = Some (x, F')" "fresh_tree m m' F'"
  using assms unfolding copies_def by blast

lemma copiesI:
  assumes "\<And>m x F. wf_mem m \<Longrightarrow> r m = Some (x, F) \<Longrightarrow>
     \<exists>v' m' F'. c m = Some (v', m') \<and> grows m m' \<and> R v' m' = Some (x, F') \<and> fresh_tree m m' F'"
  shows "copies r c R"
  using assms unfolding copies_def by blast

lemma copies_val: "copies (rd_val v) (hret v) rd_val"
  by (rule copiesI) (auto simp: rd_val_def hret_def grows_refl)

lemma copies_map:
  assumes "copies r c R" and "\<And>w. S (g w) = rd_map f (R w)"
  shows "copies (rd_map f r) (hbind c (\<lambda>w. hret (g w))) S"
proof (rule copiesI)
  fix m y F assume m: "wf_mem m" "rd_map f r m = Some (y, F)"
  then obtain x where x: "r m = Some (x, F)" "y = f x" by (auto simp: rd_map_Some)
  obtain w m' F' where "c m = Some (w, m')" "grows m m'" "R w m' = Some (x, F')" "fresh_tree m m' F'"
    using assms(1) m(1) x(1) by (rule copiesE)
  with x show "\<exists>v' m' F'. hbind c (\<lambda>w. hret (g w)) m = Some (v', m') \<and> grows m m' \<and>
      S v' m' = Some (y, F') \<and> fresh_tree m m' F'"
    by (auto simp: hbind_def hret_def assms(2) rd_map_Some)
qed

definition hpair :: "('c, 'a) hp \<Rightarrow> ('c, 'b) hp \<Rightarrow> ('c, 'a \<times> 'b) hp" where
  "hpair p q = hbind p (\<lambda>x. hbind q (\<lambda>y. hret (x, y)))"

lemma copies_pair:
  assumes c1: "copies r1 c1 R1" and c2: "copies r2 c2 R2"
    and r2: "local_reader r2" and R1: "\<And>w. local_reader (R1 w)"
  shows "copies (rd_pair r1 r2) (hpair c1 c2) (\<lambda>w. rd_pair (R1 (fst w)) (R2 (snd w)))"
proof (rule copiesI)
  fix m z H assume m: "wf_mem m" and "rd_pair r1 r2 m = Some (z, H)"
  then obtain x F y G where r: "r1 m = Some (x, F)" "r2 m = Some (y, G)" "z = (x, y)"
    by (auto simp: rd_pair_Some)
  obtain w1 m1 F1 where 1: "c1 m = Some (w1, m1)" "grows m m1" "R1 w1 m1 = Some (x, F1)" "fresh_tree m m1 F1"
    using c1 m r(1) by (rule copiesE)
  have "r2 m1 = Some (y, G)"
    using r2 r(2) by (rule local_reader_same)
      (rule grows_agree [OF 1(2) local_reader_allocated [OF r2 m r(2)]], simp)
  with c2 grows_wf [OF 1(2)] obtain w2 m2 F2 where
    2: "c2 m1 = Some (w2, m2)" "grows m1 m2" "R2 w2 m2 = Some (y, F2)" "fresh_tree m1 m2 F2"
    by (rule copiesE)
  have "R1 w1 m2 = Some (x, F1)"
    using R1 1(3) by (rule local_reader_same)
      (rule grows_agree [OF 2(2)], use 1(4) in \<open>auto simp: fresh_tree_def\<close>)
  moreover have "grows m m2" by (rule grows_trans [OF 1(2) 2(2)]) simp
  moreover have "fresh_tree m m2 (F1 @ F2)"
    using 1(4) 2(4) grows_next [OF 1(2)] grows_next [OF 2(2)] by (rule fresh_tree_append)
  ultimately show "\<exists>v' m' F'. hpair c1 c2 m = Some (v', m') \<and> grows m m' \<and>
      rd_pair (R1 (fst v')) (R2 (snd v')) m' = Some (z, F') \<and> fresh_tree m m' F'"
    using 1(1) 2(1,3) r(3) by (auto simp: hpair_def hbind_def hret_def rd_pair_Some)
qed

lemma hbind_hpair:
  "hbind p (\<lambda>x. hbind q (\<lambda>y. k x y)) = hbind (hpair p q) (\<lambda>w. k (fst w) (snd w))"
  by (auto simp: hbind_def hpair_def hret_def fun_eq_iff split: option.splits)

lemma copies_None: "copies (rd_option rd None) (hret None) (rd_option rd)"
  by (rule copiesI) (auto simp: rd_option_def rd_val_def hret_def grows_refl)

lemma grows_new:
  "wf_mem m \<Longrightarrow>
     grows m (m\<lparr>blocks := (blocks m)(next_block m := Some cs), next_block := Suc (next_block m)\<rparr>)"
  by (auto simp: grows_except_def wf_mem_def)

lemma local_reader_grows:
  "local_reader r \<Longrightarrow> wf_mem m \<Longrightarrow> r m = Some (x, F) \<Longrightarrow> grows m m' \<Longrightarrow> r m' = Some (x, F)"
  by (rule local_reader_same, assumption+, rule grows_agree) (auto dest: local_reader_allocated)

lemma those_map_Some:
  "those (map f xs) = Some ys \<longleftrightarrow> length ys = length xs \<and> (\<forall>j < length xs. f (xs ! j) = Some (ys ! j))"
proof (induction xs arbitrary: ys)
  case (Cons x xs)
  then show ?case by (cases ys) (auto simp: All_less_Suc2 split: option.splits)
qed auto

lemma rd_list_length: "rd_list rd vs m = Some (xs, F) \<Longrightarrow> length xs = length vs"
  by (induction vs arbitrary: xs F) (auto split: option.splits)

lemma rd_list_val: "rd_list rd_val vs m = Some (vs, [])"
  by (induction vs) (simp_all add: rd_val_def)

lemma slice_elems_Some:
  "slice_elems prj (Slice a off n cap) m = Some vs \<longleftrightarrow> (\<exists>cs. blocks m a = Some cs \<and> n \<le> cap \<and>
     off + cap \<le> length cs \<and> length vs = n \<and> (\<forall>j < n. prj (cs ! (off + j)) = Some (vs ! j)))"
  by (auto simp: those_map_Some split: option.splits)

lemma slice_elems_length: "slice_elems prj s m = Some vs \<Longrightarrow> length vs = slice_len s"
  by (cases s) (auto simp: slice_elems_Some simp del: slice_elems.simps(2))

lemma slice_elems_block:
  "wf_mem m \<Longrightarrow> slice_elems prj (Slice a off n cap) m = Some vs \<Longrightarrow> a < next_block m"
  by (auto simp: slice_elems_Some wf_mem_def not_less [symmetric] simp del: slice_elems.simps(2))

lemma load_elem:
  "slice_elems prj (Slice a off n cap) m = Some vs \<Longrightarrow> j < n \<Longrightarrow> blocks m' a = blocks m a \<Longrightarrow>
     load prj (Ptr a (off + j)) m' = Some (vs ! j, m')"
  by (auto simp: slice_elems_Some load_Some simp del: slice_elems.simps(2))

lemma for_range_cong: "(\<And>j. i \<le> j \<Longrightarrow> j < i + k \<Longrightarrow> f j = g j) \<Longrightarrow> for_range i k f = for_range i k g"
  by (induction k arbitrary: i) auto

text \<open>
  The copy and the original read the same; changing every block of the one leaves the other
  untouched.
\<close>

lemma copies_independent:
  assumes c: "copies r c R" and r: "local_reader r" and R: "\<And>w. local_reader (R w)"
    and m: "wf_mem m" "r m = Some (x, F)"
  shows "\<exists>v' m' F'. c m = Some (v', m') \<and> grows m m' \<and> R v' m' = Some (x, F') \<and>
     fresh_tree m m' F' \<and> r m' = Some (x, F) \<and>
     (\<forall>m2. (\<forall>a. a \<notin> set F' \<longrightarrow> blocks m2 a = blocks m' a) \<longrightarrow> r m2 = Some (x, F)) \<and>
     (\<forall>m2. (\<forall>a. a \<notin> set F \<longrightarrow> blocks m2 a = blocks m' a) \<longrightarrow> R v' m2 = Some (x, F'))"
proof -
  obtain v' m' F' where c: "c m = Some (v', m')" "grows m m'" "R v' m' = Some (x, F')"
      "fresh_tree m m' F'"
    using c m by (rule copiesE)
  have v: "r m' = Some (x, F)" using r m c(2) by (rule local_reader_grows)
  have disj: "set F \<inter> set F' = {}"
    using local_reader_allocated [OF r m] c(4) by (fastforce simp: fresh_tree_def)
  have "r m2 = Some (x, F)" if "\<forall>a. a \<notin> set F' \<longrightarrow> blocks m2 a = blocks m' a" for m2
    using r v by (rule local_reader_same) (use that disj in \<open>auto simp: agree_def\<close>)
  moreover have "R v' m2 = Some (x, F')" if "\<forall>a. a \<notin> set F \<longrightarrow> blocks m2 a = blocks m' a" for m2
    using R c(3) by (rule local_reader_same) (use that disj in \<open>auto simp: agree_def\<close>)
  ultimately show ?thesis using c v by blast
qed

section \<open>The contract of a deep copy\<close>

locale deep_copier =
  fixes rd :: "'v \<Rightarrow> ('c, 'a) reader"
    and copy :: "'v \<Rightarrow> ('c, 'v) hp"
  assumes reader_local: "local_reader (rd v)"
    and copy_copies: "copies (rd v) (copy v) rd"
begin

lemma independent:
  assumes "wf_mem m" "rd v m = Some (x, F)"
  shows "\<exists>v' m' F'. copy v m = Some (v', m') \<and> grows m m' \<and> rd v' m' = Some (x, F') \<and>
     fresh_tree m m' F' \<and> rd v m' = Some (x, F) \<and>
     (\<forall>m2. (\<forall>a. a \<notin> set F' \<longrightarrow> blocks m2 a = blocks m' a) \<longrightarrow> rd v m2 = Some (x, F)) \<and>
     (\<forall>m2. (\<forall>a. a \<notin> set F \<longrightarrow> blocks m2 a = blocks m' a) \<longrightarrow> rd v' m2 = Some (x, F'))"
  using copy_copies reader_local reader_local assms by (rule copies_independent)

end

text \<open>
  A copier for a type whose values can be stored in cells: \<open>mk\<close> puts a value in a cell, \<open>prj\<close> gets
  it back, \<open>zero\<close> is the zero value of the type.
\<close>

locale cell_copier = deep_copier rd copy
  for rd :: "'v \<Rightarrow> ('c, 'a) reader" and copy :: "'v \<Rightarrow> ('c, 'v) hp" +
  fixes mk :: "'v \<Rightarrow> 'c"
    and prj :: "'c \<Rightarrow> 'v option"
    and zero :: 'v
  assumes prj_mk [simp]: "prj (mk v) = Some v"
begin

lemma copy_into_step:
  assumes m: "wf_mem m" "b < next_block m" "blocks m b = Some cs" "i < length cs"
    and v: "load prj p m = Some (v, m)" "rd v m = Some (x, F)"
  shows "\<exists>w m' G. copy_into mk prj copy p (Ptr b i) m = Some ((), m') \<and> grows_except {b} m m' \<and>
     blocks m' b = Some (cs[i := mk w]) \<and> rd w m' = Some (x, G) \<and> fresh_tree m m' G"
proof -
  obtain w m1 G where 1: "copy v m = Some (w, m1)" "grows m m1" "rd w m1 = Some (x, G)" "fresh_tree m m1 G"
    using copy_copies m(1) v(2) by (rule copiesE)
  let ?m' = "m1\<lparr>blocks := (blocks m1)(b := Some (cs[i := mk w]))\<rparr>"
  have b1: "blocks m1 b = Some cs" using 1(2) m(2,3) by (simp add: grows_except_def)
  have "grows_except {b} m ?m'" using 1(2) m(2) by (auto simp: grows_except_def wf_mem_def)
  moreover have "rd w ?m' = Some (x, G)"
    using reader_local 1(3) by (rule local_reader_same) (use 1(4) m(2) in \<open>auto simp: agree_def fresh_tree_def\<close>)
  moreover have "fresh_tree m ?m' G" using 1(4) by (simp add: fresh_tree_def)
  ultimately show ?thesis
    using 1(1) m(4) b1 v(1) by (auto simp: copy_into_def hbind_def store_def)
qed

lemma copy_ptr_copies: "copies (rd_ptr prj rd p) (copy_ptr mk prj zero copy p) (rd_ptr prj rd)"
proof (rule copiesI)
  fix m y F assume m: "wf_mem m" and rd: "rd_ptr prj rd p m = Some (y, F)"
  show "\<exists>v' m' F'. copy_ptr mk prj zero copy p m = Some (v', m') \<and> grows m m' \<and>
      rd_ptr prj rd v' m' = Some (y, F') \<and> fresh_tree m m' F'"
  proof (cases p)
    case Nil_ptr
    with rd m show ?thesis by (auto simp: copy_ptr_def hret_def rd_ptr_def grows_refl)
  next
    case (Ptr a i)
    with rd obtain v x G where v: "load prj p m = Some (v, m)" "rd v m = Some (x, G)" "y = Some x"
      by (auto simp: rd_ptr_Some)
    let ?o = "next_block m"
    let ?m1 = "m\<lparr>blocks := (blocks m)(?o := Some [mk zero]), next_block := Suc ?o\<rparr>"
    have g1: "grows m ?m1" using m by (rule grows_new)
    have "load prj p ?m1 = Some (v, ?m1)" using m v(1) by (auto simp: load_Some wf_mem_def)
    then obtain w m' G' where 2: "copy_into mk prj copy p (Ptr ?o 0) ?m1 = Some ((), m')"
        "grows_except {?o} ?m1 m'" "blocks m' ?o = Some [mk w]" "rd w m' = Some (x, G')" "fresh_tree ?m1 m' G'"
      using copy_into_step [OF grows_wf [OF g1], of ?o "[mk zero]" 0 p v x]
        local_reader_grows [OF reader_local m v(2) g1] by auto
    have "copy_ptr mk prj zero copy p m = Some (Ptr ?o 0, m')"
      using 2(1) by (simp add: copy_ptr_def new_obj_def hbind_def new_block_def Ptr hret_def)
    moreover have "rd_ptr prj rd (Ptr ?o 0) m' = Some (y, ?o # G')"
      using 2(3,4) v(3) by (auto simp: rd_ptr_Some load_Some)
    moreover have "grows m m'" using g1 2(2) by (rule grows_trans) simp
    moreover have "fresh_tree m m' (?o # G')"
      using 2(5) grows_next [OF 2(2)] by (auto intro: fresh_tree_Cons)
    ultimately show ?thesis by blast
  qed
qed

text \<open>
  \<open>if c := in.DeepCopy(); c != nil { return c }; return nil\<close>, where returning \<open>c\<close> wraps the pointer in
  an interface.
\<close>

lemma copy_object_copies:
  assumes "\<And>q. R (con q) = rd_map f (rd_ref prj rd q)"
  shows "copies (rd_map Some (R (con p)))
     (hbind (copy_ptr mk prj zero copy p) (\<lambda>c. hret (if c \<noteq> Nil_ptr then Some (con c) else None)))
     (rd_option R)"
proof (rule copiesI)
  fix m y F assume m: "wf_mem m" and "rd_map Some (R (con p)) m = Some (y, F)"
  then obtain x where x: "rd_ptr prj rd p m = Some (Some x, F)" "y = Some (f x)"
    by (auto simp: assms rd_map_Some rd_ref_Some)
  obtain q m' F' where q: "copy_ptr mk prj zero copy p m = Some (q, m')" "grows m m'"
      "rd_ptr prj rd q m' = Some (Some x, F')" "fresh_tree m m' F'"
    using copy_ptr_copies m x(1) by (rule copiesE)
  from q(3) have "q \<noteq> Nil_ptr" by (auto simp: rd_ptr_def)
  with q x(2) show "\<exists>v' m' F'. hbind (copy_ptr mk prj zero copy p)
        (\<lambda>c. hret (if c \<noteq> Nil_ptr then Some (con c) else None)) m = Some (v', m') \<and> grows m m' \<and>
      rd_option R v' m' = Some (y, F') \<and> fresh_tree m m' F'"
    by (auto simp: hbind_def hret_def rd_option_def rd_map_Some rd_ref_Some assms)
qed

text \<open>
  The loop over a slice: from index \<open>i\<close> on, the elements \<open>vs\<close> of the source are copied into the
  block \<open>b\<close>, which the copies do not use.
\<close>

lemma copy_loop:
  assumes "wf_mem m" "b < next_block m" "blocks m b = Some cs" "length cs = i + length vs"
    and "\<And>j m'. j < length vs \<Longrightarrow> grows_except {b} m m' \<Longrightarrow> load prj (src (i + j)) m' = Some (vs ! j, m')"
    and "rd_list rd vs m = Some (xs, F)" "b \<notin> set F"
  shows "\<exists>m' ws G. for_range i (length vs) (\<lambda>i. copy_into mk prj copy (src i) (Ptr b i)) m = Some ((), m') \<and>
     grows_except {b} m m' \<and> blocks m' b = Some (take i cs @ map mk ws) \<and>
     rd_list rd ws m' = Some (xs, G) \<and> fresh_tree m m' G"
  using assms
proof (induction vs arbitrary: i m cs xs F)
  case Nil
  then show ?case by (auto simp: hret_def grows_refl intro!: exI [of _ "[]"])
next
  case (Cons v vs)
  let ?body = "\<lambda>i. copy_into mk prj copy (src i) (Ptr b i)"
  from Cons.prems(6) obtain x F1 xs' F2 where v: "rd v m = Some (x, F1)" "rd_list rd vs m = Some (xs', F2)"
      "xs = x # xs'" "F = F1 @ F2"
    by (auto split: option.splits)
  obtain w m2 G1 where 2: "?body i m = Some ((), m2)" "grows_except {b} m m2"
      "blocks m2 b = Some (cs[i := mk w])" "rd w m2 = Some (x, G1)" "fresh_tree m m2 G1"
    using copy_into_step [OF Cons.prems(1-3), of i "src i" v] v(1) Cons.prems(4)
      Cons.prems(5) [of 0 m] Cons.prems(1) by (auto simp: grows_refl)
  have F2: "set F2 \<subseteq> {..<next_block m}" "set F2 \<inter> {b} = {}" using v(4) Cons.prems(7)
    local_reader_allocated [OF local_list [OF reader_local] Cons.prems(1) v(2)] by auto
  have "\<exists>m' ws G. for_range (Suc i) (length vs) ?body m2 = Some ((), m') \<and>
     grows_except {b} m2 m' \<and> blocks m' b = Some (take (Suc i) (cs[i := mk w]) @ map mk ws) \<and>
     rd_list rd ws m' = Some (xs', G) \<and> fresh_tree m2 m' G"
  proof (rule Cons.IH)
    show "rd_list rd vs m2 = Some (xs', F2)"
      using local_list [OF reader_local] v(2) by (rule local_reader_same) (rule grows_agree [OF 2(2) F2])
    show "load prj (src (Suc i + j)) m' = Some (vs ! j, m')"
      if "j < length vs" "grows_except {b} m2 m'" for j m'
      using Cons.prems(5) [of "Suc j" m'] that grows_trans [OF 2(2) that(2), of "{b}"] by simp
  qed (use Cons.prems(2,4) F2(2) 2(3) grows_wf [OF 2(2)] grows_next [OF 2(2)] in auto)
  then obtain m' ws G where 3: "for_range (Suc i) (length vs) ?body m2 = Some ((), m')"
     "grows_except {b} m2 m'" "blocks m' b = Some (take (Suc i) (cs[i := mk w]) @ map mk ws)"
     "rd_list rd ws m' = Some (xs', G)" "fresh_tree m2 m' G"
    by blast
  have "rd w m' = Some (x, G1)" using reader_local 2(4)
    by (rule local_reader_same) (rule grows_agree [OF 3(2)], use 2(5) Cons.prems(2) in \<open>auto simp: fresh_tree_def\<close>)
  then have "rd_list rd (w # ws) m' = Some (xs, G1 @ G)" using 3(4) v(3) by simp
  moreover have "take (Suc i) (cs[i := mk w]) @ map mk ws = take i cs @ map mk (w # ws)"
    using Cons.prems(4) by (simp add: take_Suc_conv_app_nth)
  moreover have "grows_except {b} m m'" using 2(2) 3(2) by (rule grows_trans) simp
  moreover have "fresh_tree m m' (G1 @ G)"
    using 2(5) 3(5) grows_next [OF 2(2)] grows_next [OF 3(2)] by (rule fresh_tree_append)
  ultimately show ?case
    using 2(1) 3(1,3) by (auto simp: hbind_def [of "?body i"] intro!: exI [of _ "w # ws"])
qed

lemma copy_each_loop:
  fixes m n defines "m1 \<equiv> m\<lparr>blocks := (blocks m)(next_block m := Some (replicate n (mk zero))), next_block := Suc (next_block m)\<rparr>"
  assumes m: "wf_mem m" and s: "s = Slice a off n cap"
    and vs: "slice_elems prj s m = Some vs" "rd_list rd vs m = Some (xs, G)"
  shows "\<exists>m' ws G'. for_range 0 n (\<lambda>i. copy_into mk prj copy (elem_ptr s i) (elem_ptr (Slice (next_block m) 0 n n) i)) m1 =
      Some ((), m') \<and> grows_except {next_block m} m1 m' \<and> blocks m' (next_block m) = Some (map mk ws) \<and>
      rd_list rd ws m' = Some (xs, G') \<and> fresh_tree m1 m' G'"
proof -
  let ?b = "next_block m"
  have n: "length vs = n" and ab: "a < ?b"
    using slice_elems_length [OF vs(1)] s slice_elems_block [OF m vs(1) [unfolded s]] by simp_all
  have g1: "grows m m1" unfolding m1_def using m by (rule grows_new)
  have "\<exists>m' ws G'. for_range 0 (length vs) (\<lambda>i. copy_into mk prj copy (elem_ptr s i) (Ptr ?b i)) m1 = Some ((), m') \<and>
     grows_except {?b} m1 m' \<and> blocks m' ?b = Some (take 0 (replicate n (mk zero)) @ map mk ws) \<and>
     rd_list rd ws m' = Some (xs, G') \<and> fresh_tree m1 m' G'"
  proof (rule copy_loop)
    show "rd_list rd vs m1 = Some (xs, G)"
      using local_list [OF reader_local] m vs(2) g1 by (rule local_reader_grows)
    show "load prj (elem_ptr s (0 + j)) m' = Some (vs ! j, m')" if "j < length vs" "grows_except {?b} m1 m'" for j m'
      using that ab vs(1) s n
      by (auto intro!: load_elem simp: grows_except_def m1_def simp del: slice_elems.simps)
    show "?b \<notin> set G" using local_reader_allocated [OF local_list [OF reader_local] m vs(2)] by auto
  qed (use grows_wf [OF g1] n in \<open>auto simp: m1_def\<close>)
  moreover have "for_range 0 n (\<lambda>i. copy_into mk prj copy (elem_ptr s i) (elem_ptr (Slice ?b 0 n n) i)) =
      for_range 0 (length vs) (\<lambda>i. copy_into mk prj copy (elem_ptr s i) (Ptr ?b i))"
    unfolding n by (rule for_range_cong) simp
  ultimately show ?thesis by auto
qed

lemma copy_each_copies: "copies (rd_slice prj rd s) (copy_each mk prj zero copy s) (rd_slice prj rd)"
proof (rule copiesI)
  fix m y F assume m: "wf_mem m" and rd: "rd_slice prj rd s m = Some (y, F)"
  show "\<exists>v' m' F'. copy_each mk prj zero copy s m = Some (v', m') \<and> grows m m' \<and>
      rd_slice prj rd v' m' = Some (y, F') \<and> fresh_tree m m' F'"
  proof (cases s)
    case Nil_slice
    with rd m show ?thesis by (auto simp: copy_each_def hret_def rd_slice_def grows_refl)
  next
    case (Slice a off n cap)
    with rd obtain vs xs G where vs: "slice_elems prj s m = Some vs" "rd_list rd vs m = Some (xs, G)"
        "y = Some xs"
      by (auto simp: rd_slice_Some simp del: slice_elems.simps)
    let ?b = "next_block m"
    let ?m1 = "m\<lparr>blocks := (blocks m)(?b := Some (replicate n (mk zero))), next_block := Suc ?b\<rparr>"
    let ?out = "Slice ?b 0 n n"
    have g1: "grows m ?m1" using m by (rule grows_new)
    from copy_each_loop [OF m Slice vs(1,2)] obtain m' ws G' where
      2: "for_range 0 n (\<lambda>i. copy_into mk prj copy (elem_ptr s i) (elem_ptr ?out i)) ?m1 = Some ((), m')"
        "grows_except {?b} ?m1 m'" "blocks m' ?b = Some (map mk ws)" "rd_list rd ws m' = Some (xs, G')"
        "fresh_tree ?m1 m' G'"
      by blast
    have ws: "length ws = n" 
      using rd_list_length [OF 2(4)] rd_list_length [OF vs(2)] slice_elems_length [OF vs(1)] Slice by simp
    have "copy_each mk prj zero copy s m = Some (?out, m')"
      using 2(1) by (simp add: copy_each_def Slice make_slice_def hbind_def new_block_def hret_def)
    moreover have "rd_slice prj rd ?out m' = Some (y, ?b # G')"
      using 2(3,4) ws vs(3) by (auto simp: rd_slice_Some those_map_Some)
    moreover have "grows m m'" using g1 2(2) by (rule grows_trans) simp
    moreover have "fresh_tree m m' (?b # G')"
      using 2(5) grows_next [OF 2(2)] by (auto intro: fresh_tree_Cons)
    ultimately show ?thesis by blast
  qed
qed

end

sublocale cell_copier \<subseteq> ptr: deep_copier "rd_ptr prj rd" "copy_ptr mk prj zero copy"
  by unfold_locales (auto intro: local_ptr reader_local copy_ptr_copies)

sublocale cell_copier \<subseteq> slice: deep_copier "rd_slice prj rd" "copy_each mk prj zero copy"
  by unfold_locales (auto intro: local_slice reader_local copy_each_copies)

section \<open>Writing slices\<close>

text \<open>Assigning to an element, and appending, for any cell type.\<close>

lemma store_elem:
  assumes "slice_elems prj (Slice a off n cap) m = Some vs" "j < n" "prj (mk v) = Some v" "wf_mem m"
  shows "\<exists>m'. store mk (Ptr a (off + j)) v m = Some ((), m') \<and> grows_except {a} m m' \<and>
     slice_elems prj (Slice a off n cap) m' = Some (vs[j := v])"
proof -
  obtain cs where cs: "blocks m a = Some cs" "n \<le> cap" "off + cap \<le> length cs" "length vs = n"
      "\<And>j. j < n \<Longrightarrow> prj (cs ! (off + j)) = Some (vs ! j)"
    using assms(1) unfolding slice_elems_Some by blast
  let ?m' = "m\<lparr>blocks := (blocks m)(a := Some (cs[off + j := mk v]))\<rparr>"
  have "slice_elems prj (Slice a off n cap) ?m' = Some (vs[j := v])"
    unfolding slice_elems_Some using cs assms(2,3) by (auto simp: nth_list_update)
  moreover have "store mk (Ptr a (off + j)) v m = Some ((), ?m')"
    using cs assms(2) by (simp add: store_def)
  moreover have "grows_except {a} m ?m'"
    using assms(4) cs(1) by (auto simp: grows_except_def wf_mem_def)
  ultimately show ?thesis by blast
qed

lemma store_ptr:
  assumes "load prj (Ptr a i) m = Some (v, m)" "prj (mk w) = Some w" "wf_mem m"
  shows "\<exists>m'. store mk (Ptr a i) w m = Some ((), m') \<and> grows_except {a} m m' \<and>
     load prj (Ptr a i) m' = Some (w, m') \<and> next_block m' = next_block m"
  using assms by (auto simp: load_Some store_def grows_except_def wf_mem_def)

text \<open>Reading again after a change of blocks outside the footprint.\<close>

lemma local_reader_except:
  assumes "local_reader r" "wf_mem m" "r m = Some (x, F)" "grows_except X m m'" "set F \<inter> X = {}"
  shows "r m' = Some (x, F)"
  using assms(1,3) by (rule local_reader_same)
    (rule grows_agree [OF assms(4) local_reader_allocated [OF assms(1-3)] assms(5)])

lemma load_except:
  assumes "wf_mem m" "load prj (Ptr a i) m = Some (v, m)" "grows_except X m m'" "a \<notin> X"
  shows "load prj (Ptr a i) m' = Some (v, m')"
proof -
  have "blocks m' a = blocks m a"
    using assms by (auto simp: load_Some grows_except_def wf_mem_def not_less [symmetric])
  with assms(2) show ?thesis by (auto simp: load_Some)
qed

lemma new_block_elems:
  assumes "wf_mem m" "\<And>j. j < length vs \<Longrightarrow> prj (cs ! j) = Some (vs ! j)" "length cs = length vs + k"
  shows "\<exists>m'. new_block cs m = Some (next_block m, m') \<and> grows m m' \<and> next_block m < next_block m' \<and>
     slice_elems prj (Slice (next_block m) 0 (length vs) (length vs + k)) m' = Some vs"
  using assms grows_new [OF assms(1), of cs]
  by (simp add: new_block_def slice_elems_Some del: slice_elems.simps(2))

definition slice_block :: "slice \<Rightarrow> nat list" where
  "slice_block s = (case s of Nil_slice \<Rightarrow> [] | Slice a off n cap \<Rightarrow> [a])"

lemma append_slice_result:
  assumes "wf_mem m" "slice_elems prj s m = Some vs" "\<And>v. prj (mk v) = Some v"
  shows "\<exists>b off cap m'. append_slice spare mk zero s v m = Some (Slice b off (Suc (length vs)) cap, m') \<and>
     grows_except (set (slice_block s)) m m' \<and>
     slice_elems prj (Slice b off (Suc (length vs)) cap) m' = Some (vs @ [v]) \<and>
     (b \<in> set (slice_block s) \<or> next_block m \<le> b \<and> b < next_block m')"
proof (cases s)
  case Nil_slice
  then have vs: "vs = []" using assms(2) by simp
  obtain m' where "new_block (mk v # replicate spare (mk zero)) m = Some (next_block m, m')" "grows m m'"
      "next_block m < next_block m'" "slice_elems prj (Slice (next_block m) 0 1 (1 + spare)) m' = Some [v]"
    using new_block_elems [OF assms(1), of "[v]" prj "mk v # replicate spare (mk zero)" spare] assms(3) by auto
  then show ?thesis
    using Nil_slice vs by (auto simp: append_slice_def hbind_def hret_def slice_block_def simp del: slice_elems.simps)
next
  case (Slice a off n cap)
  obtain cs where cs: "blocks m a = Some cs" "n \<le> cap" "off + cap \<le> length cs" "length vs = n"
      "\<And>j. j < n \<Longrightarrow> prj (cs ! (off + j)) = Some (vs ! j)"
    using assms(2) [unfolded Slice slice_elems_Some] by blast
  show ?thesis
  proof (cases "n < cap")
    case True
    let ?m' = "m\<lparr>blocks := (blocks m)(a := Some (cs[off + n := mk v]))\<rparr>"
    have "slice_elems prj (Slice a off (Suc n) cap) ?m' = Some (vs @ [v])"
      unfolding slice_elems_Some using cs True assms(3) by (auto simp: nth_list_update nth_append less_Suc_eq)
    moreover have "grows_except {a} m ?m'" using assms(1) cs(1) by (auto simp: grows_except_def wf_mem_def)
    ultimately show ?thesis
      using Slice True cs by (auto simp: append_slice_def hbind_def hret_def store_def slice_block_def
          simp del: slice_elems.simps)
  next
    case False
    let ?cs = "take n (drop off cs) @ mk v # replicate spare (mk zero)"
    have "prj (?cs ! j) = Some ((vs @ [v]) ! j)" if "j < length (vs @ [v])" for j
      using that cs assms(3) by (auto simp: nth_append less_Suc_eq)
    with new_block_elems [OF assms(1), of "vs @ [v]" prj ?cs spare] cs(2-4)
    obtain m' where "new_block ?cs m = Some (next_block m, m')" "grows m m'" "next_block m < next_block m'"
        "slice_elems prj (Slice (next_block m) 0 (Suc n) (Suc n + spare)) m' = Some (vs @ [v])"
      by (auto simp del: slice_elems.simps)
    moreover have "grows_except {a} m m'" using \<open>grows m m'\<close> by (auto simp: grows_except_def)
    ultimately show ?thesis
      using Slice False cs by (auto simp: append_slice_def hbind_def hret_def slice_block_def
          simp del: slice_elems.simps)
  qed
qed

end
