(* ===== verification/ApiMemory.thy ===== *)
theory ApiMemory
  imports ApiTypes GoMemory
begin

text \<open>
  The API objects of \<open>pkg/apis/cloudcredential/v1\<close> and the object metadata as they lie in memory:
  each struct with a pointer for every \<open>*T\<close>, a slice for every \<open>[]T\<close> and a pointer to a map object
  for every \<open>map[K]V\<close>. A cell holds one value of one of these types. The readers
  \<open>rd_...\<close> give the value that a struct denotes, which is the immutable value the rest of the
  development works with.

  \<open>RawExtension.Object\<close> is an interface; what it holds here are the provider objects of this
  package, the ones the codec encodes and decodes. An interface that holds a \<open>nil\<close> pointer is not
  \<open>nil\<close>: such an object denotes nothing, so its reader fails.
\<close>

section \<open>Structs in memory\<close>

type_synonym mOwnerReference = "ptr OwnerReferenceOf"
type_synonym mStatusDetails = "slice StatusDetailsOf"
type_synonym mMetaStatus = "ptr MetaStatusOf"
type_synonym mInitializers = "(slice, ptr) InitializersOf"

record mObjectMeta =
  mom_Name :: string
  mom_GenerateName :: string
  mom_Namespace :: string
  mom_SelfLink :: string
  mom_UID :: string
  mom_ResourceVersion :: string
  mom_Generation :: int
  mom_CreationTimestamp :: int
  mom_DeletionTimestamp :: ptr
  mom_DeletionGracePeriodSeconds :: ptr
  mom_Labels :: ptr
  mom_Annotations :: ptr
  mom_OwnerReferences :: slice
  mom_Initializers :: ptr
  mom_Finalizers :: slice
  mom_ClusterName :: string

record mStatementEntry =
  mse_Effect :: string
  mse_Action :: slice
  mse_Resource :: string

record mAWSProviderSpec =
  maws_TypeMeta :: TypeMeta
  maws_StatementEntries :: slice

record mAzureProviderSpec =
  mazure_TypeMeta :: TypeMeta
  mazure_RoleBindings :: slice

datatype provider_object =
    AwsSpecObject ptr
  | AwsStatusObject ptr
  | AzureSpecObject ptr
  | AzureStatusObject ptr

record mRawExtension =
  mraw_Raw :: slice
  mraw_Object :: "provider_object option"

record mCredentialsRequestSpec =
  msp_SecretRef :: ObjectReference
  msp_ProviderSpec :: ptr

record mCredentialsRequestStatus =
  mst_Provisioned :: bool
  mst_LastSyncTimestamp :: ptr
  mst_LastSyncGeneration :: int
  mst_ProviderStatus :: ptr
  mst_Conditions :: slice

record mCredentialsRequest =
  mcr_TypeMeta :: TypeMeta
  mcr_Meta :: mObjectMeta
  mcr_Spec :: mCredentialsRequestSpec
  mcr_Status :: mCredentialsRequestStatus

record mCredentialsRequestList =
  mcl_TypeMeta :: TypeMeta
  mcl_ListMeta :: ListMeta
  mcl_Items :: slice

text \<open>
  \<open>corev1.Secret\<close>. Its map \<open>Data\<close> has slices as values: the map object is the list of its entries, in
  the order in which a loop visits them.
\<close>

record mSecret =
  msec_TypeMeta :: TypeMeta
  msec_Meta :: mObjectMeta
  msec_Data :: ptr
  msec_StringData :: ptr
  msec_Type :: string

text \<open>\<open>runtime.Object\<close>, for the types of this package.\<close>

datatype runtime_object =
    ProviderObject provider_object
  | RequestObject ptr
  | RequestListObject ptr

section \<open>Cells\<close>

datatype cell =
    CString string
  | CByte char
  | CBool bool
  | CInt int
  | CTime int
  | CMap "(string, string) fmap"
  | CCause StatusCause
  | CInitializer string
  | COwner mOwnerReference
  | CDetails mStatusDetails
  | CMetaStatus mMetaStatus
  | CInitializers mInitializers
  | CEntry mStatementEntry
  | CBinding RoleBinding
  | CCondition CredentialsRequestCondition
  | CRaw mRawExtension
  | CAwsSpec mAWSProviderSpec
  | CAwsStatus AWSProviderStatus
  | CAzureSpec mAzureProviderSpec
  | CAzureStatus AzureProviderStatus
  | CSpec mCredentialsRequestSpec
  | CStatus mCredentialsRequestStatus
  | CRequest mCredentialsRequest
  | CRequestList mCredentialsRequestList
  | CData "(string \<times> slice) list"
  | CSecret mSecret

definition as_string :: "cell \<Rightarrow> string option" where
  "as_string c = (case c of CString v \<Rightarrow> Some v | _ \<Rightarrow> None)"

definition as_byte :: "cell \<Rightarrow> char option" where
  "as_byte c = (case c of CByte v \<Rightarrow> Some v | _ \<Rightarrow> None)"

definition as_bool :: "cell \<Rightarrow> bool option" where
  "as_bool c = (case c of CBool v \<Rightarrow> Some v | _ \<Rightarrow> None)"

definition as_int :: "cell \<Rightarrow> int option" where
  "as_int c = (case c of CInt v \<Rightarrow> Some v | _ \<Rightarrow> None)"

definition as_time :: "cell \<Rightarrow> int option" where
  "as_time c = (case c of CTime v \<Rightarrow> Some v | _ \<Rightarrow> None)"

definition as_map :: "cell \<Rightarrow> (string, string) fmap option" where
  "as_map c = (case c of CMap v \<Rightarrow> Some v | _ \<Rightarrow> None)"

definition as_cause :: "cell \<Rightarrow> StatusCause option" where
  "as_cause c = (case c of CCause v \<Rightarrow> Some v | _ \<Rightarrow> None)"

definition as_initializer :: "cell \<Rightarrow> string option" where
  "as_initializer c = (case c of CInitializer v \<Rightarrow> Some v | _ \<Rightarrow> None)"

definition as_owner :: "cell \<Rightarrow> mOwnerReference option" where
  "as_owner c = (case c of COwner v \<Rightarrow> Some v | _ \<Rightarrow> None)"

definition as_details :: "cell \<Rightarrow> mStatusDetails option" where
  "as_details c = (case c of CDetails v \<Rightarrow> Some v | _ \<Rightarrow> None)"

definition as_meta_status :: "cell \<Rightarrow> mMetaStatus option" where
  "as_meta_status c = (case c of CMetaStatus v \<Rightarrow> Some v | _ \<Rightarrow> None)"

definition as_initializers :: "cell \<Rightarrow> mInitializers option" where
  "as_initializers c = (case c of CInitializers v \<Rightarrow> Some v | _ \<Rightarrow> None)"

definition as_entry :: "cell \<Rightarrow> mStatementEntry option" where
  "as_entry c = (case c of CEntry v \<Rightarrow> Some v | _ \<Rightarrow> None)"

definition as_binding :: "cell \<Rightarrow> RoleBinding option" where
  "as_binding c = (case c of CBinding v \<Rightarrow> Some v | _ \<Rightarrow> None)"

definition as_condition :: "cell \<Rightarrow> CredentialsRequestCondition option" where
  "as_condition c = (case c of CCondition v \<Rightarrow> Some v | _ \<Rightarrow> None)"

definition as_raw :: "cell \<Rightarrow> mRawExtension option" where
  "as_raw c = (case c of CRaw v \<Rightarrow> Some v | _ \<Rightarrow> None)"

definition as_aws_spec :: "cell \<Rightarrow> mAWSProviderSpec option" where
  "as_aws_spec c = (case c of CAwsSpec v \<Rightarrow> Some v | _ \<Rightarrow> None)"

definition as_aws_status :: "cell \<Rightarrow> AWSProviderStatus option" where
  "as_aws_status c = (case c of CAwsStatus v \<Rightarrow> Some v | _ \<Rightarrow> None)"

definition as_azure_spec :: "cell \<Rightarrow> mAzureProviderSpec option" where
  "as_azure_spec c = (case c of CAzureSpec v \<Rightarrow> Some v | _ \<Rightarrow> None)"

definition as_azure_status :: "cell \<Rightarrow> AzureProviderStatus option" where
  "as_azure_status c = (case c of CAzureStatus v \<Rightarrow> Some v | _ \<Rightarrow> None)"

definition as_spec :: "cell \<Rightarrow> mCredentialsRequestSpec option" where
  "as_spec c = (case c of CSpec v \<Rightarrow> Some v | _ \<Rightarrow> None)"

definition as_status :: "cell \<Rightarrow> mCredentialsRequestStatus option" where
  "as_status c = (case c of CStatus v \<Rightarrow> Some v | _ \<Rightarrow> None)"

definition as_request :: "cell \<Rightarrow> mCredentialsRequest option" where
  "as_request c = (case c of CRequest v \<Rightarrow> Some v | _ \<Rightarrow> None)"

definition as_request_list :: "cell \<Rightarrow> mCredentialsRequestList option" where
  "as_request_list c = (case c of CRequestList v \<Rightarrow> Some v | _ \<Rightarrow> None)"

definition as_data :: "cell \<Rightarrow> (string \<times> slice) list option" where
  "as_data c = (case c of CData v \<Rightarrow> Some v | _ \<Rightarrow> None)"

definition as_secret :: "cell \<Rightarrow> mSecret option" where
  "as_secret c = (case c of CSecret v \<Rightarrow> Some v | _ \<Rightarrow> None)"

lemmas as_defs =
  as_data_def as_secret_def
  as_string_def as_byte_def as_bool_def as_int_def as_time_def as_map_def as_cause_def as_initializer_def as_owner_def as_details_def as_meta_status_def as_initializers_def as_entry_def as_binding_def as_condition_def as_raw_def as_aws_spec_def as_aws_status_def as_azure_spec_def as_azure_status_def as_spec_def as_status_def as_request_def as_request_list_def

section \<open>Zero values\<close>

definition zero_OwnerReference :: mOwnerReference where
  "zero_OwnerReference = \<lparr>own_APIVersion = [], own_Kind = [], own_Name = [], own_UID = [],
     own_Controller = Nil_ptr, own_BlockOwnerDeletion = Nil_ptr\<rparr>"

definition zero_StatusCause :: StatusCause where
  "zero_StatusCause = \<lparr>sc_Type = [], sc_Message = [], sc_Field = []\<rparr>"

definition zero_StatusDetails :: mStatusDetails where
  "zero_StatusDetails = \<lparr>sd_Name = [], sd_Group = [], sd_Kind = [], sd_UID = [],
     sd_Causes = Nil_slice, sd_RetryAfterSeconds = 0\<rparr>"

definition zero_ListMeta :: ListMeta where
  "zero_ListMeta = \<lparr>lm_SelfLink = [], lm_ResourceVersion = [], lm_Continue = []\<rparr>"

definition zero_MetaStatus :: mMetaStatus where
  "zero_MetaStatus = \<lparr>ms_TypeMeta = empty_TypeMeta, ms_ListMeta = zero_ListMeta, ms_Status = [],
     ms_Message = [], ms_Reason = [], ms_Details = Nil_ptr, ms_Code = 0\<rparr>"

definition zero_Initializers :: mInitializers where
  "zero_Initializers = \<lparr>ini_Pending = Nil_slice, ini_Result = Nil_ptr\<rparr>"

definition zero_ObjectMeta :: mObjectMeta where
  "zero_ObjectMeta = \<lparr>mom_Name = [], mom_GenerateName = [], mom_Namespace = [], mom_SelfLink = [],
     mom_UID = [], mom_ResourceVersion = [], mom_Generation = 0, mom_CreationTimestamp = 0,
     mom_DeletionTimestamp = Nil_ptr, mom_DeletionGracePeriodSeconds = Nil_ptr,
     mom_Labels = Nil_ptr, mom_Annotations = Nil_ptr, mom_OwnerReferences = Nil_slice,
     mom_Initializers = Nil_ptr, mom_Finalizers = Nil_slice, mom_ClusterName = []\<rparr>"

definition zero_StatementEntry :: mStatementEntry where
  "zero_StatementEntry = \<lparr>mse_Effect = [], mse_Action = Nil_slice, mse_Resource = []\<rparr>"

definition zero_AWSProviderSpec :: mAWSProviderSpec where
  "zero_AWSProviderSpec = \<lparr>maws_TypeMeta = empty_TypeMeta, maws_StatementEntries = Nil_slice\<rparr>"

definition zero_RoleBinding :: RoleBinding where
  "zero_RoleBinding = \<lparr>Role = [], Scope = []\<rparr>"

definition zero_AzureProviderSpec :: mAzureProviderSpec where
  "zero_AzureProviderSpec = \<lparr>mazure_TypeMeta = empty_TypeMeta, mazure_RoleBindings = Nil_slice\<rparr>"

definition zero_CredentialsRequestCondition :: CredentialsRequestCondition where
  "zero_CredentialsRequestCondition = \<lparr>cc_Type = [], cc_Status = [], cc_LastProbeTime = 0,
     cc_LastTransitionTime = 0, cc_Reason = [], cc_Message = []\<rparr>"

definition zero_RawExtension :: mRawExtension where
  "zero_RawExtension = \<lparr>mraw_Raw = Nil_slice, mraw_Object = None\<rparr>"

definition zero_ObjectReference :: ObjectReference where
  "zero_ObjectReference = \<lparr>or_Kind = [], or_Namespace = [], or_Name = [], or_UID = [],
     or_APIVersion = [], or_ResourceVersion = [], or_FieldPath = []\<rparr>"

definition zero_CredentialsRequestSpec :: mCredentialsRequestSpec where
  "zero_CredentialsRequestSpec = \<lparr>msp_SecretRef = zero_ObjectReference, msp_ProviderSpec = Nil_ptr\<rparr>"

definition zero_CredentialsRequestStatus :: mCredentialsRequestStatus where
  "zero_CredentialsRequestStatus = \<lparr>mst_Provisioned = False, mst_LastSyncTimestamp = Nil_ptr,
     mst_LastSyncGeneration = 0, mst_ProviderStatus = Nil_ptr, mst_Conditions = Nil_slice\<rparr>"

definition zero_CredentialsRequest :: mCredentialsRequest where
  "zero_CredentialsRequest = \<lparr>mcr_TypeMeta = empty_TypeMeta, mcr_Meta = zero_ObjectMeta,
     mcr_Spec = zero_CredentialsRequestSpec, mcr_Status = zero_CredentialsRequestStatus\<rparr>"

definition zero_CredentialsRequestList :: mCredentialsRequestList where
  "zero_CredentialsRequestList = \<lparr>mcl_TypeMeta = empty_TypeMeta, mcl_ListMeta = zero_ListMeta,
     mcl_Items = Nil_slice\<rparr>"

definition zero_Secret :: mSecret where
  "zero_Secret = \<lparr>msec_TypeMeta = empty_TypeMeta, msec_Meta = zero_ObjectMeta, msec_Data = Nil_ptr,
     msec_StringData = Nil_ptr, msec_Type = []\<rparr>"

section \<open>What the structs denote\<close>

text \<open>
  Values for the structs whose immutable counterparts elsewhere drop a distinction that a copy
  has to keep: \<open>nil\<close> against empty statement entries, and both fields of a raw extension.
\<close>

record AWSProviderSpecValue =
  vaws_TypeMeta :: TypeMeta
  vaws_StatementEntries :: "StatementEntry list option"

datatype provider_value =
    AwsSpecValue AWSProviderSpecValue
  | AwsStatusValue AWSProviderStatus
  | AzureSpecValue AzureProviderSpec
  | AzureStatusValue AzureProviderStatus

record RawExtensionValue =
  vraw_Raw :: "string option"
  vraw_Object :: "provider_value option"

record CredentialsRequestSpecValue =
  vsp_SecretRef :: ObjectReference
  vsp_ProviderSpec :: "RawExtensionValue option"

record CredentialsRequestStatusValue =
  vst_Provisioned :: bool
  vst_LastSyncTimestamp :: "int option"
  vst_LastSyncGeneration :: int
  vst_ProviderStatus :: "RawExtensionValue option"
  vst_Conditions :: "CredentialsRequestCondition list option"

record CredentialsRequestValue =
  vcr_TypeMeta :: TypeMeta
  vcr_Meta :: ObjectMeta
  vcr_Spec :: CredentialsRequestSpecValue
  vcr_Status :: CredentialsRequestStatusValue

record CredentialsRequestListValue =
  vcl_TypeMeta :: TypeMeta
  vcl_ListMeta :: ListMeta
  vcl_Items :: "CredentialsRequestValue list option"

datatype object_value =
    ProviderValue provider_value
  | RequestValue CredentialsRequestValue
  | RequestListValue CredentialsRequestListValue

record SecretValue =
  vsec_TypeMeta :: TypeMeta
  vsec_Meta :: ObjectMeta
  vsec_Data :: "(string \<times> string option) list option"
  vsec_StringData :: "(string, string) gomap"
  vsec_Type :: string

text \<open>The secret that the actuators' model sees: a map, in which a \<open>nil\<close> value is empty.\<close>

definition data_map :: "(string \<times> string option) list \<Rightarrow> (string, string) fmap" where
  "data_map es = fmap_of_list (map (\<lambda>(k, v). (k, case v of None \<Rightarrow> [] | Some bs \<Rightarrow> bs)) es)"

definition secret_of :: "SecretValue \<Rightarrow> Secret" where
  "secret_of v = \<lparr>sec_TypeMeta = vsec_TypeMeta v, sec_Meta = vsec_Meta v,
     sec_Data = map_option data_map (vsec_Data v), sec_StringData = vsec_StringData v, sec_Type = vsec_Type v\<rparr>"

text \<open>The request that the controllers' model sees: it reads the bytes of the extensions only.\<close>

definition raw_bytes :: "RawExtensionValue \<Rightarrow> RawExtension" where
  "raw_bytes v = (case vraw_Raw v of None \<Rightarrow> [] | Some bs \<Rightarrow> bs)"

definition request_of :: "CredentialsRequestValue \<Rightarrow> CredentialsRequest" where
  "request_of v = \<lparr>cr_TypeMeta = vcr_TypeMeta v, cr_Meta = vcr_Meta v,
     cr_Spec = \<lparr>SecretRef = vsp_SecretRef (vcr_Spec v),
                ProviderSpec = map_option raw_bytes (vsp_ProviderSpec (vcr_Spec v))\<rparr>,
     cr_Status = \<lparr>Provisioned = vst_Provisioned (vcr_Status v),
                  LastSyncTimestamp = vst_LastSyncTimestamp (vcr_Status v),
                  LastSyncGeneration = vst_LastSyncGeneration (vcr_Status v),
                  ProviderStatus = map_option raw_bytes (vst_ProviderStatus (vcr_Status v)),
                  Conditions = vst_Conditions (vcr_Status v)\<rparr>\<rparr>"

section \<open>Readers\<close>

type_synonym 'a api_reader = "(cell, 'a) reader"

definition rd_OwnerReference :: "mOwnerReference \<Rightarrow> OwnerReference api_reader" where
  "rd_OwnerReference v = rd_map (\<lambda>(c, b). \<lparr>own_APIVersion = own_APIVersion v, own_Kind = own_Kind v,
       own_Name = own_Name v, own_UID = own_UID v, own_Controller = c, own_BlockOwnerDeletion = b\<rparr>)
     (rd_pair (rd_ptr as_bool rd_val (own_Controller v)) (rd_ptr as_bool rd_val (own_BlockOwnerDeletion v)))"

definition rd_StatusDetails :: "mStatusDetails \<Rightarrow> StatusDetails api_reader" where
  "rd_StatusDetails v = rd_map (\<lambda>cs. \<lparr>sd_Name = sd_Name v, sd_Group = sd_Group v, sd_Kind = sd_Kind v,
       sd_UID = sd_UID v, sd_Causes = cs, sd_RetryAfterSeconds = sd_RetryAfterSeconds v\<rparr>)
     (rd_slice as_cause rd_val (sd_Causes v))"

definition rd_MetaStatus :: "mMetaStatus \<Rightarrow> MetaStatus api_reader" where
  "rd_MetaStatus v = rd_map (\<lambda>d. \<lparr>ms_TypeMeta = ms_TypeMeta v, ms_ListMeta = ms_ListMeta v,
       ms_Status = ms_Status v, ms_Message = ms_Message v, ms_Reason = ms_Reason v, ms_Details = d,
       ms_Code = ms_Code v\<rparr>)
     (rd_ptr as_details rd_StatusDetails (ms_Details v))"

definition rd_Initializers :: "mInitializers \<Rightarrow> Initializers api_reader" where
  "rd_Initializers v = rd_map (\<lambda>(p, r). \<lparr>ini_Pending = p, ini_Result = r\<rparr>)
     (rd_pair (rd_slice as_initializer rd_val (ini_Pending v))
              (rd_ptr as_meta_status rd_MetaStatus (ini_Result v)))"

definition rd_ObjectMeta :: "mObjectMeta \<Rightarrow> ObjectMeta api_reader" where
  "rd_ObjectMeta v = rd_map (\<lambda>(dt, gp, ls, as, os, is, fs). \<lparr>om_Name = mom_Name v,
       om_GenerateName = mom_GenerateName v, om_Namespace = mom_Namespace v,
       om_SelfLink = mom_SelfLink v, om_UID = mom_UID v, om_ResourceVersion = mom_ResourceVersion v,
       om_Generation = mom_Generation v, om_CreationTimestamp = mom_CreationTimestamp v,
       om_DeletionTimestamp = dt, om_DeletionGracePeriodSeconds = gp, om_Labels = ls,
       om_Annotations = as, om_OwnerReferences = os, om_Initializers = is, om_Finalizers = fs,
       om_ClusterName = mom_ClusterName v\<rparr>)
     (rd_pair (rd_ptr as_time rd_val (mom_DeletionTimestamp v))
     (rd_pair (rd_ptr as_int rd_val (mom_DeletionGracePeriodSeconds v))
     (rd_pair (rd_ptr as_map rd_val (mom_Labels v))
     (rd_pair (rd_ptr as_map rd_val (mom_Annotations v))
     (rd_pair (rd_slice as_owner rd_OwnerReference (mom_OwnerReferences v))
     (rd_pair (rd_ptr as_initializers rd_Initializers (mom_Initializers v))
              (rd_slice as_string rd_val (mom_Finalizers v))))))))"

definition rd_StatementEntry :: "mStatementEntry \<Rightarrow> StatementEntry api_reader" where
  "rd_StatementEntry v = rd_map (\<lambda>acts. \<lparr>se_Effect = mse_Effect v, se_Action = acts,
       se_Resource = mse_Resource v\<rparr>)
     (rd_slice as_string rd_val (mse_Action v))"

definition rd_AWSProviderSpec :: "mAWSProviderSpec \<Rightarrow> AWSProviderSpecValue api_reader" where
  "rd_AWSProviderSpec v = rd_map (\<lambda>es. \<lparr>vaws_TypeMeta = maws_TypeMeta v, vaws_StatementEntries = es\<rparr>)
     (rd_slice as_entry rd_StatementEntry (maws_StatementEntries v))"

definition rd_AzureProviderSpec :: "mAzureProviderSpec \<Rightarrow> AzureProviderSpec api_reader" where
  "rd_AzureProviderSpec v = rd_map (\<lambda>bs. \<lparr>azure_spec_TypeMeta = mazure_TypeMeta v, RoleBindings = bs\<rparr>)
     (rd_slice as_binding rd_val (mazure_RoleBindings v))"

fun rd_provider_object :: "provider_object \<Rightarrow> provider_value api_reader" where
  "rd_provider_object (AwsSpecObject p) = rd_map AwsSpecValue (rd_ref as_aws_spec rd_AWSProviderSpec p)"
| "rd_provider_object (AwsStatusObject p) = rd_map AwsStatusValue (rd_ref as_aws_status rd_val p)"
| "rd_provider_object (AzureSpecObject p) =
     rd_map AzureSpecValue (rd_ref as_azure_spec rd_AzureProviderSpec p)"
| "rd_provider_object (AzureStatusObject p) = rd_map AzureStatusValue (rd_ref as_azure_status rd_val p)"

definition rd_RawExtension :: "mRawExtension \<Rightarrow> RawExtensionValue api_reader" where
  "rd_RawExtension v = rd_map (\<lambda>(bs, ob). \<lparr>vraw_Raw = bs, vraw_Object = ob\<rparr>)
     (rd_pair (rd_slice as_byte rd_val (mraw_Raw v)) (rd_option rd_provider_object (mraw_Object v)))"

definition rd_CredentialsRequestSpec :: "mCredentialsRequestSpec \<Rightarrow> CredentialsRequestSpecValue api_reader" where
  "rd_CredentialsRequestSpec v = rd_map (\<lambda>r. \<lparr>vsp_SecretRef = msp_SecretRef v, vsp_ProviderSpec = r\<rparr>)
     (rd_ptr as_raw rd_RawExtension (msp_ProviderSpec v))"

definition rd_CredentialsRequestStatus ::
    "mCredentialsRequestStatus \<Rightarrow> CredentialsRequestStatusValue api_reader" where
  "rd_CredentialsRequestStatus v = rd_map (\<lambda>(t, r, cs). \<lparr>vst_Provisioned = mst_Provisioned v,
       vst_LastSyncTimestamp = t, vst_LastSyncGeneration = mst_LastSyncGeneration v,
       vst_ProviderStatus = r, vst_Conditions = cs\<rparr>)
     (rd_pair (rd_ptr as_time rd_val (mst_LastSyncTimestamp v))
     (rd_pair (rd_ptr as_raw rd_RawExtension (mst_ProviderStatus v))
              (rd_slice as_condition rd_val (mst_Conditions v))))"

definition rd_CredentialsRequest :: "mCredentialsRequest \<Rightarrow> CredentialsRequestValue api_reader" where
  "rd_CredentialsRequest v = rd_map (\<lambda>(meta, spec, st). \<lparr>vcr_TypeMeta = mcr_TypeMeta v,
       vcr_Meta = meta, vcr_Spec = spec, vcr_Status = st\<rparr>)
     (rd_pair (rd_ObjectMeta (mcr_Meta v))
     (rd_pair (rd_CredentialsRequestSpec (mcr_Spec v)) (rd_CredentialsRequestStatus (mcr_Status v))))"

definition rd_CredentialsRequestList :: "mCredentialsRequestList \<Rightarrow> CredentialsRequestListValue api_reader" where
  "rd_CredentialsRequestList v = rd_map (\<lambda>is. \<lparr>vcl_TypeMeta = mcl_TypeMeta v,
       vcl_ListMeta = mcl_ListMeta v, vcl_Items = is\<rparr>)
     (rd_slice as_request rd_CredentialsRequest (mcl_Items v))"

fun rd_runtime_object :: "runtime_object \<Rightarrow> object_value api_reader" where
  "rd_runtime_object (ProviderObject ob) = rd_map ProviderValue (rd_provider_object ob)"
| "rd_runtime_object (RequestObject p) = rd_map RequestValue (rd_ref as_request rd_CredentialsRequest p)"
| "rd_runtime_object (RequestListObject p) =
     rd_map RequestListValue (rd_ref as_request_list rd_CredentialsRequestList p)"

fun rd_data :: "(string \<times> slice) list \<Rightarrow> (string \<times> string option) list api_reader" where
  "rd_data [] = rd_val []"
| "rd_data ((k, v) # es) = rd_map (\<lambda>(x, xs). (k, x) # xs) (rd_pair (rd_slice as_byte rd_val v) (rd_data es))"

definition rd_Secret :: "mSecret \<Rightarrow> SecretValue api_reader" where
  "rd_Secret v = rd_map (\<lambda>(meta, d, sd). \<lparr>vsec_TypeMeta = msec_TypeMeta v, vsec_Meta = meta,
       vsec_Data = d, vsec_StringData = sd, vsec_Type = msec_Type v\<rparr>)
     (rd_pair (rd_ObjectMeta (msec_Meta v))
     (rd_pair (rd_ptr as_data rd_data (msec_Data v)) (rd_ptr as_map rd_val (msec_StringData v))))"

section \<open>Locality of the readers\<close>

lemma local_OwnerReference [local_intros]: "local_reader (rd_OwnerReference v)"
  by (simp add: rd_OwnerReference_def local_intros)

lemma local_StatusDetails [local_intros]: "local_reader (rd_StatusDetails v)"
  by (simp add: rd_StatusDetails_def local_intros)

lemma local_MetaStatus [local_intros]: "local_reader (rd_MetaStatus v)"
  by (simp add: rd_MetaStatus_def local_intros)

lemma local_Initializers [local_intros]: "local_reader (rd_Initializers v)"
  by (simp add: rd_Initializers_def local_intros)

lemma local_ObjectMeta [local_intros]: "local_reader (rd_ObjectMeta v)"
  by (simp add: rd_ObjectMeta_def local_intros)

lemma local_StatementEntry [local_intros]: "local_reader (rd_StatementEntry v)"
  by (simp add: rd_StatementEntry_def local_intros)

lemma local_AWSProviderSpec [local_intros]: "local_reader (rd_AWSProviderSpec v)"
  by (simp add: rd_AWSProviderSpec_def local_intros)

lemma local_AzureProviderSpec [local_intros]: "local_reader (rd_AzureProviderSpec v)"
  by (simp add: rd_AzureProviderSpec_def local_intros)

lemma local_provider_object [local_intros]: "local_reader (rd_provider_object v)"
  by (cases v) (simp_all add: local_intros)

lemma local_RawExtension [local_intros]: "local_reader (rd_RawExtension v)"
  by (simp add: rd_RawExtension_def local_intros)

lemma local_CredentialsRequestSpec [local_intros]: "local_reader (rd_CredentialsRequestSpec v)"
  by (simp add: rd_CredentialsRequestSpec_def local_intros)

lemma local_CredentialsRequestStatus [local_intros]: "local_reader (rd_CredentialsRequestStatus v)"
  by (simp add: rd_CredentialsRequestStatus_def local_intros)

lemma local_CredentialsRequest [local_intros]: "local_reader (rd_CredentialsRequest v)"
  by (simp add: rd_CredentialsRequest_def local_intros)

lemma local_CredentialsRequestList [local_intros]: "local_reader (rd_CredentialsRequestList v)"
  by (simp add: rd_CredentialsRequestList_def local_intros)

lemma local_runtime_object [local_intros]: "local_reader (rd_runtime_object v)"
  by (cases v) (simp_all add: local_intros)

lemma local_data [local_intros]: "local_reader (rd_data es)"
  by (induction es rule: rd_data.induct) (simp_all add: local_intros)

lemma local_Secret [local_intros]: "local_reader (rd_Secret v)"
  by (simp add: rd_Secret_def local_intros)

end
