(* ===== verification/DeepCopy.thy ===== *)
theory DeepCopy
  imports ApiMemory
begin

text \<open>
  \<open>pkg/apis/cloudcredential/v1/zz_generated.deepcopy.go\<close>, the deep copies of \<open>runtime.RawExtension\<close>
  and \<open>metav1.ObjectMeta\<close> that it calls, and that of \<open>corev1.Secret\<close>. The controller works on
  \<open>cr.DeepCopy()\<close> and later compares it with the object it read, the AWS actuator keeps a copy of
  the secret it updates in place: a copy that shared a slice or a map with its original would
  make these comparisons useless.

  A \<open>DeepCopyInto\<close> gets the struct \<open>*in\<close> and returns the struct it leaves in \<open>*out\<close>: the assignment
  \<open>*out = *in\<close> makes it start from \<open>*in\<close>, then the reference fields are replaced. Times are plain
  values. The loop that fills a new map with the entries of another one, in whatever order,
  builds the same finite map.

  Each type is an interpretation of the locale of deep copiers; pointers to it and slices of it
  follow.
\<close>

section \<open>Metadata and extensions\<close>

definition OwnerReference_DeepCopyInto :: "mOwnerReference \<Rightarrow> (cell, mOwnerReference) hp" where
  "OwnerReference_DeepCopyInto v =
     hbind (copy_ptr CBool as_bool False hret (own_Controller v)) (\<lambda>c.
     hbind (copy_ptr CBool as_bool False hret (own_BlockOwnerDeletion v)) (\<lambda>b.
     hret (v\<lparr>own_Controller := c, own_BlockOwnerDeletion := b\<rparr>)))"

definition StatusDetails_DeepCopyInto :: "mStatusDetails \<Rightarrow> (cell, mStatusDetails) hp" where
  "StatusDetails_DeepCopyInto v =
     hbind (copy_each CCause as_cause zero_StatusCause hret (sd_Causes v)) (\<lambda>cs.
     hret (v\<lparr>sd_Causes := cs\<rparr>))"

definition MetaStatus_DeepCopyInto :: "mMetaStatus \<Rightarrow> (cell, mMetaStatus) hp" where
  "MetaStatus_DeepCopyInto v =
     hbind (copy_ptr CDetails as_details zero_StatusDetails StatusDetails_DeepCopyInto (ms_Details v)) (\<lambda>d.
     hret (v\<lparr>ms_Details := d\<rparr>))"

definition Initializers_DeepCopyInto :: "mInitializers \<Rightarrow> (cell, mInitializers) hp" where
  "Initializers_DeepCopyInto v =
     hbind (copy_each CInitializer as_initializer [] hret (ini_Pending v)) (\<lambda>ps.
     hbind (copy_ptr CMetaStatus as_meta_status zero_MetaStatus MetaStatus_DeepCopyInto (ini_Result v)) (\<lambda>r.
     hret (v\<lparr>ini_Pending := ps, ini_Result := r\<rparr>)))"

definition ObjectMeta_DeepCopyInto :: "mObjectMeta \<Rightarrow> (cell, mObjectMeta) hp" where
  "ObjectMeta_DeepCopyInto v =
     hbind (copy_ptr CTime as_time 0 hret (mom_DeletionTimestamp v)) (\<lambda>dt.
     hbind (copy_ptr CInt as_int 0 hret (mom_DeletionGracePeriodSeconds v)) (\<lambda>gp.
     hbind (copy_ptr CMap as_map fmempty hret (mom_Labels v)) (\<lambda>ls.
     hbind (copy_ptr CMap as_map fmempty hret (mom_Annotations v)) (\<lambda>as.
     hbind (copy_each COwner as_owner zero_OwnerReference OwnerReference_DeepCopyInto
              (mom_OwnerReferences v)) (\<lambda>os.
     hbind (copy_ptr CInitializers as_initializers zero_Initializers Initializers_DeepCopyInto
              (mom_Initializers v)) (\<lambda>is.
     hbind (copy_each CString as_string [] hret (mom_Finalizers v)) (\<lambda>fs.
     hret (v\<lparr>mom_DeletionTimestamp := dt, mom_DeletionGracePeriodSeconds := gp, mom_Labels := ls,
             mom_Annotations := as, mom_OwnerReferences := os, mom_Initializers := is,
             mom_Finalizers := fs\<rparr>))))))))"

section \<open>Provider objects\<close>

definition StatementEntry_DeepCopyInto :: "mStatementEntry \<Rightarrow> (cell, mStatementEntry) hp" where
  "StatementEntry_DeepCopyInto v =
     hbind (copy_each CString as_string [] hret (mse_Action v)) (\<lambda>acts. hret (v\<lparr>mse_Action := acts\<rparr>))"

definition StatementEntry_DeepCopy :: "ptr \<Rightarrow> (cell, ptr) hp" where
  "StatementEntry_DeepCopy = copy_ptr CEntry as_entry zero_StatementEntry StatementEntry_DeepCopyInto"

definition AWSProviderSpec_DeepCopyInto :: "mAWSProviderSpec \<Rightarrow> (cell, mAWSProviderSpec) hp" where
  "AWSProviderSpec_DeepCopyInto v =
     hbind (copy_each CEntry as_entry zero_StatementEntry StatementEntry_DeepCopyInto
              (maws_StatementEntries v)) (\<lambda>es.
     hret (v\<lparr>maws_StatementEntries := es\<rparr>))"

definition AWSProviderSpec_DeepCopy :: "ptr \<Rightarrow> (cell, ptr) hp" where
  "AWSProviderSpec_DeepCopy =
     copy_ptr CAwsSpec as_aws_spec zero_AWSProviderSpec AWSProviderSpec_DeepCopyInto"

definition AWSProviderSpec_DeepCopyObject :: "ptr \<Rightarrow> (cell, provider_object option) hp" where
  "AWSProviderSpec_DeepCopyObject p = hbind (AWSProviderSpec_DeepCopy p) (\<lambda>c.
     hret (if c \<noteq> Nil_ptr then Some (AwsSpecObject c) else None))"

definition AWSProviderStatus_DeepCopyInto :: "AWSProviderStatus \<Rightarrow> (cell, AWSProviderStatus) hp" where
  "AWSProviderStatus_DeepCopyInto v = hret v"

definition AWSProviderStatus_DeepCopy :: "ptr \<Rightarrow> (cell, ptr) hp" where
  "AWSProviderStatus_DeepCopy =
     copy_ptr CAwsStatus as_aws_status empty_AWSProviderStatus AWSProviderStatus_DeepCopyInto"

definition AWSProviderStatus_DeepCopyObject :: "ptr \<Rightarrow> (cell, provider_object option) hp" where
  "AWSProviderStatus_DeepCopyObject p = hbind (AWSProviderStatus_DeepCopy p) (\<lambda>c.
     hret (if c \<noteq> Nil_ptr then Some (AwsStatusObject c) else None))"

definition RoleBinding_DeepCopyInto :: "RoleBinding \<Rightarrow> (cell, RoleBinding) hp" where
  "RoleBinding_DeepCopyInto v = hret v"

definition RoleBinding_DeepCopy :: "ptr \<Rightarrow> (cell, ptr) hp" where
  "RoleBinding_DeepCopy = copy_ptr CBinding as_binding zero_RoleBinding RoleBinding_DeepCopyInto"

definition AzureProviderSpec_DeepCopyInto :: "mAzureProviderSpec \<Rightarrow> (cell, mAzureProviderSpec) hp" where
  "AzureProviderSpec_DeepCopyInto v =
     hbind (copy_each CBinding as_binding zero_RoleBinding hret (mazure_RoleBindings v)) (\<lambda>bs.
     hret (v\<lparr>mazure_RoleBindings := bs\<rparr>))"

definition AzureProviderSpec_DeepCopy :: "ptr \<Rightarrow> (cell, ptr) hp" where
  "AzureProviderSpec_DeepCopy =
     copy_ptr CAzureSpec as_azure_spec zero_AzureProviderSpec AzureProviderSpec_DeepCopyInto"

definition AzureProviderSpec_DeepCopyObject :: "ptr \<Rightarrow> (cell, provider_object option) hp" where
  "AzureProviderSpec_DeepCopyObject p = hbind (AzureProviderSpec_DeepCopy p) (\<lambda>c.
     hret (if c \<noteq> Nil_ptr then Some (AzureSpecObject c) else None))"

definition AzureProviderStatus_DeepCopyInto :: "AzureProviderStatus \<Rightarrow> (cell, AzureProviderStatus) hp" where
  "AzureProviderStatus_DeepCopyInto v = hret v"

definition AzureProviderStatus_DeepCopy :: "ptr \<Rightarrow> (cell, ptr) hp" where
  "AzureProviderStatus_DeepCopy =
     copy_ptr CAzureStatus as_azure_status empty_AzureProviderStatus AzureProviderStatus_DeepCopyInto"

definition AzureProviderStatus_DeepCopyObject :: "ptr \<Rightarrow> (cell, provider_object option) hp" where
  "AzureProviderStatus_DeepCopyObject p = hbind (AzureProviderStatus_DeepCopy p) (\<lambda>c.
     hret (if c \<noteq> Nil_ptr then Some (AzureStatusObject c) else None))"

text \<open>The interface call \<open>in.Object.DeepCopyObject()\<close>.\<close>

fun provider_DeepCopyObject :: "provider_object \<Rightarrow> (cell, provider_object option) hp" where
  "provider_DeepCopyObject (AwsSpecObject p) = AWSProviderSpec_DeepCopyObject p"
| "provider_DeepCopyObject (AwsStatusObject p) = AWSProviderStatus_DeepCopyObject p"
| "provider_DeepCopyObject (AzureSpecObject p) = AzureProviderSpec_DeepCopyObject p"
| "provider_DeepCopyObject (AzureStatusObject p) = AzureProviderStatus_DeepCopyObject p"

definition RawExtension_DeepCopyInto :: "mRawExtension \<Rightarrow> (cell, mRawExtension) hp" where
  "RawExtension_DeepCopyInto v =
     hbind (copy_each CByte as_byte (CHR 0x00) hret (mraw_Raw v)) (\<lambda>bs.
     hbind (case mraw_Object v of None \<Rightarrow> hret None | Some ob \<Rightarrow> provider_DeepCopyObject ob) (\<lambda>ob.
     hret (v\<lparr>mraw_Raw := bs, mraw_Object := ob\<rparr>)))"

section \<open>Credentials requests\<close>

definition CredentialsRequestCondition_DeepCopyInto ::
    "CredentialsRequestCondition \<Rightarrow> (cell, CredentialsRequestCondition) hp" where
  "CredentialsRequestCondition_DeepCopyInto v =
     hret (v\<lparr>cc_LastProbeTime := cc_LastProbeTime v, cc_LastTransitionTime := cc_LastTransitionTime v\<rparr>)"

definition CredentialsRequestCondition_DeepCopy :: "ptr \<Rightarrow> (cell, ptr) hp" where
  "CredentialsRequestCondition_DeepCopy =
     copy_ptr CCondition as_condition zero_CredentialsRequestCondition CredentialsRequestCondition_DeepCopyInto"

definition CredentialsRequestSpec_DeepCopyInto ::
    "mCredentialsRequestSpec \<Rightarrow> (cell, mCredentialsRequestSpec) hp" where
  "CredentialsRequestSpec_DeepCopyInto v =
     hbind (copy_ptr CRaw as_raw zero_RawExtension RawExtension_DeepCopyInto (msp_ProviderSpec v)) (\<lambda>r.
     hret (v\<lparr>msp_ProviderSpec := r\<rparr>))"

definition CredentialsRequestSpec_DeepCopy :: "ptr \<Rightarrow> (cell, ptr) hp" where
  "CredentialsRequestSpec_DeepCopy =
     copy_ptr CSpec as_spec zero_CredentialsRequestSpec CredentialsRequestSpec_DeepCopyInto"

definition CredentialsRequestStatus_DeepCopyInto ::
    "mCredentialsRequestStatus \<Rightarrow> (cell, mCredentialsRequestStatus) hp" where
  "CredentialsRequestStatus_DeepCopyInto v =
     hbind (copy_ptr CTime as_time 0 hret (mst_LastSyncTimestamp v)) (\<lambda>t.
     hbind (copy_ptr CRaw as_raw zero_RawExtension RawExtension_DeepCopyInto (mst_ProviderStatus v)) (\<lambda>r.
     hbind (copy_each CCondition as_condition zero_CredentialsRequestCondition
              CredentialsRequestCondition_DeepCopyInto (mst_Conditions v)) (\<lambda>cs.
     hret (v\<lparr>mst_LastSyncTimestamp := t, mst_ProviderStatus := r, mst_Conditions := cs\<rparr>))))"

definition CredentialsRequestStatus_DeepCopy :: "ptr \<Rightarrow> (cell, ptr) hp" where
  "CredentialsRequestStatus_DeepCopy =
     copy_ptr CStatus as_status zero_CredentialsRequestStatus CredentialsRequestStatus_DeepCopyInto"

definition CredentialsRequest_DeepCopyInto :: "mCredentialsRequest \<Rightarrow> (cell, mCredentialsRequest) hp" where
  "CredentialsRequest_DeepCopyInto v =
     hbind (ObjectMeta_DeepCopyInto (mcr_Meta v)) (\<lambda>meta.
     hbind (CredentialsRequestSpec_DeepCopyInto (mcr_Spec v)) (\<lambda>spec.
     hbind (CredentialsRequestStatus_DeepCopyInto (mcr_Status v)) (\<lambda>st.
     hret (v\<lparr>mcr_Meta := meta, mcr_Spec := spec, mcr_Status := st\<rparr>))))"

definition CredentialsRequest_DeepCopy :: "ptr \<Rightarrow> (cell, ptr) hp" where
  "CredentialsRequest_DeepCopy =
     copy_ptr CRequest as_request zero_CredentialsRequest CredentialsRequest_DeepCopyInto"

definition CredentialsRequest_DeepCopyObject :: "ptr \<Rightarrow> (cell, runtime_object option) hp" where
  "CredentialsRequest_DeepCopyObject p = hbind (CredentialsRequest_DeepCopy p) (\<lambda>c.
     hret (if c \<noteq> Nil_ptr then Some (RequestObject c) else None))"

definition CredentialsRequestList_DeepCopyInto ::
    "mCredentialsRequestList \<Rightarrow> (cell, mCredentialsRequestList) hp" where
  "CredentialsRequestList_DeepCopyInto v =
     hbind (copy_each CRequest as_request zero_CredentialsRequest CredentialsRequest_DeepCopyInto
              (mcl_Items v)) (\<lambda>is.
     hret (v\<lparr>mcl_Items := is\<rparr>))"

definition CredentialsRequestList_DeepCopy :: "ptr \<Rightarrow> (cell, ptr) hp" where
  "CredentialsRequestList_DeepCopy =
     copy_ptr CRequestList as_request_list zero_CredentialsRequestList CredentialsRequestList_DeepCopyInto"

definition CredentialsRequestList_DeepCopyObject :: "ptr \<Rightarrow> (cell, runtime_object option) hp" where
  "CredentialsRequestList_DeepCopyObject p = hbind (CredentialsRequestList_DeepCopy p) (\<lambda>c.
     hret (if c \<noteq> Nil_ptr then Some (RequestListObject c) else None))"

text \<open>The interface call \<open>DeepCopyObject()\<close> on a \<open>runtime.Object\<close> of this package.\<close>

fun runtime_DeepCopyObject :: "runtime_object \<Rightarrow> (cell, runtime_object option) hp" where
  "runtime_DeepCopyObject (ProviderObject ob) =
     hbind (provider_DeepCopyObject ob) (\<lambda>c. hret (map_option ProviderObject c))"
| "runtime_DeepCopyObject (RequestObject p) = CredentialsRequest_DeepCopyObject p"
| "runtime_DeepCopyObject (RequestListObject p) = CredentialsRequestList_DeepCopyObject p"

section \<open>Secrets\<close>

text \<open>The loop over the entries of \<open>Data\<close>, which copies every value.\<close>

fun data_DeepCopyInto :: "(string \<times> slice) list \<Rightarrow> (cell, (string \<times> slice) list) hp" where
  "data_DeepCopyInto [] = hret []"
| "data_DeepCopyInto ((key, val) # es) =
     hbind (copy_each CByte as_byte (CHR 0x00) hret val) (\<lambda>outVal.
     hbind (data_DeepCopyInto es) (\<lambda>out. hret ((key, outVal) # out)))"

definition Secret_DeepCopyInto :: "mSecret \<Rightarrow> (cell, mSecret) hp" where
  "Secret_DeepCopyInto v =
     hbind (ObjectMeta_DeepCopyInto (msec_Meta v)) (\<lambda>meta.
     hbind (copy_ptr CData as_data [] data_DeepCopyInto (msec_Data v)) (\<lambda>d.
     hbind (copy_ptr CMap as_map fmempty hret (msec_StringData v)) (\<lambda>sd.
     hret (v\<lparr>msec_Meta := meta, msec_Data := d, msec_StringData := sd\<rparr>))))"

definition Secret_DeepCopy :: "ptr \<Rightarrow> (cell, ptr) hp" where
  "Secret_DeepCopy = copy_ptr CSecret as_secret zero_Secret Secret_DeepCopyInto"

section \<open>Every type is deep-copied\<close>

lemma plain_copier: "(\<And>v. prj (mk v) = Some v) \<Longrightarrow> cell_copier rd_val hret mk prj"
  by unfold_locales (simp_all add: local_intros copies_val)

interpretation str: cell_copier rd_val hret CString as_string "[]"
  by (rule plain_copier) (simp add: as_defs)

interpretation byte: cell_copier rd_val hret CByte as_byte "CHR 0x00"
  by (rule plain_copier) (simp add: as_defs)

interpretation flag: cell_copier rd_val hret CBool as_bool False
  by (rule plain_copier) (simp add: as_defs)

interpretation num: cell_copier rd_val hret CInt as_int 0
  by (rule plain_copier) (simp add: as_defs)

interpretation time: cell_copier rd_val hret CTime as_time 0
  by (rule plain_copier) (simp add: as_defs)

interpretation gmap: cell_copier rd_val hret CMap as_map fmempty
  by (rule plain_copier) (simp add: as_defs)

interpretation cause: cell_copier rd_val hret CCause as_cause zero_StatusCause
  by (rule plain_copier) (simp add: as_defs)

interpretation initializer: cell_copier rd_val hret CInitializer as_initializer "[]"
  by (rule plain_copier) (simp add: as_defs)

interpretation binding: cell_copier rd_val hret CBinding as_binding zero_RoleBinding
  by (rule plain_copier) (simp add: as_defs)

text \<open>Structs that hold no references, copied by assignment.\<close>

interpretation aws_status: cell_copier rd_val AWSProviderStatus_DeepCopyInto CAwsStatus as_aws_status empty_AWSProviderStatus
  by unfold_locales (simp_all add: AWSProviderStatus_DeepCopyInto_def local_intros copies_val as_defs)

interpretation azure_status: cell_copier rd_val AzureProviderStatus_DeepCopyInto CAzureStatus as_azure_status empty_AzureProviderStatus
  by unfold_locales (simp_all add: AzureProviderStatus_DeepCopyInto_def local_intros copies_val as_defs)

interpretation role_binding: cell_copier rd_val RoleBinding_DeepCopyInto CBinding as_binding zero_RoleBinding
  by unfold_locales (simp_all add: RoleBinding_DeepCopyInto_def local_intros copies_val as_defs)

interpretation cond: cell_copier rd_val CredentialsRequestCondition_DeepCopyInto CCondition as_condition zero_CredentialsRequestCondition
  by unfold_locales (simp_all add: CredentialsRequestCondition_DeepCopyInto_def local_intros copies_val as_defs)

text \<open>Structs with reference fields, from the inside out.\<close>

lemma OwnerReference_copies: "copies (rd_OwnerReference v) (OwnerReference_DeepCopyInto v) rd_OwnerReference"
  unfolding rd_OwnerReference_def [of v] OwnerReference_DeepCopyInto_def hbind_hpair
  by (rule copies_map, (rule copies_pair flag.ptr.copy_copies local_intros)+) (simp add: rd_OwnerReference_def)

interpretation owner: cell_copier rd_OwnerReference OwnerReference_DeepCopyInto COwner as_owner zero_OwnerReference
  by unfold_locales (simp_all add: OwnerReference_copies local_intros as_defs)

lemma StatusDetails_copies: "copies (rd_StatusDetails v) (StatusDetails_DeepCopyInto v) rd_StatusDetails"
  unfolding rd_StatusDetails_def [of v] StatusDetails_DeepCopyInto_def hbind_hpair
  by (rule copies_map, (rule copies_pair cause.slice.copy_copies local_intros)+) (simp add: rd_StatusDetails_def)

interpretation details: cell_copier rd_StatusDetails StatusDetails_DeepCopyInto CDetails as_details zero_StatusDetails
  by unfold_locales (simp_all add: StatusDetails_copies local_intros as_defs)

lemma MetaStatus_copies: "copies (rd_MetaStatus v) (MetaStatus_DeepCopyInto v) rd_MetaStatus"
  unfolding rd_MetaStatus_def [of v] MetaStatus_DeepCopyInto_def hbind_hpair
  by (rule copies_map, (rule copies_pair details.ptr.copy_copies local_intros)+) (simp add: rd_MetaStatus_def)

interpretation meta_status: cell_copier rd_MetaStatus MetaStatus_DeepCopyInto CMetaStatus as_meta_status zero_MetaStatus
  by unfold_locales (simp_all add: MetaStatus_copies local_intros as_defs)

lemma Initializers_copies: "copies (rd_Initializers v) (Initializers_DeepCopyInto v) rd_Initializers"
  unfolding rd_Initializers_def [of v] Initializers_DeepCopyInto_def hbind_hpair
  by (rule copies_map, (rule copies_pair initializer.slice.copy_copies meta_status.ptr.copy_copies local_intros)+) (simp add: rd_Initializers_def)

interpretation initializers: cell_copier rd_Initializers Initializers_DeepCopyInto CInitializers as_initializers zero_Initializers
  by unfold_locales (simp_all add: Initializers_copies local_intros as_defs)

lemma ObjectMeta_copies: "copies (rd_ObjectMeta v) (ObjectMeta_DeepCopyInto v) rd_ObjectMeta"
  unfolding rd_ObjectMeta_def [of v] ObjectMeta_DeepCopyInto_def hbind_hpair
  by (rule copies_map, (rule copies_pair time.ptr.copy_copies num.ptr.copy_copies gmap.ptr.copy_copies
        owner.slice.copy_copies initializers.ptr.copy_copies str.slice.copy_copies local_intros)+)
    (simp add: rd_ObjectMeta_def)

lemma StatementEntry_copies: "copies (rd_StatementEntry v) (StatementEntry_DeepCopyInto v) rd_StatementEntry"
  unfolding rd_StatementEntry_def [of v] StatementEntry_DeepCopyInto_def hbind_hpair
  by (rule copies_map, (rule copies_pair str.slice.copy_copies local_intros)+) (simp add: rd_StatementEntry_def)

interpretation entry: cell_copier rd_StatementEntry StatementEntry_DeepCopyInto CEntry as_entry zero_StatementEntry
  by unfold_locales (simp_all add: StatementEntry_copies local_intros as_defs)

lemma AWSProviderSpec_copies: "copies (rd_AWSProviderSpec v) (AWSProviderSpec_DeepCopyInto v) rd_AWSProviderSpec"
  unfolding rd_AWSProviderSpec_def [of v] AWSProviderSpec_DeepCopyInto_def hbind_hpair
  by (rule copies_map, (rule copies_pair entry.slice.copy_copies local_intros)+) (simp add: rd_AWSProviderSpec_def)

interpretation aws_spec: cell_copier rd_AWSProviderSpec AWSProviderSpec_DeepCopyInto CAwsSpec as_aws_spec zero_AWSProviderSpec
  by unfold_locales (simp_all add: AWSProviderSpec_copies local_intros as_defs)

lemma AzureProviderSpec_copies: "copies (rd_AzureProviderSpec v) (AzureProviderSpec_DeepCopyInto v) rd_AzureProviderSpec"
  unfolding rd_AzureProviderSpec_def [of v] AzureProviderSpec_DeepCopyInto_def hbind_hpair
  by (rule copies_map, (rule copies_pair binding.slice.copy_copies local_intros)+) (simp add: rd_AzureProviderSpec_def)

interpretation azure_spec: cell_copier rd_AzureProviderSpec AzureProviderSpec_DeepCopyInto CAzureSpec as_azure_spec zero_AzureProviderSpec
  by unfold_locales (simp_all add: AzureProviderSpec_copies local_intros as_defs)

text \<open>The provider objects behind an interface.\<close>

lemmas DeepCopyObject_defs =
  AWSProviderSpec_DeepCopyObject_def AWSProviderSpec_DeepCopy_def
  AWSProviderStatus_DeepCopyObject_def AWSProviderStatus_DeepCopy_def
  AzureProviderSpec_DeepCopyObject_def AzureProviderSpec_DeepCopy_def
  AzureProviderStatus_DeepCopyObject_def AzureProviderStatus_DeepCopy_def
  CredentialsRequest_DeepCopyObject_def CredentialsRequest_DeepCopy_def
  CredentialsRequestList_DeepCopyObject_def CredentialsRequestList_DeepCopy_def

lemma provider_copies:
  "copies (rd_map Some (rd_provider_object ob)) (provider_DeepCopyObject ob) (rd_option rd_provider_object)"
proof (cases ob)
  case (AwsSpecObject p)
  then show ?thesis
    by (simp only: provider_DeepCopyObject.simps DeepCopyObject_defs) (rule aws_spec.copy_object_copies, simp)
next
  case (AwsStatusObject p)
  then show ?thesis
    by (simp only: provider_DeepCopyObject.simps DeepCopyObject_defs) (rule aws_status.copy_object_copies, simp)
next
  case (AzureSpecObject p)
  then show ?thesis
    by (simp only: provider_DeepCopyObject.simps DeepCopyObject_defs) (rule azure_spec.copy_object_copies, simp)
next
  case (AzureStatusObject p)
  then show ?thesis
    by (simp only: provider_DeepCopyObject.simps DeepCopyObject_defs) (rule azure_status.copy_object_copies, simp)
qed

lemma provider_option_copies:
  "copies (rd_option rd_provider_object v)
     (case v of None \<Rightarrow> hret None | Some ob \<Rightarrow> provider_DeepCopyObject ob) (rd_option rd_provider_object)"
  by (cases v) (simp_all add: copies_None provider_copies rd_option_def [of _ "Some _"])

lemma RawExtension_copies: "copies (rd_RawExtension v) (RawExtension_DeepCopyInto v) rd_RawExtension"
  unfolding rd_RawExtension_def [of v] RawExtension_DeepCopyInto_def hbind_hpair
  by (rule copies_map, (rule copies_pair byte.slice.copy_copies provider_option_copies local_intros)+) (simp add: rd_RawExtension_def)

interpretation raw: cell_copier rd_RawExtension RawExtension_DeepCopyInto CRaw as_raw zero_RawExtension
  by unfold_locales (simp_all add: RawExtension_copies local_intros as_defs)

lemma CredentialsRequestSpec_copies: "copies (rd_CredentialsRequestSpec v) (CredentialsRequestSpec_DeepCopyInto v) rd_CredentialsRequestSpec"
  unfolding rd_CredentialsRequestSpec_def [of v] CredentialsRequestSpec_DeepCopyInto_def hbind_hpair
  by (rule copies_map, (rule copies_pair raw.ptr.copy_copies local_intros)+) (simp add: rd_CredentialsRequestSpec_def)

interpretation spec: cell_copier rd_CredentialsRequestSpec CredentialsRequestSpec_DeepCopyInto CSpec as_spec zero_CredentialsRequestSpec
  by unfold_locales (simp_all add: CredentialsRequestSpec_copies local_intros as_defs)

lemma CredentialsRequestStatus_copies: "copies (rd_CredentialsRequestStatus v) (CredentialsRequestStatus_DeepCopyInto v) rd_CredentialsRequestStatus"
  unfolding rd_CredentialsRequestStatus_def [of v] CredentialsRequestStatus_DeepCopyInto_def hbind_hpair
  by (rule copies_map, (rule copies_pair time.ptr.copy_copies raw.ptr.copy_copies cond.slice.copy_copies local_intros)+) (simp add: rd_CredentialsRequestStatus_def)

interpretation status: cell_copier rd_CredentialsRequestStatus CredentialsRequestStatus_DeepCopyInto CStatus as_status zero_CredentialsRequestStatus
  by unfold_locales (simp_all add: CredentialsRequestStatus_copies local_intros as_defs)

lemma CredentialsRequest_copies: "copies (rd_CredentialsRequest v) (CredentialsRequest_DeepCopyInto v) rd_CredentialsRequest"
  unfolding rd_CredentialsRequest_def [of v] CredentialsRequest_DeepCopyInto_def hbind_hpair
  by (rule copies_map, (rule copies_pair ObjectMeta_copies CredentialsRequestSpec_copies CredentialsRequestStatus_copies local_intros)+) (simp add: rd_CredentialsRequest_def)

interpretation request: cell_copier rd_CredentialsRequest CredentialsRequest_DeepCopyInto CRequest as_request zero_CredentialsRequest
  by unfold_locales (simp_all add: CredentialsRequest_copies local_intros as_defs)

lemma CredentialsRequestList_copies: "copies (rd_CredentialsRequestList v) (CredentialsRequestList_DeepCopyInto v) rd_CredentialsRequestList"
  unfolding rd_CredentialsRequestList_def [of v] CredentialsRequestList_DeepCopyInto_def hbind_hpair
  by (rule copies_map, (rule copies_pair request.slice.copy_copies local_intros)+) (simp add: rd_CredentialsRequestList_def)

interpretation request_list: cell_copier rd_CredentialsRequestList CredentialsRequestList_DeepCopyInto CRequestList as_request_list zero_CredentialsRequestList
  by unfold_locales (simp_all add: CredentialsRequestList_copies local_intros as_defs)

lemma data_copies: "copies (rd_data es) (data_DeepCopyInto es) rd_data"
proof (induction es rule: data_DeepCopyInto.induct)
  case 1
  have "copies (rd_data []) (hret []) rd_data"
    by (rule copiesI) (auto simp: rd_val_def hret_def grows_refl)
  then show ?case by simp
next
  case (2 key val es)
  then show ?case
    unfolding data_DeepCopyInto.simps rd_data.simps hbind_hpair
    by (intro copies_map [OF copies_pair [OF byte.slice.copy_copies]] local_intros) simp_all
qed

interpretation data: cell_copier rd_data data_DeepCopyInto CData as_data "[]"
  by unfold_locales (simp_all add: data_copies local_intros as_defs)

lemma Secret_copies: "copies (rd_Secret v) (Secret_DeepCopyInto v) rd_Secret"
  unfolding rd_Secret_def [of v] Secret_DeepCopyInto_def hbind_hpair
  by (rule copies_map, (rule copies_pair ObjectMeta_copies data.ptr.copy_copies gmap.ptr.copy_copies
        local_intros)+) (simp add: rd_Secret_def)

interpretation secret: cell_copier rd_Secret Secret_DeepCopyInto CSecret as_secret zero_Secret
  by unfold_locales (simp_all add: Secret_copies local_intros as_defs)

section \<open>Independence\<close>

text \<open>All objects of the package, through the interface \<open>runtime.Object\<close>.\<close>

lemma runtime_copies:
  "copies (rd_map Some (rd_runtime_object ob)) (runtime_DeepCopyObject ob) (rd_option rd_runtime_object)"
proof (cases ob)
  case (ProviderObject po)
  have "rd_option rd_runtime_object (map_option ProviderObject w) =
      rd_map (map_option ProviderValue) (rd_option rd_provider_object w)" for w
    by (cases w) (auto simp: rd_option_def rd_map_def rd_val_def fun_eq_iff split: option.splits)
  moreover have "rd_map Some (rd_runtime_object ob) =
      rd_map (map_option ProviderValue) (rd_map Some (rd_provider_object po))"
    by (auto simp: ProviderObject rd_map_def fun_eq_iff split: option.splits)
  ultimately show ?thesis using provider_copies
    by (simp only: ProviderObject runtime_DeepCopyObject.simps) (rule copies_map)
next
  case (RequestObject p)
  then show ?thesis
    by (simp only: runtime_DeepCopyObject.simps DeepCopyObject_defs) (rule request.copy_object_copies, simp)
next
  case (RequestListObject p)
  then show ?thesis
    by (simp only: runtime_DeepCopyObject.simps DeepCopyObject_defs) (rule request_list.copy_object_copies, simp)
qed

text \<open>
  C11. \<open>DeepCopyObject\<close> of every object type of the package really is a deep copy. On an object that
  denotes the value \<open>x\<close> (so the interface does not hold a \<open>nil\<close> pointer) it returns an object that
  denotes the same value, changes no existing block, and the new object is a tree of new blocks,
  none of them shared with the original or visited twice. So whatever is later written into
  blocks of the copy, the original still denotes \<open>x\<close>, and the other way round.
\<close>

theorem deep_copy_object_independent:
  assumes "wf_mem m" and "rd_runtime_object ob m = Some (x, F)"
  shows "\<exists>ob' m' F'. runtime_DeepCopyObject ob m = Some (Some ob', m') \<and> grows m m' \<and>
     rd_runtime_object ob' m' = Some (x, F') \<and> fresh_tree m m' F' \<and>
     (\<forall>m2. (\<forall>a. a \<notin> set F' \<longrightarrow> blocks m2 a = blocks m' a) \<longrightarrow> rd_runtime_object ob m2 = Some (x, F)) \<and>
     (\<forall>m2. (\<forall>a. a \<notin> set F \<longrightarrow> blocks m2 a = blocks m' a) \<longrightarrow> rd_runtime_object ob' m2 = Some (x, F'))"
proof -
  have "rd_map Some (rd_runtime_object ob) m = Some (Some x, F)" using assms(2) by (simp add: rd_map_Some)
  from copies_independent [OF runtime_copies _ _ assms(1) this]
  obtain w m' F' where w: "runtime_DeepCopyObject ob m = Some (w, m')" "grows m m'"
      "rd_option rd_runtime_object w m' = Some (Some x, F')" "fresh_tree m m' F'"
      "\<And>m2. (\<forall>a. a \<notin> set F' \<longrightarrow> blocks m2 a = blocks m' a) \<Longrightarrow>
         rd_map Some (rd_runtime_object ob) m2 = Some (Some x, F)"
      "\<And>m2. (\<forall>a. a \<notin> set F \<longrightarrow> blocks m2 a = blocks m' a) \<Longrightarrow>
         rd_option rd_runtime_object w m2 = Some (Some x, F')"
    by (auto simp: local_intros)
  then obtain ob' where "w = Some ob'" by (cases w) (auto simp: rd_option_def rd_val_def)
  with w show ?thesis by (auto simp: rd_option_def rd_map_Some)
qed

definition example_spec_mem :: "cell mem" where
  "example_spec_mem = \<lparr>blocks = (\<lambda>_. None)(
       0 := Some [CString ''iam:GetUser'', CString ''iam:TagUser''],
       1 := Some [CEntry \<lparr>mse_Effect = ''Allow'', mse_Action = Slice 0 0 2 2, mse_Resource = ''*''\<rparr>],
       2 := Some [CAwsSpec \<lparr>maws_TypeMeta = empty_TypeMeta, maws_StatementEntries = Slice 1 0 1 1\<rparr>]),
     next_block = 3\<rparr>"

lemma example_spec_reads:
  "rd_runtime_object (ProviderObject (AwsSpecObject (Ptr 2 0))) example_spec_mem =
     Some (ProviderValue (AwsSpecValue \<lparr>vaws_TypeMeta = empty_TypeMeta,
       vaws_StatementEntries = Some [\<lparr>se_Effect = ''Allow'',
         se_Action = Some [''iam:GetUser'', ''iam:TagUser''], se_Resource = ''*''\<rparr>]\<rparr>), [2, 1, 0])"
  by (simp add: example_spec_mem_def rd_map_def rd_ref_def rd_ptr_def load_def peek_def as_defs
      rd_AWSProviderSpec_def rd_slice_def rd_StatementEntry_def rd_val_def numeral_2_eq_2)

theorem deep_copy_object_independent_witness:
  "\<exists>ob' m' F'. runtime_DeepCopyObject (ProviderObject (AwsSpecObject (Ptr 2 0))) example_spec_mem =
       Some (Some ob', m') \<and> fresh_tree example_spec_mem m' F' \<and>
     rd_runtime_object ob' m' = Some (ProviderValue (AwsSpecValue \<lparr>vaws_TypeMeta = empty_TypeMeta,
       vaws_StatementEntries = Some [\<lparr>se_Effect = ''Allow'',
         se_Action = Some [''iam:GetUser'', ''iam:TagUser''], se_Resource = ''*''\<rparr>]\<rparr>), F')"
proof -
  have "wf_mem example_spec_mem" by (simp add: wf_mem_def example_spec_mem_def)
  from deep_copy_object_independent [OF this example_spec_reads] show ?thesis by blast
qed

end
