(* ===== verification/ConditionMemory.thy ===== *)
theory ConditionMemory
  imports DeepCopy CredentialsRequestController
begin

text \<open>
  \<open>FindCredentialsRequestCondition\<close> and \<open>SetCredentialsRequestCondition\<close> with the pointers they use:
  the first returns a pointer into the slice, the second writes through it, or appends, which
  reuses the slice's block when it has room. The theory \<open>Conditions\<close> has the same functions on
  immutable lists.

  The lemmas show that the functions on memory refine those on lists, and which blocks they
  write. On a request that is a deep copy this is what the reconciler relies on: the copy gets
  the new conditions, the object it was copied from keeps its own, and the comparison of the two
  statuses sees exactly the change.
\<close>

section \<open>The functions\<close>

fun find_condition_from :: "slice \<Rightarrow> CredentialsRequestConditionType \<Rightarrow> nat \<Rightarrow> nat \<Rightarrow> (cell, ptr) hp" where
  "find_condition_from conditions conditionType i 0 = hret Nil_ptr"
| "find_condition_from conditions conditionType i (Suc k) =
     hbind (load as_condition (elem_ptr conditions i)) (\<lambda>condition.
     if cc_Type condition = conditionType then hret (elem_ptr conditions i)
     else find_condition_from conditions conditionType (Suc i) k)"

definition find_condition_ptr :: "slice \<Rightarrow> CredentialsRequestConditionType \<Rightarrow> (cell, ptr) hp" where
  "find_condition_ptr conditions conditionType =
     find_condition_from conditions conditionType 0 (slice_len conditions)"

definition set_condition_ptr ::
    "nat \<Rightarrow> int \<Rightarrow> slice \<Rightarrow> CredentialsRequestConditionType \<Rightarrow> ConditionStatus \<Rightarrow> string \<Rightarrow> string \<Rightarrow>
     UpdateConditionCheck \<Rightarrow> (cell, slice) hp" where
  "set_condition_ptr spare now conditions conditionType status reason message updateConditionCheck =
     hbind (find_condition_ptr conditions conditionType) (\<lambda>existing.
     if existing = Nil_ptr then
       (if status = ConditionTrue
        then append_slice spare CCondition zero_CredentialsRequestCondition conditions
               \<lparr>cc_Type = conditionType, cc_Status = status, cc_LastProbeTime = now,
                cc_LastTransitionTime = now, cc_Reason = reason, cc_Message = message\<rparr>
        else hret conditions)
     else
       hbind (load as_condition existing) (\<lambda>c.
       if shouldUpdateCondition (cc_Status c) (cc_Reason c) (cc_Message c)
            status reason message updateConditionCheck
       then hbind (store CCondition existing (c\<lparr>
              cc_LastTransitionTime := (if cc_Status c \<noteq> status then now else cc_LastTransitionTime c),
              cc_Status := status, cc_Reason := reason, cc_Message := message,
              cc_LastProbeTime := now\<rparr>)) (\<lambda>_. hret conditions)
       else hret conditions))"

text \<open>The statement \<open>cr.Status.Conditions = utils.SetCredentialsRequestCondition(cr.Status.Conditions, ...)\<close>.\<close>

definition set_request_condition ::
    "nat \<Rightarrow> int \<Rightarrow> ptr \<Rightarrow> CredentialsRequestConditionType \<Rightarrow> ConditionStatus \<Rightarrow> string \<Rightarrow> string \<Rightarrow>
     UpdateConditionCheck \<Rightarrow> (cell, unit) hp" where
  "set_request_condition spare now p conditionType status reason message updateConditionCheck =
     hbind (load as_request p) (\<lambda>cr.
     hbind (set_condition_ptr spare now (mst_Conditions (mcr_Status cr)) conditionType status reason
              message updateConditionCheck) (\<lambda>conditions.
     hbind (load as_request p) (\<lambda>cr.
     store CRequest p (cr\<lparr>mcr_Status := (mcr_Status cr)\<lparr>mst_Conditions := conditions\<rparr>\<rparr>))))"

section \<open>Reading slices of conditions\<close>

abbreviation rd_conditions :: "slice \<Rightarrow> CredentialsRequestCondition list option api_reader" where
  "rd_conditions \<equiv> rd_slice as_condition rd_val"

lemma rd_conditions_Slice:
  "rd_conditions (Slice a off n cap) m = Some (y, F) \<longleftrightarrow>
     (\<exists>vs. slice_elems as_condition (Slice a off n cap) m = Some vs \<and> y = Some vs \<and> F = [a])"
  by (auto simp: rd_slice_Some rd_list_val simp del: slice_elems.simps)

text \<open>The position of the first condition of a type.\<close>

abbreviation cond_pos :: "CredentialsRequestConditionType \<Rightarrow> CredentialsRequestCondition list \<Rightarrow> nat" where
  "cond_pos ty cs \<equiv> length (takeWhile (\<lambda>c. cc_Type c \<noteq> ty) cs)"

lemma cond_pos_less: "cond_pos ty cs < length cs \<longleftrightarrow> ty \<in> cc_Type ` set cs"
  by (induction cs) auto

lemma Find_at_pos:
  "FindCredentialsRequestCondition cs ty =
     (if cond_pos ty cs < length cs then Some (cs ! cond_pos ty cs) else None)"
  by (induction cs) auto

lemma update_at_pos:
  "update_condition ty f cs =
     (if cond_pos ty cs < length cs then cs[cond_pos ty cs := f (cs ! cond_pos ty cs)] else cs)"
  by (induction cs) auto

lemma find_condition_from_result:
  assumes "slice_elems as_condition (Slice a off n cap) m = Some vs" "i + k = n"
  shows "find_condition_from (Slice a off n cap) ty i k m =
     Some (if cond_pos ty (drop i vs) < k then Ptr a (off + i + cond_pos ty (drop i vs)) else Nil_ptr, m)"
  using assms(2)
proof (induction k arbitrary: i)
  case 0
  then show ?case by (simp add: hret_def)
next
  case (Suc k)
  have len: "length vs = n" using slice_elems_length [OF assms(1)] by simp
  then have "drop i vs = vs ! i # drop (Suc i) vs" using Suc.prems by (intro Cons_nth_drop_Suc [symmetric]) simp
  moreover have "load as_condition (Ptr a (off + i)) m = Some (vs ! i, m)"
    using assms(1) Suc.prems by (intro load_elem) auto
  ultimately show ?case
    using Suc.IH [of "Suc i"] Suc.prems by (auto simp: hbind_def hret_def)
qed

lemma find_condition_result:
  assumes "slice_elems as_condition (Slice a off n cap) m = Some vs"
  shows "find_condition_ptr (Slice a off n cap) ty m =
     Some (if cond_pos ty vs < length vs then Ptr a (off + cond_pos ty vs) else Nil_ptr, m)"
  using find_condition_from_result [OF assms, of 0 n ty] slice_elems_length [OF assms]
  by (simp add: find_condition_ptr_def)

section \<open>Refinement\<close>

lemma rd_conditions_iff:
  "rd_conditions s m = Some (y, F) \<longleftrightarrow> F = slice_block s \<and>
     (case s of Nil_slice \<Rightarrow> y = None
      | _ \<Rightarrow> (\<exists>vs. slice_elems as_condition s m = Some vs \<and> y = Some vs))"
  by (cases s) (auto simp: rd_conditions_Slice slice_block_def rd_slice_def [of _ _ Nil_slice]
      simp del: slice_elems.simps)

lemma rd_conditions_elems:
  "rd_conditions s m = Some (y, F) \<Longrightarrow> slice_elems as_condition s m = Some (conds y)"
  by (cases s) (auto simp: rd_conditions_iff simp del: slice_elems.simps(2))

lemma as_condition_CCondition [simp]: "as_condition (CCondition c) = Some c"
  by (simp add: as_condition_def)

lemma set_condition_appends:
  assumes "wf_mem m" "rd_conditions s m = Some (cs, F)" "ty \<notin> cc_Type ` set (conds cs)"
  shows "\<exists>s' m' F'. set_condition_ptr spare now s ty status reason message check m = Some (s', m') \<and>
     grows_except (set F) m m' \<and>
     rd_conditions s' m' = Some (SetCredentialsRequestCondition now cs ty status reason message check, F') \<and>
     distinct F' \<and> set F' \<subseteq> set F \<union> {next_block m ..< next_block m'}"
proof -
  let ?c = "\<lparr>cc_Type = ty, cc_Status = status, cc_LastProbeTime = now, cc_LastTransitionTime = now,
    cc_Reason = reason, cc_Message = message\<rparr>"
  have F: "F = slice_block s" and el: "slice_elems as_condition s m = Some (conds cs)"
    using assms(2) rd_conditions_elems by (auto simp: rd_conditions_iff)
  have find: "find_condition_ptr s ty m = Some (Nil_ptr, m)"
    using assms(3) el by (cases s)
      (auto simp: find_condition_ptr_def hret_def find_condition_result cond_pos_less simp del: slice_elems.simps(2)
        dest: find_condition_result [where ty = ty])
  have none: "FindCredentialsRequestCondition (conds cs) ty = None"
    using assms(3) by (simp only: Find_None_iff not_False_eq_True)
  show ?thesis
  proof (cases "status = ConditionTrue")
    case True
    from append_slice_result [OF assms(1) el, of CCondition spare zero_CredentialsRequestCondition ?c]
    show ?thesis using True find none
      by (fastforce simp: set_condition_ptr_def hbind_def SetCredentialsRequestCondition_def F
          rd_conditions_Slice simp del: slice_elems.simps)
  next
    case False
    then show ?thesis
      using find none assms(1,2) by (auto simp: set_condition_ptr_def hbind_def hret_def
          SetCredentialsRequestCondition_def grows_refl F slice_block_def split: slice.splits)
  qed
qed

lemma set_condition_updates:
  assumes "wf_mem m" "rd_conditions s m = Some (cs, F)" "ty \<in> cc_Type ` set (conds cs)"
  shows "\<exists>s' m' F'. set_condition_ptr spare now s ty status reason message check m = Some (s', m') \<and>
     grows_except (set F) m m' \<and>
     rd_conditions s' m' = Some (SetCredentialsRequestCondition now cs ty status reason message check, F') \<and>
     distinct F' \<and> set F' \<subseteq> set F \<union> {next_block m ..< next_block m'}"
proof -
  have "s \<noteq> Nil_slice" using assms(2,3) by (auto simp: rd_conditions_iff)
  then obtain a off n cap vs where s: "s = Slice a off n cap"
      "slice_elems as_condition (Slice a off n cap) m = Some vs" "cs = Some vs" "F = [a]"
    using assms(2) by (cases s) (auto simp: rd_conditions_Slice simp del: slice_elems.simps)
  let ?i = "cond_pos ty vs" and ?c = "vs ! cond_pos ty vs"
  have i: "?i < n" "n = length vs"
    using assms(3) s(3) slice_elems_length [OF s(2)] cond_pos_less [of ty vs] by auto
  have find: "find_condition_ptr s ty m = Some (Ptr a (off + ?i), m)"
    using find_condition_result [OF s(2), of ty] i by (simp add: s(1))
  have load: "load as_condition (Ptr a (off + ?i)) m = Some (?c, m)"
    using s(2) i(1) by (rule load_elem) simp
  have found: "FindCredentialsRequestCondition vs ty = Some ?c" using i by (simp add: Find_at_pos)
  show ?thesis
  proof (cases "shouldUpdateCondition (cc_Status ?c) (cc_Reason ?c) (cc_Message ?c) status reason message check")
    case False
    with find load found s assms(1) show ?thesis
      by (auto simp: set_condition_ptr_def hbind_def hret_def SetCredentialsRequestCondition_def
          rd_conditions_Slice grows_refl simp del: slice_elems.simps)
  next
    case True
    let ?f = "\<lambda>c. c\<lparr>cc_LastTransitionTime := (if cc_Status c \<noteq> status then now else cc_LastTransitionTime c),
        cc_Status := status, cc_Reason := reason, cc_Message := message, cc_LastProbeTime := now\<rparr>"
    from store_elem [OF s(2) i(1), of CCondition "?f ?c"] assms(1)
    obtain m' where "store CCondition (Ptr a (off + ?i)) (?f ?c) m = Some ((), m')" "grows_except {a} m m'"
        "slice_elems as_condition (Slice a off n cap) m' = Some (vs[?i := ?f ?c])"
      by (auto simp del: slice_elems.simps)
    with True find load found s i show ?thesis
      by (auto simp: set_condition_ptr_def hbind_def hret_def SetCredentialsRequestCondition_def
          rd_conditions_Slice update_at_pos simp del: slice_elems.simps)
  qed
qed

lemma set_condition_ptr_refines:
  assumes "wf_mem m" "rd_conditions s m = Some (cs, F)"
  shows "\<exists>s' m' F'. set_condition_ptr spare now s ty status reason message check m = Some (s', m') \<and>
     grows_except (set F) m m' \<and>
     rd_conditions s' m' = Some (SetCredentialsRequestCondition now cs ty status reason message check, F') \<and>
     distinct F' \<and> set F' \<subseteq> set F \<union> {next_block m ..< next_block m'}"
  using set_condition_appends [OF assms] set_condition_updates [OF assms] by blast

section \<open>Conditions of a request\<close>

abbreviation rd_request :: "ptr \<Rightarrow> CredentialsRequestValue option api_reader" where
  "rd_request \<equiv> rd_ptr as_request rd_CredentialsRequest"

text \<open>The parts of a request other than its conditions, and the request made of both.\<close>

definition rd_rest :: "mCredentialsRequest \<Rightarrow>
    ((ObjectMeta \<times> CredentialsRequestSpecValue) \<times> int option \<times> RawExtensionValue option) api_reader" where
  "rd_rest v = rd_pair (rd_pair (rd_ObjectMeta (mcr_Meta v)) (rd_CredentialsRequestSpec (mcr_Spec v)))
     (rd_pair (rd_ptr as_time rd_val (mst_LastSyncTimestamp (mcr_Status v)))
              (rd_ptr as_raw rd_RawExtension (mst_ProviderStatus (mcr_Status v))))"

definition make_request :: "mCredentialsRequest \<Rightarrow>
    (ObjectMeta \<times> CredentialsRequestSpecValue) \<times> int option \<times> RawExtensionValue option \<Rightarrow>
    CredentialsRequestCondition list option \<Rightarrow> CredentialsRequestValue" where
  "make_request v y cs = \<lparr>vcr_TypeMeta = mcr_TypeMeta v, vcr_Meta = fst (fst y), vcr_Spec = snd (fst y),
     vcr_Status = \<lparr>vst_Provisioned = mst_Provisioned (mcr_Status v), vst_LastSyncTimestamp = fst (snd y),
       vst_LastSyncGeneration = mst_LastSyncGeneration (mcr_Status v), vst_ProviderStatus = snd (snd y),
       vst_Conditions = cs\<rparr>\<rparr>"

lemma rd_request_split:
  "rd_CredentialsRequest v m = Some (x, F) \<longleftrightarrow> (\<exists>y cs G C. rd_rest v m = Some (y, G) \<and>
     rd_conditions (mst_Conditions (mcr_Status v)) m = Some (cs, C) \<and> x = make_request v y cs \<and> F = G @ C)"
  by (auto simp: rd_CredentialsRequest_def rd_CredentialsRequestStatus_def rd_rest_def make_request_def
      rd_map_Some rd_pair_Some)

definition with_conditions ::
    "CredentialsRequestCondition list option \<Rightarrow> CredentialsRequestValue \<Rightarrow> CredentialsRequestValue" where
  "with_conditions cs x = x\<lparr>vcr_Status := (vcr_Status x)\<lparr>vst_Conditions := cs\<rparr>\<rparr>"

lemma make_request_conditions [simp]:
  "with_conditions cs' (make_request v y cs) = make_request v y cs'"
  "vst_Conditions (vcr_Status (make_request v y cs)) = cs"
  by (simp_all add: with_conditions_def make_request_def)

lemma make_request_assign [simp]:
  "make_request (v\<lparr>mcr_Status := (mcr_Status v)\<lparr>mst_Conditions := s\<rparr>\<rparr>) y cs = make_request v y cs"
  "rd_rest (v\<lparr>mcr_Status := (mcr_Status v)\<lparr>mst_Conditions := s\<rparr>\<rparr>) = rd_rest v"
  by (simp_all add: make_request_def rd_rest_def)

lemma local_rest [local_intros]: "local_reader (rd_rest v)"
  by (simp add: rd_rest_def local_intros)

lemma set_request_condition_refines:
  assumes "wf_mem m" "rd_request p m = Some (Some x, F)" "distinct F"
  shows "\<exists>m' F'. set_request_condition spare now p ty status reason message check m = Some ((), m') \<and>
     grows_except (set F) m m' \<and>
     rd_request p m' = Some (Some (with_conditions (SetCredentialsRequestCondition now
       (vst_Conditions (vcr_Status x)) ty status reason message check) x), F') \<and>
     distinct F' \<and> set F' \<subseteq> set F \<union> {next_block m ..< next_block m'}"
proof -
  from assms(2) obtain b i where p: "p = Ptr b i" by (cases p) (auto simp: rd_ptr_def)
  with assms(2) obtain v G where v: "load as_request (Ptr b i) m = Some (v, m)"
      "rd_CredentialsRequest v m = Some (x, G)" "F = b # G"
    by (auto simp: rd_ptr_Some)
  then obtain y cs R C where r: "rd_rest v m = Some (y, R)"
      "rd_conditions (mst_Conditions (mcr_Status v)) m = Some (cs, C)" "x = make_request v y cs" "G = R @ C"
    by (auto simp: rd_request_split)
  let ?cs = "SetCredentialsRequestCondition now cs ty status reason message check"
  obtain s m1 C' where 1: "set_condition_ptr spare now (mst_Conditions (mcr_Status v)) ty status reason
        message check m = Some (s, m1)" "grows_except (set C) m m1" "rd_conditions s m1 = Some (?cs, C')"
      "distinct C'" "set C' \<subseteq> set C \<union> {next_block m ..< next_block m1}"
    using set_condition_ptr_refines [OF assms(1) r(2)] by blast
  from v(1) obtain bs where b: "blocks m b = Some bs" "i < length bs" "as_request (bs ! i) = Some v"
    by (auto simp: load_Some)
  have alloc: "set F \<subseteq> {..<next_block m}"
    using local_ptr [where rd = rd_CredentialsRequest, OF local_CredentialsRequest] assms(1,2)
    by (rule local_reader_allocated)
  have sep: "b \<notin> set C" "b \<notin> set R" "set R \<inter> set C = {}" using assms(3) v(3) r(4) by auto
  have b1: "blocks m1 b = Some bs" using 1(2) b(1) sep(1) alloc v(3) by (auto simp: grows_except_def)
  let ?v = "v\<lparr>mcr_Status := (mcr_Status v)\<lparr>mst_Conditions := s\<rparr>\<rparr>"
  let ?m2 = "m1\<lparr>blocks := (blocks m1)(b := Some (bs[i := CRequest ?v]))\<rparr>"
  have "rd_rest v ?m2 = Some (y, R)" using local_rest r(1)
    by (rule local_reader_same) (use 1(2) sep alloc v(3) r(4) in \<open>auto simp: agree_def grows_except_def\<close>)
  moreover have "rd_conditions s ?m2 = Some (?cs, C')" using local_slice [OF local_val] 1(3)
    by (rule local_reader_same) (use 1(5) sep(1) alloc v(3) in \<open>auto simp: agree_def\<close>)
  ultimately have "rd_CredentialsRequest ?v ?m2 = Some (make_request v y ?cs, R @ C')"
    by (auto simp: rd_request_split)
  then have "rd_request p ?m2 = Some (Some (make_request v y ?cs), b # R @ C')"
    using b(2) by (auto simp: p rd_ptr_Some load_Some as_request_def)
  moreover have "grows_except (set F) m ?m2"
    using 1(2) alloc v(3) r(4) by (auto simp: grows_except_def wf_mem_def)
  moreover have "set_request_condition spare now p ty status reason message check m = Some ((), ?m2)"
    using v(1) 1(1) b b1
    by (simp add: p set_request_condition_def hbind_def store_def load_def peek_def)
  moreover have "distinct (b # R @ C')" using 1(4,5) sep alloc assms(3) v(3) r(4) by fastforce
  moreover have "set (b # R @ C') \<subseteq> set F \<union> {next_block m ..< next_block ?m2}"
    using 1(5) v(3) r(4) by auto
  ultimately show ?thesis unfolding r(3) make_request_conditions by blast
qed

text \<open>
  A reconciliation makes several such assignments, one after the other: a sequence of updates,
  on memory and on the immutable request.
\<close>

record condition_update =
  cu_spare :: nat
  cu_now :: int
  cu_type :: CredentialsRequestConditionType
  cu_status :: ConditionStatus
  cu_reason :: string
  cu_message :: string
  cu_check :: UpdateConditionCheck

fun run_updates :: "ptr \<Rightarrow> condition_update list \<Rightarrow> (cell, unit) hp" where
  "run_updates p [] = hret ()"
| "run_updates p (u # us) = hbind (set_request_condition (cu_spare u) (cu_now u) p (cu_type u)
       (cu_status u) (cu_reason u) (cu_message u) (cu_check u)) (\<lambda>_. run_updates p us)"

definition apply_update :: "condition_update \<Rightarrow> CredentialsRequest \<Rightarrow> CredentialsRequest" where
  "apply_update u = set_Conditions (\<lambda>cs. SetCredentialsRequestCondition (cu_now u) cs (cu_type u)
     (cu_status u) (cu_reason u) (cu_message u) (cu_check u))"

lemma request_of_with_conditions:
  "request_of (with_conditions (SetCredentialsRequestCondition (cu_now u) (vst_Conditions (vcr_Status x))
      (cu_type u) (cu_status u) (cu_reason u) (cu_message u) (cu_check u)) x) = apply_update u (request_of x)"
  by (simp add: request_of_def with_conditions_def apply_update_def set_Conditions_def)

lemma run_updates_refines:
  assumes "wf_mem m" "rd_request p m = Some (Some x, F)" "distinct F"
  shows "\<exists>m' x' F'. run_updates p us m = Some ((), m') \<and> grows_except (set F) m m' \<and>
     rd_request p m' = Some (Some x', F') \<and> request_of x' = fold apply_update us (request_of x)"
  using assms
proof (induction us arbitrary: m x F)
  case Nil
  then show ?case by (auto simp: hret_def grows_refl)
next
  case (Cons u us)
  let ?x = "with_conditions (SetCredentialsRequestCondition (cu_now u) (vst_Conditions (vcr_Status x))
      (cu_type u) (cu_status u) (cu_reason u) (cu_message u) (cu_check u)) x"
  from set_request_condition_refines [OF Cons.prems, of "cu_spare u" "cu_now u" "cu_type u" "cu_status u"
      "cu_reason u" "cu_message u" "cu_check u"]
  obtain m1 F1 where 1: "set_request_condition (cu_spare u) (cu_now u) p (cu_type u) (cu_status u)
        (cu_reason u) (cu_message u) (cu_check u) m = Some ((), m1)"
      "grows_except (set F) m m1" "rd_request p m1 = Some (Some ?x, F1)" "distinct F1"
      "set F1 \<subseteq> set F \<union> {next_block m ..< next_block m1}"
    by blast
  from Cons.IH [OF grows_wf [OF 1(2)] 1(3,4)] obtain m2 x2 F2 where
    2: "run_updates p us m1 = Some ((), m2)" "grows_except (set F1) m1 m2"
      "rd_request p m2 = Some (Some x2, F2)" "request_of x2 = fold apply_update us (request_of ?x)"
    by blast
  have "grows_except (set F) m m2" using 1(2) 2(2) by (rule grows_trans) (use 1(5) in auto)
  with 1(1) 2 show ?case by (auto simp: hbind_def request_of_with_conditions)
qed

section \<open>Working on a copy\<close>

text \<open>
  C9. What the reconciler relies on when it works on \<open>cr.DeepCopy()\<close> and keeps \<open>cr\<close> for the final
  comparison: the copy is made, any sequence of condition updates on it runs without a panic, the
  original still denotes the request it denoted, and the copy denotes that request with exactly
  these updates applied, as the model of the controller computes them on immutable values. The
  updates write through pointers into the conditions slice and may append in place.
\<close>

theorem updates_stay_on_copy:
  assumes "wf_mem m" and "rd_request p m = Some (Some x, F)"
  shows "\<exists>p' m1 m2 x' F'. CredentialsRequest_DeepCopy p m = Some (p', m1) \<and>
     run_updates p' us m1 = Some ((), m2) \<and> rd_request p m2 = Some (Some x, F) \<and>
     rd_request p' m2 = Some (Some x', F') \<and> request_of x' = fold apply_update us (request_of x)"
proof -
  obtain p' m1 F1 where c: "CredentialsRequest_DeepCopy p m = Some (p', m1)" "grows m m1"
      "rd_request p' m1 = Some (Some x, F1)" "fresh_tree m m1 F1" "rd_request p m1 = Some (Some x, F)"
    using request.ptr.independent [OF assms] by (auto simp: CredentialsRequest_DeepCopy_def)
  from c(4) have "distinct F1" by (simp add: fresh_tree_def)
  with run_updates_refines [OF grows_wf [OF c(2)] c(3)] obtain m2 x' F' where
    u: "run_updates p' us m1 = Some ((), m2)" "grows_except (set F1) m1 m2"
      "rd_request p' m2 = Some (Some x', F')" "request_of x' = fold apply_update us (request_of x)"
    by blast
  have loc: "local_reader (rd_request p)" by (simp add: local_intros)
  have "rd_request p m2 = Some (Some x, F)" using loc c(5)
  proof (rule local_reader_same)
    have "set F \<subseteq> {..<next_block m}" using loc assms by (rule local_reader_allocated)
    then show "agree F m1 m2" using c(4) grows_next [OF c(2)]
      by (intro grows_agree [OF u(2)]) (fastforce simp: fresh_tree_def)+
  qed
  with c(1) u show ?thesis by blast
qed

definition example_condition :: CredentialsRequestCondition where
  "example_condition = \<lparr>cc_Type = InsufficientCloudCredentials, cc_Status = ConditionTrue,
     cc_LastProbeTime = 5, cc_LastTransitionTime = 5, cc_Reason = ''r'', cc_Message = ''m''\<rparr>"

text \<open>A request with one condition in a slice that has room for another one.\<close>

definition example_request_mem :: "cell mem" where
  "example_request_mem = \<lparr>blocks = (\<lambda>_. None)(
       0 := Some [CCondition example_condition, CCondition zero_CredentialsRequestCondition],
       1 := Some [CRequest (zero_CredentialsRequest\<lparr>mcr_Status :=
         zero_CredentialsRequestStatus\<lparr>mst_Conditions := Slice 0 0 1 2\<rparr>\<rparr>)]),
     next_block = 2\<rparr>"

definition example_updates :: "condition_update list" where
  "example_updates =
     [\<lparr>cu_spare = 0, cu_now = 9, cu_type = InsufficientCloudCredentials, cu_status = ConditionFalse,
       cu_reason = ''ok'', cu_message = ''fine'', cu_check = UpdateConditionNever\<rparr>,
      \<lparr>cu_spare = 0, cu_now = 9, cu_type = MissingTargetNamespace, cu_status = ConditionTrue,
       cu_reason = ''ns'', cu_message = ''missing'', cu_check = UpdateConditionIfReasonOrMessageChange\<rparr>]"

lemma example_request_reads:
  "\<exists>x. rd_request (Ptr 1 0) example_request_mem = Some (Some x, [1, 0]) \<and>
     Conditions (cr_Status (request_of x)) = Some [example_condition]"
  by (simp add: example_request_mem_def rd_ptr_def load_def peek_def as_defs rd_CredentialsRequest_def
      rd_map_def rd_pair_def rd_ObjectMeta_def rd_CredentialsRequestSpec_def rd_CredentialsRequestStatus_def
      rd_slice_def rd_val_def zero_CredentialsRequest_def zero_CredentialsRequestStatus_def
      zero_CredentialsRequestSpec_def zero_ObjectMeta_def request_of_def)

theorem updates_stay_on_copy_witness:
  "\<exists>x p' m1 m2 x' F'. CredentialsRequest_DeepCopy (Ptr 1 0) example_request_mem = Some (p', m1) \<and>
     run_updates p' example_updates m1 = Some ((), m2) \<and>
     rd_request (Ptr 1 0) m2 = Some (Some x, [1, 0]) \<and>
     Conditions (cr_Status (request_of x)) = Some [example_condition] \<and>
     rd_request p' m2 = Some (Some x', F') \<and>
     Conditions (cr_Status (request_of x')) = Some
       [\<lparr>cc_Type = InsufficientCloudCredentials, cc_Status = ConditionFalse, cc_LastProbeTime = 9,
         cc_LastTransitionTime = 9, cc_Reason = ''ok'', cc_Message = ''fine''\<rparr>,
        \<lparr>cc_Type = MissingTargetNamespace, cc_Status = ConditionTrue, cc_LastProbeTime = 9,
         cc_LastTransitionTime = 9, cc_Reason = ''ns'', cc_Message = ''missing''\<rparr>]"
proof -
  obtain x where x: "rd_request (Ptr 1 0) example_request_mem = Some (Some x, [1, 0])"
      "Conditions (cr_Status (request_of x)) = Some [example_condition]"
    using example_request_reads by blast
  have wf: "wf_mem example_request_mem" by (simp add: wf_mem_def example_request_mem_def)
  have "Conditions (cr_Status (fold apply_update example_updates (request_of x))) = Some
       [\<lparr>cc_Type = InsufficientCloudCredentials, cc_Status = ConditionFalse, cc_LastProbeTime = 9,
         cc_LastTransitionTime = 9, cc_Reason = ''ok'', cc_Message = ''fine''\<rparr>,
        \<lparr>cc_Type = MissingTargetNamespace, cc_Status = ConditionTrue, cc_LastProbeTime = 9,
         cc_LastTransitionTime = 9, cc_Reason = ''ns'', cc_Message = ''missing''\<rparr>]"
    using x(2) by (simp add: example_updates_def apply_update_def set_Conditions_def example_condition_def
        SetCredentialsRequestCondition_def shouldUpdateCondition_def)
  with updates_stay_on_copy [OF wf x(1), of example_updates] x(2) show ?thesis by metis
qed

end
