(* ===== verification/SecretMemory.thy ===== *)
theory SecretMemory
  imports DeepCopy AwsActuator
begin

text \<open>
  The update of an existing target secret in \<open>syncAccessKeySecret\<close> of \<open>pkg/aws/actuator/actuator.go\<close>,
  with the maps it writes to: the actuator keeps a deep copy of the secret, assigns to the
  entries of the secret's own maps, and writes the secret to the cluster when it differs from the
  copy. If the copy shared a map with the secret, the difference would never show.

  Each assignment is a step on memory that refines a step on immutable secrets. The lemmas show
  that the whole update refines the one in the model of the actuator, panics included, and
  that the copy still denotes the secret that was read.
\<close>

section \<open>Assignments\<close>

text \<open>\<open>m[k] = v\<close>, which panics on a \<open>nil\<close> map; \<open>[]byte(s)\<close>; \<open>d[k] = []byte(s)\<close>.\<close>

definition map_assign :: "ptr \<Rightarrow> string \<Rightarrow> string \<Rightarrow> (cell, unit) hp" where
  "map_assign a k v = hbind (load as_map a) (\<lambda>m. store CMap a (fmupd k v m))"

definition bytes_of :: "string \<Rightarrow> (cell, slice) hp" where
  "bytes_of s = hbind (new_block (map CByte s)) (\<lambda>a. hret (Slice a 0 (length s) (length s)))"

definition data_assign :: "ptr \<Rightarrow> string \<Rightarrow> string \<Rightarrow> (cell, unit) hp" where
  "data_assign d k s = hbind (bytes_of s) (\<lambda>v.
     hbind (load as_data d) (\<lambda>es. store CData d (AList.update k v es)))"

text \<open>The statements of the update; \<open>p\<close> is \<open>existingSecret\<close>.\<close>

definition ensure_annotations :: "ptr \<Rightarrow> (cell, unit) hp" where
  "ensure_annotations p = hbind (load as_secret p) (\<lambda>s.
     if mom_Annotations (msec_Meta s) = Nil_ptr
     then hbind (new_obj CMap fmempty) (\<lambda>a. hbind (load as_secret p) (\<lambda>s.
            store CSecret p (s\<lparr>msec_Meta := (msec_Meta s)\<lparr>mom_Annotations := a\<rparr>\<rparr>)))
     else hret ())"

definition assign_annotation :: "ptr \<Rightarrow> string \<Rightarrow> string \<Rightarrow> (cell, unit) hp" where
  "assign_annotation p k v = hbind (load as_secret p) (\<lambda>s. map_assign (mom_Annotations (msec_Meta s)) k v)"

definition assign_data :: "ptr \<Rightarrow> string \<Rightarrow> string \<Rightarrow> (cell, unit) hp" where
  "assign_data p k v = hbind (load as_secret p) (\<lambda>s. data_assign (msec_Data s) k v)"

definition update_existing_secret ::
    "ptr \<Rightarrow> CredentialsRequest \<Rightarrow> string \<Rightarrow> string \<Rightarrow> string \<Rightarrow> (cell, unit) hp" where
  "update_existing_secret p cr accessKeyID secretAccessKey userPolicy =
     hbind (ensure_annotations p) (\<lambda>_.
     hbind (assign_annotation p AnnotationCredentialsRequest (cr_ref cr)) (\<lambda>_.
     hbind (assign_annotation p AnnotationAWSPolicyLastApplied userPolicy) (\<lambda>_.
     if accessKeyID \<noteq> [] \<and> secretAccessKey \<noteq> []
     then hbind (assign_data p ''aws_access_key_id'' accessKeyID) (\<lambda>_.
          assign_data p ''aws_secret_access_key'' secretAccessKey)
     else hret ())))"

section \<open>Reading a secret in parts\<close>

abbreviation rd_secret :: "ptr \<Rightarrow> SecretValue option api_reader" where
  "rd_secret \<equiv> rd_ptr as_secret rd_Secret"

text \<open>Everything but the annotations and the data.\<close>

type_synonym other_parts = "(int option \<times> int option \<times> (string, string) gomap) \<times>
  (OwnerReference list option \<times> Initializers option \<times> string list option) \<times> (string, string) gomap"

definition rd_others :: "mSecret \<Rightarrow> other_parts api_reader" where
  "rd_others v = (let mt = msec_Meta v in
     rd_pair (rd_pair (rd_ptr as_time rd_val (mom_DeletionTimestamp mt))
             (rd_pair (rd_ptr as_int rd_val (mom_DeletionGracePeriodSeconds mt))
                      (rd_ptr as_map rd_val (mom_Labels mt))))
     (rd_pair (rd_pair (rd_slice as_owner rd_OwnerReference (mom_OwnerReferences mt))
              (rd_pair (rd_ptr as_initializers rd_Initializers (mom_Initializers mt))
                       (rd_slice as_string rd_val (mom_Finalizers mt))))
              (rd_ptr as_map rd_val (msec_StringData v))))"

definition make_secret :: "mSecret \<Rightarrow> other_parts \<Rightarrow> (string, string) gomap \<Rightarrow>
    (string \<times> string option) list option \<Rightarrow> SecretValue" where
  "make_secret v y an d = (case y of ((dt, gp, ls), (os, is, fs), sd) \<Rightarrow> let mt = msec_Meta v in
     \<lparr>vsec_TypeMeta = msec_TypeMeta v,
      vsec_Meta = \<lparr>om_Name = mom_Name mt, om_GenerateName = mom_GenerateName mt,
        om_Namespace = mom_Namespace mt, om_SelfLink = mom_SelfLink mt, om_UID = mom_UID mt,
        om_ResourceVersion = mom_ResourceVersion mt, om_Generation = mom_Generation mt,
        om_CreationTimestamp = mom_CreationTimestamp mt, om_DeletionTimestamp = dt,
        om_DeletionGracePeriodSeconds = gp, om_Labels = ls, om_Annotations = an,
        om_OwnerReferences = os, om_Initializers = is, om_Finalizers = fs,
        om_ClusterName = mom_ClusterName mt\<rparr>,
      vsec_Data = d, vsec_StringData = sd, vsec_Type = msec_Type v\<rparr>)"

abbreviation rd_annotations :: "mSecret \<Rightarrow> (string, string) gomap api_reader" where
  "rd_annotations v \<equiv> rd_ptr as_map rd_val (mom_Annotations (msec_Meta v))"

abbreviation rd_secret_data :: "mSecret \<Rightarrow> (string \<times> string option) list option api_reader" where
  "rd_secret_data v \<equiv> rd_ptr as_data rd_data (msec_Data v)"

lemma local_others [local_intros]: "local_reader (rd_others v)"
  by (simp add: rd_others_def Let_def local_intros)

lemma rd_Secret_parts:
  "rd_Secret v m = Some (x, F) \<longleftrightarrow> (\<exists>y1 G1 an A y2 G2 d D sd S.
     rd_others v m = Some ((y1, y2, sd), G1 @ G2 @ S) \<and>
     rd_pair (rd_ptr as_time rd_val (mom_DeletionTimestamp (msec_Meta v)))
       (rd_pair (rd_ptr as_int rd_val (mom_DeletionGracePeriodSeconds (msec_Meta v)))
                (rd_ptr as_map rd_val (mom_Labels (msec_Meta v)))) m = Some (y1, G1) \<and>
     rd_ptr as_map rd_val (msec_StringData v) m = Some (sd, S) \<and>
     rd_annotations v m = Some (an, A) \<and> rd_secret_data v m = Some (d, D) \<and>
     x = make_secret v (y1, y2, sd) an d \<and> F = G1 @ A @ G2 @ D @ S)"
  (is "_ \<longleftrightarrow> ?rhs")
proof
  assume "rd_Secret v m = Some (x, F)"
  then show ?rhs
    by (auto simp: rd_Secret_def rd_ObjectMeta_def rd_map_Some rd_pair_Some)
      (auto simp: rd_others_def make_secret_def Let_def rd_pair_Some)
next
  assume ?rhs
  then show "rd_Secret v m = Some (x, F)"
    by (auto simp: rd_Secret_def rd_ObjectMeta_def rd_others_def make_secret_def Let_def rd_map_Some rd_pair_Some)
qed

lemma rd_Secret_split:
  assumes "rd_Secret v m = Some (x, F)" "distinct F"
  obtains y P an A d D where "rd_others v m = Some (y, P)" "rd_annotations v m = Some (an, A)"
    "rd_secret_data v m = Some (d, D)" "x = make_secret v y an d" "set F = set (P @ A @ D)"
    "distinct (P @ A @ D)"
proof -
  from assms(1) obtain y1 G1 an A y2 G2 d D sd S where
    *: "rd_others v m = Some ((y1, y2, sd), G1 @ G2 @ S)" "rd_annotations v m = Some (an, A)"
       "rd_secret_data v m = Some (d, D)" "x = make_secret v (y1, y2, sd) an d" "F = G1 @ A @ G2 @ D @ S"
    unfolding rd_Secret_parts by blast
  show thesis by (rule that [OF *(1-4)]) (use assms(2) *(5) in auto)
qed

lemma rd_Secret_join:
  assumes "rd_others v m = Some (y, P)" "rd_annotations v m = Some (an, A)"
    "rd_secret_data v m = Some (d, D)" "distinct (P @ A @ D)"
  shows "\<exists>F. rd_Secret v m = Some (make_secret v y an d, F) \<and> set F = set (P @ A @ D) \<and> distinct F"
proof -
  from assms(1) obtain y1 G1 y2 G2 sd S where
    *: "rd_pair (rd_ptr as_time rd_val (mom_DeletionTimestamp (msec_Meta v)))
         (rd_pair (rd_ptr as_int rd_val (mom_DeletionGracePeriodSeconds (msec_Meta v)))
                  (rd_ptr as_map rd_val (mom_Labels (msec_Meta v)))) m = Some (y1, G1)"
       "rd_ptr as_map rd_val (msec_StringData v) m = Some (sd, S)" "y = (y1, y2, sd)" "P = G1 @ G2 @ S"
    by (auto simp: rd_others_def Let_def rd_pair_Some [of "rd_pair _ _" "rd_pair _ _"]
        rd_pair_Some [of "rd_pair _ _" "rd_ptr _ _ _"])
  have "rd_Secret v m = Some (make_secret v y an d, G1 @ A @ G2 @ D @ S)"
    unfolding rd_Secret_parts using assms(1-3) * by blast
  then show ?thesis using assms(4) *(4) by (intro exI [of _ "G1 @ A @ G2 @ D @ S"]) auto
qed

section \<open>Steps\<close>

text \<open>
  A computation on the secret at \<open>p\<close> that refines a function on immutable secrets, \<open>None\<close> being a
  panic. It writes only blocks of the secret, which stays a tree.
\<close>

definition step_result :: "ptr \<Rightarrow> (cell, unit) hp \<Rightarrow> cell mem \<Rightarrow> nat list \<Rightarrow> Secret option \<Rightarrow> bool" where
  "step_result p c m F r \<longleftrightarrow> (case r of
      None \<Rightarrow> c m = None
    | Some s \<Rightarrow> (\<exists>m' x' F'. c m = Some ((), m') \<and> grows_except (set F) m m' \<and>
        rd_secret p m' = Some (Some x', F') \<and> distinct F' \<and>
        set F' \<subseteq> set F \<union> {next_block m ..< next_block m'} \<and> secret_of x' = s))"

definition secret_step :: "ptr \<Rightarrow> (cell, unit) hp \<Rightarrow> (Secret \<Rightarrow> Secret option) \<Rightarrow> bool" where
  "secret_step p c f \<longleftrightarrow> (\<forall>m x F. wf_mem m \<longrightarrow> rd_secret p m = Some (Some x, F) \<longrightarrow> distinct F \<longrightarrow>
     step_result p c m F (f (secret_of x)))"

lemma secret_stepI:
  "(\<And>m x F. wf_mem m \<Longrightarrow> rd_secret p m = Some (Some x, F) \<Longrightarrow> distinct F \<Longrightarrow>
      step_result p c m F (f (secret_of x))) \<Longrightarrow> secret_step p c f"
  unfolding secret_step_def by blast

lemma secret_stepD:
  "secret_step p c f \<Longrightarrow> wf_mem m \<Longrightarrow> rd_secret p m = Some (Some x, F) \<Longrightarrow> distinct F \<Longrightarrow>
     step_result p c m F (f (secret_of x))"
  unfolding secret_step_def by blast

lemma step_resultE:
  assumes "step_result p c m F (Some s)"
  obtains m' x' F' where "c m = Some ((), m')" "grows_except (set F) m m'" "rd_secret p m' = Some (Some x', F')"
    "distinct F'" "set F' \<subseteq> set F \<union> {next_block m ..< next_block m'}" "secret_of x' = s"
  using assms unfolding step_result_def option.case by blast

lemma step_resultI:
  "c m = Some ((), m') \<Longrightarrow> grows_except (set F) m m' \<Longrightarrow> rd_secret p m' = Some (Some x', F') \<Longrightarrow> distinct F' \<Longrightarrow>
     set F' \<subseteq> set F \<union> {next_block m ..< next_block m'} \<Longrightarrow> step_result p c m F (Some (secret_of x'))"
  unfolding step_result_def option.case by blast

lemma secret_step_seq:
  assumes c: "secret_step p c f" and d: "secret_step p d g"
  shows "secret_step p (hbind c (\<lambda>_. d)) (\<lambda>s. Option.bind (f s) g)"
proof (rule secret_stepI)
  fix m x F assume m: "wf_mem m" "rd_secret p m = Some (Some x, F)" "distinct F"
  note fx = secret_stepD [OF c m]
  show "step_result p (hbind c (\<lambda>_. d)) m F (Option.bind (f (secret_of x)) g)"
  proof (cases "f (secret_of x)")
    case None
    with fx show ?thesis by (simp add: step_result_def hbind_def)
  next
    case (Some s)
    with fx obtain m1 x1 F1 where 1: "c m = Some ((), m1)" "grows_except (set F) m m1"
        "rd_secret p m1 = Some (Some x1, F1)" "distinct F1" "set F1 \<subseteq> set F \<union> {next_block m ..< next_block m1}"
        "secret_of x1 = s"
      by (auto elim: step_resultE)
    note gx = secret_stepD [OF d grows_wf [OF 1(2)] 1(3,4)]
    show ?thesis
    proof (cases "g s")
      case None
      with gx 1(1,6) Some show ?thesis by (simp add: step_result_def hbind_def)
    next
      case (Some s')
      with gx 1(6) obtain m2 x2 F2 where 2: "d m1 = Some ((), m2)" "grows_except (set F1) m1 m2"
          "rd_secret p m2 = Some (Some x2, F2)" "distinct F2" "set F2 \<subseteq> set F1 \<union> {next_block m1 ..< next_block m2}"
          "secret_of x2 = s'"
        by (auto elim: step_resultE)
      have "grows_except (set F) m m2" using 1(2) 2(2) by (rule grows_trans) (use 1(5) in auto)
      moreover have "set F2 \<subseteq> set F \<union> {next_block m ..< next_block m2}"
        using 1(5) 2(5) grows_next [OF 1(2)] grows_next [OF 2(2)] by fastforce
      moreover have "hbind c (\<lambda>_. d) m = Some ((), m2)" using 1(1) 2(1) by (simp add: hbind_def)
      ultimately have "step_result p (hbind c (\<lambda>_. d)) m F (Some (secret_of x2))"
        using 2(3,4) by (intro step_resultI)
      then show ?thesis using Some \<open>f (secret_of x) = Some s\<close> 2(6) by simp
    qed
  qed
qed

lemma secret_step_skip: "secret_step p (hret ()) Some"
  by (rule secret_stepI) (auto simp: hret_def grows_refl intro!: step_resultI)

subsection \<open>Taking a secret apart and putting it together\<close>

lemma rd_secret_split:
  assumes "rd_secret p m = Some (Some x, F)" "distinct F"
  obtains b i v y P an A d D where "p = Ptr b i" "load as_secret (Ptr b i) m = Some (v, m)"
    "rd_others v m = Some (y, P)" "rd_annotations v m = Some (an, A)" "rd_secret_data v m = Some (d, D)"
    "x = make_secret v y an d" "set F = set (b # P @ A @ D)" "distinct (b # P @ A @ D)"
proof -
  from assms(1) obtain b i where p: "p = Ptr b i" by (cases p) (auto simp: rd_ptr_def)
  with assms(1) obtain v G where v: "load as_secret (Ptr b i) m = Some (v, m)" "rd_Secret v m = Some (x, G)"
      "F = b # G"
    by (auto simp: rd_ptr_Some)
  from assms(2) v(3) have "distinct G" by simp
  with v(2) obtain y P an A d D where "rd_others v m = Some (y, P)" "rd_annotations v m = Some (an, A)"
    "rd_secret_data v m = Some (d, D)" "x = make_secret v y an d" "set G = set (P @ A @ D)" "distinct (P @ A @ D)"
    by (rule rd_Secret_split)
  with p v assms(2) show thesis by (intro that) auto
qed

lemma rd_secret_join:
  assumes "load as_secret (Ptr b i) m = Some (v, m)" "rd_others v m = Some (y, P)"
    "rd_annotations v m = Some (an, A)" "rd_secret_data v m = Some (d, D)" "distinct (b # P @ A @ D)"
  shows "\<exists>F. rd_secret (Ptr b i) m = Some (Some (make_secret v y an d), F) \<and> distinct F \<and>
     set F = set (b # P @ A @ D)"
proof -
  from assms(5) have "distinct (P @ A @ D)" by simp
  from rd_Secret_join [OF assms(2-4) this] obtain G where
    "rd_Secret v m = Some (make_secret v y an d, G)" "set G = set (P @ A @ D)" "distinct G"
    by blast
  with assms(1,5) show ?thesis by (intro exI [of _ "b # G"]) (auto simp: rd_ptr_Some)
qed

text \<open>
  A computation that changes the struct, the annotations and the data only: it is a step when the
  new parts are disjoint trees of old and new blocks.
\<close>

lemma step_result_parts:
  assumes m: "wf_mem m" and p: "p = Ptr b i" "load as_secret (Ptr b i) m = Some (w, m)"
      "rd_others w m = Some (y, P)" "set F = set (b # P @ A @ D)" "distinct (b # P @ A @ D)"
    and c: "c m = Some ((), m')" "grows_except (set (b # A @ D)) m m'"
    and w: "load as_secret (Ptr b i) m' = Some (w', m')" "rd_others w' = rd_others w"
    and r: "rd_annotations w' m' = Some (an', A')" "rd_secret_data w' m' = Some (d', D')" "distinct (A' @ D')"
      "set (A' @ D') \<subseteq> set (A @ D) \<union> {next_block m ..< next_block m'}"
  shows "step_result p c m F (Some (secret_of (make_secret w' y an' d')))"
proof -
  have others: "rd_others w' m' = Some (y, P)"
    unfolding w(2) by (rule local_reader_except [OF local_others m p(3) c(2)]) (use p(5) in auto)
  have "b < next_block m" "set P \<subseteq> {..<next_block m}"
    using local_reader_allocated [OF local_others m p(3)] m p(2)
    by (auto simp: load_Some wf_mem_def not_less [symmetric])
  then have "distinct (b # P @ A' @ D')" using p(5) r(3,4) by fastforce
  from rd_secret_join [OF w(1) others r(1,2) this] obtain F' where
    "rd_secret p m' = Some (Some (make_secret w' y an' d'), F')" "distinct F'" "set F' = set (b # P @ A' @ D')"
    using p(1) by blast
  moreover have "grows_except (set F) m m'" using c(2) p(4) by (auto simp: grows_except_def)
  ultimately show ?thesis using c(1) p(4) r(4) by (intro step_resultI) auto
qed

lemma secret_of_make [simp]:
  "sec_Annotations (secret_of (make_secret v y an d)) = an"
  "sec_Data (secret_of (make_secret v y an d)) = map_option data_map d"
  "set_sec_Annotations an' (secret_of (make_secret v y an d)) = secret_of (make_secret v y an' d)"
  "(secret_of (make_secret v y an d))\<lparr>sec_Data := map_option data_map d'\<rparr> = secret_of (make_secret v y an d')"
  "(secret_of (make_secret v y an d))\<lparr>sec_Data := Some (data_map es)\<rparr> = secret_of (make_secret v y an (Some es))"
  by (simp_all add: secret_of_def make_secret_def set_sec_Annotations_def Let_def split: prod.splits)

subsection \<open>Annotations\<close>

lemma map_assign_result:
  assumes "wf_mem m" "rd_ptr as_map rd_val q m = Some (Some a, A)"
  shows "\<exists>m'. map_assign q k v m = Some ((), m') \<and> grows_except (set A) m m' \<and>
     rd_ptr as_map rd_val q m' = Some (Some (fmupd k v a), A) \<and> distinct A"
proof -
  from assms(2) obtain c j where q: "q = Ptr c j" by (cases q) (auto simp: rd_ptr_def)
  with assms(2) have a: "load as_map (Ptr c j) m = Some (a, m)" "A = [c]" by (auto simp: rd_ptr_Some rd_val_def)
  obtain m' where "store CMap (Ptr c j) (fmupd k v a) m = Some ((), m')" "grows_except {c} m m'"
      "load as_map (Ptr c j) m' = Some (fmupd k v a, m')"
    using store_ptr [OF a(1), of CMap "fmupd k v a"] assms(1) by (auto simp: as_map_def)
  with q a show ?thesis by (auto simp: map_assign_def hbind_def rd_ptr_Some rd_val_def)
qed

lemma assign_annotation_step:
  "secret_step p (assign_annotation p k v) (\<lambda>s. case sec_Annotations s of
     None \<Rightarrow> None | Some a \<Rightarrow> Some (set_sec_Annotations (Some (fmupd k v a)) s))"
proof (rule secret_stepI)
  fix m x F assume m: "wf_mem m" and rd: "rd_secret p m = Some (Some x, F)" "distinct F"
  from rd obtain b i w y P an A d D where p: "p = Ptr b i" "load as_secret (Ptr b i) m = Some (w, m)"
    "rd_others w m = Some (y, P)" "rd_annotations w m = Some (an, A)" "rd_secret_data w m = Some (d, D)"
    "x = make_secret w y an d" "set F = set (b # P @ A @ D)" "distinct (b # P @ A @ D)"
    by (rule rd_secret_split)
  show "step_result p (assign_annotation p k v) m F (case sec_Annotations (secret_of x) of
     None \<Rightarrow> None | Some a \<Rightarrow> Some (set_sec_Annotations (Some (fmupd k v a)) (secret_of x)))"
  proof (cases an)
    case None
    then have "mom_Annotations (msec_Meta w) = Nil_ptr"
      using p(4) by (cases "mom_Annotations (msec_Meta w)") (auto simp: rd_ptr_Some)
    with p None show ?thesis
      by (auto simp: step_result_def assign_annotation_def map_assign_def hbind_def load_def [of _ Nil_ptr])
  next
    case (Some a)
    from map_assign_result [OF m p(4) [unfolded Some]] obtain m' where
      m': "map_assign (mom_Annotations (msec_Meta w)) k v m = Some ((), m')" "grows_except (set A) m m'"
        "rd_annotations w m' = Some (Some (fmupd k v a), A)"
      by blast
    have "local_reader (rd_secret_data w)" by (simp add: local_intros)
    from local_reader_except [OF this m p(5) m'(2)]
    have data: "rd_secret_data w m' = Some (d, D)" using p(8) by auto
    have "step_result p (assign_annotation p k v) m F (Some (secret_of (make_secret w y (Some (fmupd k v a)) d)))"
      by (rule step_result_parts [OF m p(1-3,7,8) _ _ load_except [OF m p(2) m'(2)] refl m'(3) data])
        (use p m' in \<open>auto simp: assign_annotation_def hbind_def grows_except_def\<close>)
    then show ?thesis using p(6) Some by simp
  qed
qed

text \<open>Pointing the annotations of a secret at a new map changes nothing else of it.\<close>

lemma set_annotations_ptr [simp]:
  "rd_others (w\<lparr>msec_Meta := (msec_Meta w)\<lparr>mom_Annotations := a\<rparr>\<rparr>) = rd_others w"
  "make_secret (w\<lparr>msec_Meta := (msec_Meta w)\<lparr>mom_Annotations := a\<rparr>\<rparr>) y an d = make_secret w y an d"
  by (simp_all add: rd_others_def make_secret_def Let_def)

lemma ensure_annotations_step:
  "secret_step p (ensure_annotations p) (\<lambda>s. Some (case sec_Annotations s of
     None \<Rightarrow> set_sec_Annotations (Some fmempty) s | Some a \<Rightarrow> s))"
proof (rule secret_stepI)
  fix m x F assume m: "wf_mem m" and rd: "rd_secret p m = Some (Some x, F)" "distinct F"
  from rd obtain b i w y P an A d D where p: "p = Ptr b i" "load as_secret (Ptr b i) m = Some (w, m)"
    "rd_others w m = Some (y, P)" "rd_annotations w m = Some (an, A)" "rd_secret_data w m = Some (d, D)"
    "x = make_secret w y an d" "set F = set (b # P @ A @ D)" "distinct (b # P @ A @ D)"
    by (rule rd_secret_split)
  show "step_result p (ensure_annotations p) m F (Some (case sec_Annotations (secret_of x) of
     None \<Rightarrow> set_sec_Annotations (Some fmempty) (secret_of x) | Some a \<Rightarrow> secret_of x))"
  proof (cases "mom_Annotations (msec_Meta w)")
    case (Ptr c j)
    with p(4) obtain a where an: "an = Some a" by (auto simp: rd_ptr_Some)
    have "ensure_annotations p m = Some ((), m)"
      using p(1,2) Ptr by (simp add: ensure_annotations_def hbind_def hret_def)
    then show ?thesis using rd m p(6) an by (auto intro!: step_resultI simp: grows_refl)
  next
    case Nil_ptr
    then have an: "an = None" "A = []" using p(4) by (auto simp: rd_ptr_def)
    let ?a = "next_block m"
    let ?m1 = "m\<lparr>blocks := (blocks m)(?a := Some [CMap fmempty]), next_block := Suc ?a\<rparr>"
    let ?w = "w\<lparr>msec_Meta := (msec_Meta w)\<lparr>mom_Annotations := Ptr ?a 0\<rparr>\<rparr>"
    have g1: "grows m ?m1" using m by (rule grows_new)
    have p1: "load as_secret (Ptr b i) ?m1 = Some (w, ?m1)" by (rule load_except [OF m p(2) g1]) simp
    obtain m' where st: "store CSecret (Ptr b i) ?w ?m1 = Some ((), m')" "grows_except {b} ?m1 m'"
        "load as_secret (Ptr b i) m' = Some (?w, m')" "next_block m' = Suc ?a"
      using store_ptr [OF p1, of CSecret ?w] grows_wf [OF g1] by (auto simp: as_secret_def)
    have g: "grows_except {b} m m'" using g1 st(2) by (rule grows_trans) simp
    have "b \<noteq> ?a" using m p(2) by (auto simp: load_Some wf_mem_def)
    then have new: "rd_annotations ?w m' = Some (Some fmempty, [?a])"
      using st(2) by (auto simp: rd_ptr_Some rd_val_def load_Some grows_except_def as_map_def)
    have "local_reader (rd_secret_data w)" by (simp add: local_intros)
    from local_reader_except [OF this m p(5) g] local_reader_allocated [OF this m p(5)]
    have data: "rd_secret_data ?w m' = Some (d, D)" and D: "set D \<subseteq> {..<?a}" using p(8) by auto
    have "step_result p (ensure_annotations p) m F (Some (secret_of (make_secret ?w y (Some fmempty) d)))"
      by (rule step_result_parts [OF m p(1-3,7,8) _ _ st(3) _ new data])
        (use p p1 g st D an Nil_ptr in \<open>auto simp: ensure_annotations_def hbind_def new_obj_def new_block_def
           hret_def grows_except_def\<close>)
    then show ?thesis using p(6) an(1) by simp
  qed
qed

subsection \<open>Data\<close>

lemma data_map_update: "data_map (AList.update k (Some bs) es) = fmupd k bs (data_map es)"
proof -
  have "map_of (map (\<lambda>(k, v). (k, g v)) (AList.update k v es)) = (map_of (map (\<lambda>(k, v). (k, g v)) es))(k \<mapsto> g v)"
    for g :: "string option \<Rightarrow> string" and v
    by (induction es) (auto simp: fun_eq_iff)
  then show ?thesis by (intro fmap_ext) (simp add: data_map_def fmlookup_of_list)
qed

lemma rd_data_update:
  assumes "rd_data es m = Some (xs, D)" "rd_slice as_byte rd_val sl m = Some (v, S)" "distinct (D @ S)"
  shows "\<exists>D'. rd_data (AList.update k sl es) m = Some (AList.update k v xs, D') \<and> distinct D' \<and>
     set D' \<subseteq> set D \<union> set S"
  using assms
proof (induction es arbitrary: xs D rule: rd_data.induct)
  case 1
  then show ?case by (auto simp: rd_val_def [of "[]"] rd_map_Some rd_pair_Some)
next
  case (2 k' v' es)
  from 2(2) obtain x X ys Y where e: "rd_slice as_byte rd_val v' m = Some (x, X)" "rd_data es m = Some (ys, Y)"
      "xs = (k', x) # ys" "D = X @ Y"
    by (auto simp: rd_map_Some rd_pair_Some)
  show ?case
  proof (cases "k' = k")
    case True
    with e 2(3,4) show ?thesis by (auto simp: rd_map_Some rd_pair_Some)
  next
    case False
    obtain Y' where "rd_data (AList.update k sl es) m = Some (AList.update k v ys, Y')" "distinct Y'"
        "set Y' \<subseteq> set Y \<union> set S"
      using 2(1) [OF e(2) 2(3)] 2(4) e(4) by auto
    with False e 2(4) show ?thesis by (auto simp: rd_map_Some rd_pair_Some)
  qed
qed

lemma data_assign_result:
  assumes m: "wf_mem m" and rd: "rd_ptr as_data rd_data q m = Some (Some xs, D)" "distinct D"
  shows "\<exists>m' D'. data_assign q k bs m = Some ((), m') \<and> grows_except (set D) m m' \<and>
     rd_ptr as_data rd_data q m' = Some (Some (AList.update k (Some bs) xs), D') \<and> distinct D' \<and>
     set D' \<subseteq> set D \<union> {next_block m ..< next_block m'}"
proof -
  let ?n = "next_block m"
  let ?m1 = "m\<lparr>blocks := (blocks m)(?n := Some (map CByte bs)), next_block := Suc ?n\<rparr>"
  let ?sl = "Slice ?n 0 (length bs) (length bs)"
  from rd(1) obtain c j where q: "q = Ptr c j" by (cases q) (auto simp: rd_ptr_def)
  with rd(1) obtain es D0 where c: "load as_data (Ptr c j) m = Some (es, m)" "rd_data es m = Some (xs, D0)"
      "D = c # D0"
    by (auto simp: rd_ptr_Some)
  have g1: "grows m ?m1" using m by (rule grows_new)
  have c1: "load as_data (Ptr c j) ?m1 = Some (es, ?m1)" by (rule load_except [OF m c(1) g1]) simp
  obtain m' where st: "store CData (Ptr c j) (AList.update k ?sl es) ?m1 = Some ((), m')" "grows_except {c} ?m1 m'"
      "load as_data (Ptr c j) m' = Some (AList.update k ?sl es, m')" "next_block m' = Suc ?n"
    using store_ptr [OF c1, of CData "AList.update k ?sl es"] grows_wf [OF g1] by (auto simp: as_data_def)
  have g: "grows_except {c} m m'" using g1 st(2) by (rule grows_trans) simp
  have old: "c < ?n" "set D0 \<subseteq> {..<?n}" using local_reader_allocated [OF local_data m c(2)] m c(1)
    by (auto simp: load_Some wf_mem_def not_less [symmetric])
  have sl: "rd_slice as_byte rd_val ?sl m' = Some (Some bs, [?n])"
    using st(2) old(1) by (auto simp: rd_slice_Some rd_list_val those_map_Some as_byte_def grows_except_def)
  have "rd_data es m' = Some (xs, D0)"
    by (rule local_reader_except [OF local_data m c(2) g]) (use rd(2) c(3) in auto)
  from rd_data_update [OF this sl, of k] obtain D1 where
    "rd_data (AList.update k ?sl es) m' = Some (AList.update k (Some bs) xs, D1)" "distinct D1"
      "set D1 \<subseteq> set D0 \<union> {?n}"
    using rd(2) c(3) old(2) by auto
  then have "rd_ptr as_data rd_data q m' = Some (Some (AList.update k (Some bs) xs), c # D1)"
      "distinct (c # D1)" "set (c # D1) \<subseteq> set D \<union> {?n ..< next_block m'}"
    using q st(3,4) rd(2) c(3) old(1) by (auto simp: rd_ptr_Some)
  moreover have "data_assign q k bs m = Some ((), m')"
    using q c1 st(1) by (simp add: data_assign_def bytes_of_def hbind_def new_block_def hret_def)
  moreover have "grows_except (set D) m m'" using g c(3) by (auto simp: grows_except_def)
  ultimately show ?thesis by blast
qed

lemma assign_data_step:
  "secret_step p (assign_data p k bs) (\<lambda>s. case sec_Data s of
     None \<Rightarrow> None | Some d \<Rightarrow> Some (s\<lparr>sec_Data := Some (fmupd k bs d)\<rparr>))"
proof (rule secret_stepI)
  fix m x F assume m: "wf_mem m" and rd: "rd_secret p m = Some (Some x, F)" "distinct F"
  from rd obtain b i w y P an A d D where p: "p = Ptr b i" "load as_secret (Ptr b i) m = Some (w, m)"
    "rd_others w m = Some (y, P)" "rd_annotations w m = Some (an, A)" "rd_secret_data w m = Some (d, D)"
    "x = make_secret w y an d" "set F = set (b # P @ A @ D)" "distinct (b # P @ A @ D)"
    by (rule rd_secret_split)
  show "step_result p (assign_data p k bs) m F (case sec_Data (secret_of x) of
     None \<Rightarrow> None | Some d \<Rightarrow> Some ((secret_of x)\<lparr>sec_Data := Some (fmupd k bs d)\<rparr>))"
  proof (cases d)
    case None
    then have "msec_Data w = Nil_ptr" using p(5) by (cases "msec_Data w") (auto simp: rd_ptr_Some)
    with p None show ?thesis
      by (auto simp: step_result_def assign_data_def data_assign_def hbind_def bytes_of_def new_block_def
          hret_def load_def [of _ Nil_ptr])
  next
    case (Some xs)
    have "distinct D" using p(8) by simp
    from data_assign_result [OF m p(5) [unfolded Some] this] obtain m' D' where
      m': "data_assign (msec_Data w) k bs m = Some ((), m')" "grows_except (set D) m m'"
        "rd_secret_data w m' = Some (Some (AList.update k (Some bs) xs), D')" "distinct D'"
        "set D' \<subseteq> set D \<union> {next_block m ..< next_block m'}"
      by blast
    have "local_reader (rd_annotations w)" by (simp add: local_intros)
    from local_reader_except [OF this m p(4) m'(2)] local_reader_allocated [OF this m p(4)]
    have an: "rd_annotations w m' = Some (an, A)" and A: "set A \<subseteq> {..<next_block m}" using p(8) by auto
    have "distinct (A @ D')" using p(8) m'(4,5) A by fastforce
    then have "step_result p (assign_data p k bs) m F
        (Some (secret_of (make_secret w y an (Some (AList.update k (Some bs) xs)))))"
      by (intro step_result_parts [OF m p(1-3,7,8) _ _ load_except [OF m p(2) m'(2)] refl an m'(3)])
        (use p m' in \<open>auto simp: assign_data_def hbind_def grows_except_def\<close>)
    then show ?thesis using p(6) Some by (simp add: data_map_update [symmetric])
  qed
qed

section \<open>The update as the actuator's model has it\<close>

definition updated_secret :: "CredentialsRequest \<Rightarrow> string \<Rightarrow> string \<Rightarrow> string \<Rightarrow> Secret \<Rightarrow> Secret io" where
  "updated_secret cr accessKeyID secretAccessKey userPolicy existingSecret =
     (let annotations = (case sec_Annotations existingSecret of None \<Rightarrow> fmempty | Some m \<Rightarrow> m);
          s = set_sec_Annotations (Some (fmupd AnnotationAWSPolicyLastApplied userPolicy
                (fmupd AnnotationCredentialsRequest (cr_ref cr) annotations))) existingSecret
      in if accessKeyID \<noteq> [] \<and> secretAccessKey \<noteq> [] then set_key_data s accessKeyID secretAccessKey
         else ret s)"

lemma syncAccessKeySecret_updates:
  "sec_Name existingSecret \<noteq> [] \<Longrightarrow>
     syncAccessKeySecret E cr accessKeyID secretAccessKey existingSecret userPolicy =
     bind_go (updated_secret cr accessKeyID secretAccessKey userPolicy existingSecret) (\<lambda>s.
       if s \<noteq> existingSecret
       then bind_go (kUpdateSecret E s) (\<lambda>err. case err of
              Some e \<Rightarrow> ret (Some (ActuatorError CredentialsProvisionFailure ''error updating secret''))
            | None \<Rightarrow> ret None)
       else ret None)"
  by (simp add: syncAccessKeySecret_def updated_secret_def Let_def)

text \<open>The same on memory: \<open>None\<close> stands for the panic.\<close>

definition update_value :: "CredentialsRequest \<Rightarrow> string \<Rightarrow> string \<Rightarrow> string \<Rightarrow> Secret \<Rightarrow> Secret option" where
  "update_value cr accessKeyID secretAccessKey userPolicy s =
     (case fst (updated_secret cr accessKeyID secretAccessKey userPolicy s []) of
        Return s' \<Rightarrow> Some s' | _ \<Rightarrow> None)"

lemma set_sec_Annotations_simps [simp]:
  "sec_Annotations (set_sec_Annotations a s) = a" "sec_Data (set_sec_Annotations a s) = sec_Data s"
  "set_sec_Annotations a (set_sec_Annotations a' s) = set_sec_Annotations a s"
  by (simp_all add: set_sec_Annotations_def)

lemma update_existing_secret_step:
  "secret_step p (update_existing_secret p cr accessKeyID secretAccessKey userPolicy)
     (update_value cr accessKeyID secretAccessKey userPolicy)"
proof -
  have keys: "secret_step p (if accessKeyID \<noteq> [] \<and> secretAccessKey \<noteq> []
      then hbind (assign_data p ''aws_access_key_id'' accessKeyID)
             (\<lambda>_. assign_data p ''aws_secret_access_key'' secretAccessKey) else hret ())
    (\<lambda>s. if accessKeyID \<noteq> [] \<and> secretAccessKey \<noteq> []
      then Option.bind (case sec_Data s of None \<Rightarrow> None
             | Some d \<Rightarrow> Some (s\<lparr>sec_Data := Some (fmupd ''aws_access_key_id'' accessKeyID d)\<rparr>))
           (\<lambda>s. case sec_Data s of None \<Rightarrow> None
             | Some d \<Rightarrow> Some (s\<lparr>sec_Data := Some (fmupd ''aws_secret_access_key'' secretAccessKey d)\<rparr>))
      else Some s)"
    using secret_step_seq [OF assign_data_step assign_data_step] secret_step_skip by auto
  note steps = secret_step_seq [OF ensure_annotations_step secret_step_seq [OF assign_annotation_step
      secret_step_seq [OF assign_annotation_step keys]]]
  have "(\<lambda>s. Option.bind (Some (case sec_Annotations s of None \<Rightarrow> set_sec_Annotations (Some fmempty) s | Some a \<Rightarrow> s))
      (\<lambda>s. Option.bind (case sec_Annotations s of None \<Rightarrow> None
          | Some a \<Rightarrow> Some (set_sec_Annotations (Some (fmupd AnnotationCredentialsRequest (cr_ref cr) a)) s))
      (\<lambda>s. Option.bind (case sec_Annotations s of None \<Rightarrow> None
          | Some a \<Rightarrow> Some (set_sec_Annotations (Some (fmupd AnnotationAWSPolicyLastApplied userPolicy a)) s))
      (\<lambda>s. if accessKeyID \<noteq> [] \<and> secretAccessKey \<noteq> []
        then Option.bind (case sec_Data s of None \<Rightarrow> None
               | Some d \<Rightarrow> Some (s\<lparr>sec_Data := Some (fmupd ''aws_access_key_id'' accessKeyID d)\<rparr>))
             (\<lambda>s. case sec_Data s of None \<Rightarrow> None
               | Some d \<Rightarrow> Some (s\<lparr>sec_Data := Some (fmupd ''aws_secret_access_key'' secretAccessKey d)\<rparr>))
        else Some s)))) = update_value cr accessKeyID secretAccessKey userPolicy"
    by (rule ext) (simp add: update_value_def updated_secret_def set_key_data_def Let_def split: option.split)
  with steps [of AnnotationCredentialsRequest "cr_ref cr" AnnotationAWSPolicyLastApplied userPolicy]
  show ?thesis unfolding update_existing_secret_def by simp
qed

text \<open>
  C10. Updating the target secret in place works as intended: the actuator keeps
  \<open>origSecret := existingSecret.DeepCopy()\<close> and then assigns to the annotations and the data of
  \<open>existingSecret\<close> itself. For a secret that is a tree in memory, as a decoded object is, the copy
  is made; then, if the model of the actuator panics on the secret's value (key data to store,
  but no data map), so do the assignments; otherwise they run through, \<open>existingSecret\<close> denotes
  the secret that the model computes, and \<open>origSecret\<close> still denotes the secret that was read, so
  the comparison that decides on the API update compares the values it is meant to.
\<close>

theorem secret_update_keeps_original:
  assumes "wf_mem m" and "rd_secret p m = Some (Some x, F)" and "distinct F"
  shows "\<exists>orig m1. Secret_DeepCopy p m = Some (orig, m1) \<and>
    (case fst (updated_secret cr accessKeyID secretAccessKey userPolicy (secret_of x) t) of
       Return s \<Rightarrow> (\<exists>m2 x' F' G. update_existing_secret p cr accessKeyID secretAccessKey userPolicy m1 = Some ((), m2) \<and>
         rd_secret p m2 = Some (Some x', F') \<and> secret_of x' = s \<and> rd_secret orig m2 = Some (Some x, G))
     | _ \<Rightarrow> update_existing_secret p cr accessKeyID secretAccessKey userPolicy m1 = None)"
proof -
  let ?u = "update_existing_secret p cr accessKeyID secretAccessKey userPolicy"
  let ?v = "update_value cr accessKeyID secretAccessKey userPolicy (secret_of x)"
  obtain orig m1 G where c: "Secret_DeepCopy p m = Some (orig, m1)" "grows m m1"
      "rd_secret orig m1 = Some (Some x, G)" "fresh_tree m m1 G" "rd_secret p m1 = Some (Some x, F)"
    using secret.ptr.independent [OF assms(1,2)] by (auto simp: Secret_DeepCopy_def)
  have loc: "local_reader (rd_secret q)" for q by (simp add: local_intros)
  have step: "step_result p ?u m1 F ?v"
    using update_existing_secret_step grows_wf [OF c(2)] c(5) assms(3) by (rule secret_stepD)
  have disj: "set G \<inter> set F = {}"
    using c(4) local_reader_allocated [OF loc assms(1,2)] by (fastforce simp: fresh_tree_def)
  have val: "fst (updated_secret cr accessKeyID secretAccessKey userPolicy (secret_of x) t) =
      fst (updated_secret cr accessKeyID secretAccessKey userPolicy (secret_of x) [])"
    by (simp add: updated_secret_def set_key_data_def Let_def split: option.split)
  show ?thesis
  proof (cases ?v)
    case None
    with step have "?u m1 = None" by (simp add: step_result_def)
    with None c(1) show ?thesis
      unfolding val by (auto simp: update_value_def split: outcome.splits)
  next
    case (Some s)
    with step obtain m2 x' F' where u: "?u m1 = Some ((), m2)" "grows_except (set F) m1 m2"
        "rd_secret p m2 = Some (Some x', F')" "secret_of x' = s"
      by (auto elim: step_resultE)
    have "rd_secret orig m2 = Some (Some x, G)"
      using loc grows_wf [OF c(2)] c(3) u(2) disj by (rule local_reader_except)
    with Some u c(1) show ?thesis
      unfolding val by (auto simp: update_value_def split: outcome.splits)
  qed
qed

text \<open>A secret with an old key and no annotations.\<close>

definition example_secret_mem :: "cell mem" where
  "example_secret_mem = \<lparr>blocks = (\<lambda>_. None)(
       0 := Some (map CByte ''OLD''),
       1 := Some [CData [(''aws_access_key_id'', Slice 0 0 3 3)]],
       2 := Some [CSecret (zero_Secret\<lparr>msec_Data := Ptr 1 0\<rparr>)]),
     next_block = 3\<rparr>"

lemma example_secret_reads:
  "\<exists>x. rd_secret (Ptr 2 0) example_secret_mem = Some (Some x, [2, 1, 0]) \<and>
     sec_Annotations (secret_of x) = None \<and> vsec_Data x = Some [(''aws_access_key_id'', Some ''OLD'')]"
  by (simp add: example_secret_mem_def rd_ptr_def load_def peek_def as_defs rd_Secret_def
      rd_map_def rd_pair_def rd_ObjectMeta_def rd_slice_def rd_val_def zero_Secret_def zero_ObjectMeta_def
      secret_of_def)

theorem secret_update_keeps_original_witness:
  "\<exists>orig m1 m2 x x' F' G. Secret_DeepCopy (Ptr 2 0) example_secret_mem = Some (orig, m1) \<and>
     update_existing_secret (Ptr 2 0) (sample_cr None) ''AKIA'' ''s3cr3t'' ''p'' m1 = Some ((), m2) \<and>
     rd_secret orig m2 = Some (Some x, G) \<and> map_get (sec_Data (secret_of x)) ''aws_access_key_id'' = Some ''OLD'' \<and>
     rd_secret (Ptr 2 0) m2 = Some (Some x', F') \<and>
     map_get (sec_Data (secret_of x')) ''aws_access_key_id'' = Some ''AKIA''"
proof -
  obtain x where x: "rd_secret (Ptr 2 0) example_secret_mem = Some (Some x, [2, 1, 0])"
      "sec_Annotations (secret_of x) = None" "vsec_Data x = Some [(''aws_access_key_id'', Some ''OLD'')]"
    using example_secret_reads by blast
  have wf: "wf_mem example_secret_mem" by (simp add: wf_mem_def example_secret_mem_def)
  have d: "sec_Data (secret_of x) = Some (fmap_of_list [(''aws_access_key_id'', ''OLD'')])"
    using x(3) by (simp add: secret_of_def data_map_def)
  obtain s where s: "fst (updated_secret (sample_cr None) ''AKIA'' ''s3cr3t'' ''p'' (secret_of x) []) = Return s"
      "map_get (sec_Data s) ''aws_access_key_id'' = Some ''AKIA''"
    using d by (simp add: updated_secret_def set_key_data_def Let_def map_get_def)
  have "map_get (sec_Data (secret_of x)) ''aws_access_key_id'' = Some ''OLD''"
    using d by (simp add: map_get_def fmlookup_of_list)
  moreover from secret_update_keeps_original [OF wf x(1), of "sample_cr None" "''AKIA''" "''s3cr3t''" "''p''" "[]"]
  obtain orig m1 m2 x' F' G where "Secret_DeepCopy (Ptr 2 0) example_secret_mem = Some (orig, m1)"
      "update_existing_secret (Ptr 2 0) (sample_cr None) ''AKIA'' ''s3cr3t'' ''p'' m1 = Some ((), m2)"
      "rd_secret (Ptr 2 0) m2 = Some (Some x', F')" "secret_of x' = s" "rd_secret orig m2 = Some (Some x, G)"
    unfolding s(1) outcome.case by auto
  ultimately show ?thesis using s(2) by blast
qed

end
