(* ===== verification/StatusInvariant.thy ===== *)
theory StatusInvariant
  imports ReconcileOutcome
begin

text \<open>
  An invariant of the stored requests: in the conditions of a request no type occurs twice, and
  every status is True or False. Every request that a reconciliation writes satisfies it when the
  request it read does, whichever actuator runs. The operator's own status relies on the first
  part, since it looks at the first condition of a type only.

  The locale \<open>condition_laws\<close> extends the contract of actuators: the requests an actuator writes and
  hands back satisfy the invariant. All three actuators interpret it.
\<close>

section \<open>The invariant\<close>

definition wf_conditions :: "CredentialsRequestCondition list \<Rightarrow> bool" where
  "wf_conditions cs \<longleftrightarrow> distinct (map cc_Type cs) \<and>
     (\<forall>c \<in> set cs. cc_Status c = ConditionTrue \<or> cc_Status c = ConditionFalse)"

definition wf_request :: "CredentialsRequest \<Rightarrow> bool" where
  "wf_request cr \<longleftrightarrow> wf_conditions (cr_conditions cr)"

lemma update_condition_statuses:
  "(\<And>c. cc_Status (f c) = s) \<Longrightarrow> c \<in> set (update_condition ty f cs) \<Longrightarrow> cc_Status c = s \<or> c \<in> set cs"
  by (induction cs) (auto split: if_splits)

lemma wf_conditions_Set:
  assumes "wf_conditions (conds cs)" "status = ConditionTrue \<or> status = ConditionFalse"
  shows "wf_conditions (conds (SetCredentialsRequestCondition now cs ty status reason message check))"
proof -
  have "cc_Status c = ConditionTrue \<or> cc_Status c = ConditionFalse"
    if "c \<in> set (conds (SetCredentialsRequestCondition now cs ty status reason message check))" for c
    using that assms
    by (auto simp: SetCredentialsRequestCondition_def wf_conditions_def Let_def
        dest!: update_condition_statuses [where s = status, rotated]
        split: option.splits if_splits)
  with assms(1) set_condition_distinct show ?thesis by (auto simp: wf_conditions_def)
qed

lemma wf_request_conds: "wf_request cr \<longleftrightarrow> wf_conditions (conds (Conditions (cr_Status cr)))"
  by (simp add: wf_request_def cr_conditions_def)

lemma wf_setters [simp]:
  assumes "wf_request cr"
  shows "wf_request (setMissingTargetNamespaceCondition now cr b)"
    and "wf_request (setInsufficientCredsCondition now cr b)"
    and "wf_request (setFailedToProvisionCredentialsRequest now cr b err)"
    and "wf_request (setCredentialsDeprovisionFailureCondition now cr b err)"
  using assms
  by (simp_all add: wf_request_conds setter_defs set_Conditions_def wf_conditions_Set)

lemma wf_fields [simp]:
  "wf_request (set_Provisioned b cr) = wf_request cr"
  "wf_request (set_LastSync now g cr) = wf_request cr"
  "wf_request (AddFinalizer cr f) = wf_request cr"
  "wf_request (DeleteFinalizer cr f) = wf_request cr"
  by (simp_all add: wf_request_conds set_Provisioned_def set_LastSync_def AddFinalizer_def
      DeleteFinalizer_def SetFinalizers_def Let_def)

section \<open>Computations that keep it\<close>

definition wf_write :: "event \<Rightarrow> bool" where
  "wf_write ev \<longleftrightarrow> (case ev of
      EvUpdateCR cr _ \<Rightarrow> wf_request cr | EvUpdateCRStatus cr _ \<Rightarrow> wf_request cr | _ \<Rightarrow> True)"

lemma wf_write_quiet: "\<not> cr_write ev \<Longrightarrow> wf_write ev"
  by (cases ev) (simp_all add: wf_write_def)

text \<open>Every request written is well-formed, and the result has the property.\<close>

definition keeps_wf :: "'a io \<Rightarrow> ('a \<Rightarrow> bool) \<Rightarrow> bool" where
  "keeps_wf m Q \<longleftrightarrow> emits wf_write m \<and> yields m Q"

named_theorems wf_intros \<open>computations that write well-formed requests only\<close>

lemma keeps_ret [wf_intros]: "Q x \<Longrightarrow> keeps_wf (ret x) Q"
  by (simp add: keeps_wf_def yields_ret)

lemma keeps_bind:
  "keeps_wf m R \<Longrightarrow> (\<And>x. R x \<Longrightarrow> keeps_wf (f x) Q) \<Longrightarrow> keeps_wf (bind_go m f) Q"
  unfolding keeps_wf_def by (auto intro: emits_bind_yields yields_bind)

lemma keeps_quiet: "emits (\<lambda>ev. \<not> cr_write ev) m \<Longrightarrow> keeps_wf m (\<lambda>_. True)"
  unfolding keeps_wf_def by (auto intro: emits_mono wf_write_quiet yields_True)

lemma keeps_bind_quiet [wf_intros]:
  "emits (\<lambda>ev. \<not> cr_write ev) m \<Longrightarrow> (\<And>x. keeps_wf (f x) Q) \<Longrightarrow> keeps_wf (bind_go m f) Q"
  by (rule keeps_bind [OF keeps_quiet])

lemma keeps_splits [wf_intros]:
  "(b \<Longrightarrow> keeps_wf m Q) \<Longrightarrow> (\<not> b \<Longrightarrow> keeps_wf n Q) \<Longrightarrow> keeps_wf (if b then m else n) Q"
  "(\<And>e. r = Inl e \<Longrightarrow> keeps_wf (f e) Q) \<Longrightarrow> (\<And>x. r = Inr x \<Longrightarrow> keeps_wf (g x) Q) \<Longrightarrow>
     keeps_wf (case r of Inl e \<Rightarrow> f e | Inr x \<Rightarrow> g x) Q"
  "(p = None \<Longrightarrow> keeps_wf m Q) \<Longrightarrow> (\<And>x. p = Some x \<Longrightarrow> keeps_wf (h x) Q) \<Longrightarrow>
     keeps_wf (case p of None \<Rightarrow> m | Some x \<Rightarrow> h x) Q"
  "(\<And>x y. z = (x, y) \<Longrightarrow> keeps_wf (k x y) Q) \<Longrightarrow> keeps_wf (case z of (x, y) \<Rightarrow> k x y) Q"
  by (auto split: sum.split option.split prod.split)

text \<open>The server answers a status update with the object it stored.\<close>

definition answers_wf :: "env \<Rightarrow> bool" where
  "answers_wf E \<longleftrightarrow> (\<forall>t cr cr'. k_update_cr_status (kube E) t cr = Inr cr' \<longrightarrow>
     Conditions (cr_Status cr') = Conditions (cr_Status cr))"

lemma keeps_kUpdateCRStatus:
  "answers_wf E \<Longrightarrow> wf_request cr \<Longrightarrow>
     keeps_wf (kUpdateCRStatus E cr) (\<lambda>r. \<forall>c. r = Inr c \<longrightarrow> wf_request c)"
  unfolding keeps_wf_def
  by (auto intro!: emits_request yields_request simp: wf_write_def answers_wf_def wf_request_conds)

lemma keeps_kUpdateCR: "wf_request cr \<Longrightarrow> keeps_wf (kUpdateCR E cr) (\<lambda>_. True)"
  unfolding keeps_wf_def by (auto intro!: emits_request yields_True simp: wf_write_def)

section \<open>The steps of a reconciliation\<close>

lemma keeps_updateStatus:
  "answers_wf E \<Longrightarrow> wf_request cr \<Longrightarrow> keeps_wf (updateStatus E origCR cr) (\<lambda>r. wf_request (fst r))"
  unfolding updateStatus_def
  by (intro wf_intros keeps_bind [OF keeps_kUpdateCRStatus]) auto

lemma keeps_time [wf_intros]: "(\<And>now. keeps_wf (f now) Q) \<Longrightarrow> keeps_wf (bind_go (time_Now E) f) Q"
  by (rule keeps_bind_quiet) (auto intro!: emits_intros)

lemma keeps_updateActuatorConditions:
  "wf_request cr \<Longrightarrow> keeps_wf (updateActuatorConditions E cr reason err) wf_request"
  unfolding updateActuatorConditions_def Let_def by (intro wf_intros) simp

lemma keeps_finish:
  assumes "answers_wf E" "wf_request cr"
  shows "keeps_wf (finish_reconcile E origCR cr syncErr) (\<lambda>_. True)"
  unfolding finish_reconcile_def Let_def
  by (intro wf_intros keeps_bind [OF keeps_updateActuatorConditions] keeps_bind [OF keeps_updateStatus])
    (simp_all add: assms)

lemma keeps_deletion_steps:
  assumes "answers_wf E" "wf_request cr"
  shows "keeps_wf (deprovision_failed E origCR cr e) (\<lambda>_. True)"
    and "keeps_wf (deprovision_done E origCR cr) (\<lambda>_. True)"
proof -
  show "keeps_wf (deprovision_failed E origCR cr e) (\<lambda>_. True)"
    unfolding deprovision_failed_def
    by (intro wf_intros keeps_bind [OF keeps_updateStatus]) (simp_all add: assms)
  have "emits (\<lambda>ev. \<not> cr_write ev) (delete_target_secret E c)" for c
    unfolding delete_target_secret_def by (intro emits_intros) simp_all
  then show "keeps_wf (deprovision_done E origCR cr) (\<lambda>_. True)"
    unfolding deprovision_done_def removeDeprovisionFinalizer_def
    by (intro wf_intros keeps_bind [OF keeps_updateStatus] keeps_bind [OF keeps_kUpdateCR])
      (simp_all add: assms)
qed

section \<open>Actuators\<close>

locale condition_laws = actuator_laws +
  assumes create_wf: "answers_wf E \<Longrightarrow> wf_request cr \<Longrightarrow> keeps_wf (act_Create A cr) (\<lambda>r. wf_request (fst r))"
    and update_wf: "answers_wf E \<Longrightarrow> wf_request cr \<Longrightarrow> keeps_wf (act_Update A cr) (\<lambda>r. wf_request (fst r))"
begin

lemma keeps_sync:
  assumes "answers_wf E" "wf_request cr"
  shows "keeps_wf (reconcile_sync E A origCR cr) (\<lambda>_. True)"
proof -
  have recent: "emits (\<lambda>ev. \<not> cr_write ev) (hasRecentlySynced E cr)"
    unfolding hasRecentlySynced_def by (intro emits_intros) simp_all
  have exists: "emits (\<lambda>ev. \<not> cr_write ev) (act_Exists A cr)"
    by (rule emits_mono [OF exists_reads]) (simp add: read_only_def)
  have act: "keeps_wf (if b then act_Create A cr else act_Update A cr) (\<lambda>r. wf_request (fst r))" for b
    using create_wf update_wf assms by simp
  show ?thesis
    unfolding reconcile_sync_def Let_def
    by (intro wf_intros recent exists keeps_bind [OF act]) (simp_all add: assms keeps_finish)
qed

lemma keeps_body:
  assumes "answers_wf E" "\<And>t cr. k_get_cr (kube E) t req = Inr cr \<Longrightarrow> wf_request cr"
  shows "keeps_wf (reconcile_body E A req) (\<lambda>_. True)"
proof -
  have get: "keeps_wf (kGetCR E req) (\<lambda>r. \<forall>c. r = Inr c \<longrightarrow> wf_request c)"
    unfolding keeps_wf_def by (auto intro!: emits_request yields_request simp: wf_write_def assms(2))
  have ns: "emits (\<lambda>ev. \<not> cr_write ev) (kGetNamespace E n)" for n by (intro emits_intros) simp
  have del: "emits (\<lambda>ev. \<not> cr_write ev) (act_Delete A cr)" for cr
    by (rule emits_mono [OF delete_calls]) (auto simp: deprovision_event_def read_only_def split: event.splits)
  have "keeps_wf (reconcile_namespace E A cr cr) (\<lambda>_. True)" if "wf_request cr" for cr
    unfolding reconcile_namespace_def
    by (intro wf_intros ns keeps_bind [OF keeps_updateStatus] keeps_sync) (simp_all add: assms(1) that)
  moreover have "keeps_wf (reconcile_deletion E A cr cr) (\<lambda>_. True)" if "wf_request cr" for cr
    unfolding reconcile_deletion_def by (intro wf_intros del keeps_deletion_steps assms(1) that)
  moreover have "keeps_wf (addDeprovisionFinalizer E cr) (\<lambda>_. True)" if "wf_request cr" for cr
    unfolding addDeprovisionFinalizer_def
    by (intro wf_intros keeps_bind [OF keeps_kUpdateCR]) (simp_all add: that)
  ultimately show ?thesis
    unfolding reconcile_body_def by (intro wf_intros keeps_bind [OF get]) simp_all
qed

lemma keeps_Reconcile:
  assumes "answers_wf E" "\<And>t cr. k_get_cr (kube E) t req = Inr cr \<Longrightarrow> wf_request cr"
  shows "emits wf_write (Reconcile E A req)"
  unfolding Reconcile_def
proof (rule emits_defer)
  show "emits wf_write (reconcile_body E A req)" using keeps_body [OF assms] by (simp add: keeps_wf_def)
  show "emits wf_write (bind_go (syncOperatorStatus E) (\<lambda>_. ret ()))"
    by (intro emits_intros emits_syncOperatorStatus) (simp_all add: wf_write_def)
qed

end

interpretation dummy_wf: condition_laws E DummyActuator for E
  by unfold_locales
    (simp_all add: DummyActuator_def DummyActuator_Create_def DummyActuator_Update_def keeps_ret)

interpretation azure_wf: condition_laws E "AzureActuator E" for E
proof unfold_locales
  fix cr
  assume cr: "wf_request cr"
  have "emits (\<lambda>ev. \<not> cr_write ev) (passthrough_Update E cr)" by (rule emits_passthrough) simp_all
  then show "keeps_wf (act_Create (AzureActuator E) cr) (\<lambda>r. wf_request (fst r))"
    and "keeps_wf (act_Update (AzureActuator E) cr) (\<lambda>r. wf_request (fst r))"
    unfolding AzureActuator_def actuator.select_convs passthrough_Create_def
    by (intro wf_intros; simp add: cr)+
qed

lemma keeps_updateProviderStatus:
  assumes "answers_wf E" "wf_request cr"
  shows "keeps_wf (updateProviderStatus E cr st) (\<lambda>r. wf_request (fst r))"
proof -
  have "wf_request (cr\<lparr>cr_Status := s\<rparr>)" if "conds (Conditions s) = conds (Conditions (cr_Status cr))" for s
    using assms(2) that by (simp add: wf_request_conds)
  then show ?thesis
    unfolding updateProviderStatus_def Let_def
    by (intro wf_intros keeps_bind [OF keeps_kUpdateCRStatus]) (auto simp: assms(1) split: option.splits)
qed

lemma keeps_mint_status:
  assumes "answers_wf E" "wf_request cr"
  shows "keeps_wf (mint_status E cr st infraName) (\<lambda>r. wf_request (fst r))"
proof -
  have quiet: "emits (\<lambda>ev. \<not> cr_write ev) (generateUserName E i n)" for i n
    by (intro emits_intros) simp
  have upd: "keeps_wf (bind_go (updateProviderStatus E c st') (\<lambda>(cr, err). case err of
      Some e \<Rightarrow> ret (cr, Inl e) | None \<Rightarrow> ret (cr, Inr st'))) (\<lambda>r. wf_request (fst r))" if "wf_request c" for c st'
    by (intro keeps_bind [OF keeps_updateProviderStatus] wf_intros) (auto simp: assms(1) that)
  show ?thesis
    unfolding mint_status_def Let_def
  proof (rule keeps_bind [where R = "\<lambda>r. wf_request (fst r)"])
    show "keeps_wf (if User st = []
        then bind_go (generateUserName E infraName (cr_Name cr)) (\<lambda>r. case r of
               Inl err \<Rightarrow> ret (cr, Inl err)
             | Inr username \<Rightarrow>
                 bind_go (updateProviderStatus E cr (st\<lparr>User := username, Policy := getPolicyName username\<rparr>))
                   (\<lambda>(cr, err). case err of
                   Some e \<Rightarrow> ret (cr, Inl e)
                 | None \<Rightarrow> ret (cr, Inr (st\<lparr>User := username, Policy := getPolicyName username\<rparr>))))
        else ret (cr, Inr st)) (\<lambda>r. wf_request (fst r))"
      by (intro wf_intros quiet upd) (simp_all add: assms(2))
  qed (auto intro!: wf_intros upd split: sum.splits prod.splits)
qed

lemma keeps_aws_sync:
  assumes "answers_wf E" "wf_request cr"
  shows "keeps_wf (sync E cr) (\<lambda>r. wf_request (fst r))"
proof -
  have ro: "\<not> cr_write ev" if "read_only ev" for ev using that by (simp add: read_only_def)
  have mint: "\<not> cr_write ev" if "mint_event E u ev" for u ev
    using that by (auto simp: mint_event_def read_only_def split: event.splits)
  have quiet: "emits (\<lambda>ev. \<not> cr_write ev) (LoadInfrastructureName E)"
      "emits (\<lambda>ev. \<not> cr_write ev) (needsUpdate E cr i)" "emits (\<lambda>ev. \<not> cr_write ev) (getCloudCredentialsSecret E)"
      "emits (\<lambda>ev. \<not> cr_write ev) (syncPassthrough E cr s)" "emits (\<lambda>ev. \<not> cr_write ev) (aws_DecodeProviderSpec E cr)"
      "emits (\<lambda>ev. \<not> cr_write ev) (mint_rest E c i spec st)" for i s c spec st
    using emits_mono [OF emits_needsUpdate ro] emits_mono [OF emits_mint_rest mint]
    unfolding getCloudCredentialsSecret_def
    by (auto intro!: emits_intros emits_syncPassthrough emits_aws_spec)
  have mint: "keeps_wf (syncMint E cr infraName) (\<lambda>r. wf_request (fst r))" for infraName
    unfolding syncMint_def
    by (intro wf_intros quiet keeps_bind [OF keeps_mint_status]) (auto simp: assms)
  show ?thesis
    unfolding sync_def Let_def
    by (intro wf_intros quiet keeps_bind [OF mint]) (auto simp: assms)
qed

interpretation aws_wf: condition_laws E "AWSActuator E" for E
  by unfold_locales (simp_all add: AWSActuator_def Create_def Update_def keeps_aws_sync)

section \<open>The property\<close>

text \<open>
  C15. The stored requests stay well-formed. Assume that the request which a reconciliation reads
  has no two conditions of a type and only conditions that are True or False, and that the API
  server answers a status update with the conditions it was sent. Then every request that the
  reconciliation writes, its status updates, those of the actuator and the updates of its
  finalizers, has this form too, with each of the three actuators.
\<close>

theorem requests_stay_wellformed:
  assumes "A = DummyActuator \<or> A = AWSActuator E \<or> A = AzureActuator E"
    and "\<And>t cr. k_get_cr (kube E) t req = Inr cr \<Longrightarrow> wf_request cr"
    and "\<And>t cr cr'. k_update_cr_status (kube E) t cr = Inr cr' \<Longrightarrow>
           Conditions (cr_Status cr') = Conditions (cr_Status cr)"
    and "ev \<in> set (snd (Reconcile E A req t))"
    and "ev = EvUpdateCR cr r \<or> ev = EvUpdateCRStatus cr r"
  shows "distinct (map cc_Type (cr_conditions cr)) \<and>
    (\<forall>c \<in> set (cr_conditions cr). cc_Status c = ConditionTrue \<or> cc_Status c = ConditionFalse)"
proof -
  have "answers_wf E" using assms(3) by (simp add: answers_wf_def)
  with assms(1,2) have "emits wf_write (Reconcile E A req)"
    using dummy_wf.keeps_Reconcile aws_wf.keeps_Reconcile azure_wf.keeps_Reconcile by metis
  with assms(4) have "wf_write ev" by (rule emitsD [rotated])
  with assms(5) show ?thesis by (auto simp: wf_write_def wf_request_def wf_conditions_def)
qed

text \<open>A request whose namespace is gone, with a condition it has from before.\<close>

definition conditioned_cr :: CredentialsRequest where
  "conditioned_cr = set_Conditions (\<lambda>_. Some [\<lparr>cc_Type = CredentialsProvisionFailure, cc_Status = ConditionTrue,
     cc_LastProbeTime = 0, cc_LastTransitionTime = 0, cc_Reason = ''r'', cc_Message = ''m''\<rparr>])
     (SetFinalizers (sample_cr None) [FinalizerDeprovision])"

definition lost_namespace_env :: env where
  "lost_namespace_env = sample_env (sample_kube\<lparr>k_get_cr := \<lambda>t n. Inr conditioned_cr,
     k_get_namespace := \<lambda>t n. Some not_found\<rparr>) sample_iam"

lemma conditioned_cr_fields:
  "om_DeletionTimestamp (cr_Meta conditioned_cr) = None" "HasFinalizer conditioned_cr FinalizerDeprovision"
  "wf_request conditioned_cr" "map cc_Type (cr_conditions conditioned_cr) = [CredentialsProvisionFailure]"
  by (simp_all add: conditioned_cr_def set_Conditions_def SetFinalizers_def sample_cr_def HasFinalizer_iff
      GetFinalizers_def empty_ObjectMeta_def wf_request_def wf_conditions_def cr_conditions_def)

lemma lost_namespace_writes:
  "\<exists>cr r. EvUpdateCRStatus cr r \<in> set (snd (Reconcile lost_namespace_env DummyActuator cr_key [])) \<and>
     map cc_Type (cr_conditions cr) = [CredentialsProvisionFailure, MissingTargetNamespace]"
proof -
  let ?E = lost_namespace_env
  let ?cr = "setMissingTargetNamespaceCondition 2 conditioned_cr True"
  have ty: "map cc_Type (cr_conditions ?cr) = [CredentialsProvisionFailure, MissingTargetNamespace]"
    by (simp add: cr_conditions_def setter_defs set_Conditions_def conditioned_cr_def SetCredentialsRequestCondition_def)
  then have "cr_Status ?cr \<noteq> cr_Status conditioned_cr"
    using conditioned_cr_fields(4) by (auto simp: cr_conditions_def)
  then have "EvUpdateCRStatus ?cr (Inr ?cr) \<in> set (snd (reconcile_body ?E DummyActuator cr_key []))"
    using conditioned_cr_fields(1,2)
    by (simp add: reconcile_body_def reconcile_namespace_def lost_namespace_env_def updateStatus_def snd_bind
        bind_request_apply not_found_def sample_host_def)
  with ty show ?thesis by (auto simp: Reconcile_def snd_defer)
qed

theorem requests_stay_wellformed_witness:
  "\<exists>cr r. EvUpdateCRStatus cr r \<in> set (snd (Reconcile lost_namespace_env DummyActuator cr_key [])) \<and>
     map cc_Type (cr_conditions cr) = [CredentialsProvisionFailure, MissingTargetNamespace] \<and>
     distinct (map cc_Type (cr_conditions cr)) \<and>
     (\<forall>c \<in> set (cr_conditions cr). cc_Status c = ConditionTrue \<or> cc_Status c = ConditionFalse)"
proof -
  obtain cr r where ev: "EvUpdateCRStatus cr r \<in> set (snd (Reconcile lost_namespace_env DummyActuator cr_key []))"
      "map cc_Type (cr_conditions cr) = [CredentialsProvisionFailure, MissingTargetNamespace]"
    using lost_namespace_writes by (elim exE conjE)
  have wf: "wf_request c" if "k_get_cr (kube lost_namespace_env) t cr_key = Inr c" for t c
    using that conditioned_cr_fields(3) by (simp add: lost_namespace_env_def)
  have ans: "Conditions (cr_Status c') = Conditions (cr_Status c)"
    if "k_update_cr_status (kube lost_namespace_env) t c = Inr c'" for t c c'
    using that by (simp add: lost_namespace_env_def)
  have "distinct (map cc_Type (cr_conditions cr)) \<and>
      (\<forall>c \<in> set (cr_conditions cr). cc_Status c = ConditionTrue \<or> cc_Status c = ConditionFalse)"
    by (rule requests_stay_wellformed [OF _ wf ans ev(1)]) simp_all
  with ev show ?thesis by (intro exI conjI) simp_all
qed

end
