(* ===== verification/Spec2Isabelle.thy ===== *)
theory Spec2Isabelle
  imports Prelude GoLib ApiTypes ApiScheme World AwsClient Conditions ClusterOperatorUtil OperatorStatus
    CloudUtils SecretAnnotator ActuatorIface AwsPolicy AwsActuator AwsSync AwsOrder AwsModes AwsReturns
    AzureActuator CredentialsRequestController ReconcileSafety ReconcileOutcome Watches
    WorkQueue InternalController ControllerManager GoMemory ApiMemory DeepCopy
    ConditionMemory SecretMemory StatusInvariant
begin

text \<open>
  \<^bold>\<open>The cloud credential operator.\<close>

  The operator gives the components of an OpenShift cluster their cloud credentials. A component asks
  with a \<open>CredentialsRequest\<close>; the operator provisions credentials for it in the cloud and stores
  them in the secret the request names. This library models the operator as it is at the modelled
  commit, from \<open>main\<close> down to the calls it makes on the Kubernetes API and on AWS IAM, and proves
  what it guarantees. Paths below are relative to \<open>src/\<close>.

  \<^bold>\<open>Parts, and how they interact.\<close> The process (\<open>cmd/manager/main.go\<close>, \<open>pkg/controller/controller.go\<close>) registers
  the API types with the manager's scheme (\<open>pkg/apis\<close>), finds the platform and adds two controllers to a manager. The secret annotator
  (\<open>pkg/controller/secretannotator\<close>) looks at the root AWS credentials, asks IAM what they permit
  (\<open>pkg/controller/utils/utils.go\<close>) and writes the mode (mint, passthrough, insufficient) on the root
  secret. The credentials request controller (\<open>pkg/controller/credentialsrequest\<close>) reconciles
  requests: it keeps a finalizer on them, checks the target namespace, calls an actuator, records the
  outcome in the request's status, and finally reports on itself in a ClusterOperator resource
  (\<open>status.go\<close>, \<open>pkg/util/clusteroperator\<close>). The actuator is the interface to a cloud:
  \<open>pkg/aws/actuator\<close> creates IAM users or copies the root keys, \<open>pkg/azure\<close> copies the root secret, and
  a dummy does nothing. Each controller runs on a work queue that its watches fill
  (\<open>pkg/controller/internalcontroller\<close>, \<open>k8s.io/client-go/util/workqueue\<close>).

  \<^bold>\<open>How code is modelled.\<close> A Go function that calls the outside world is a computation \<open>'a io\<close>
  (\<open>Prelude\<close>, \<open>World\<close>): from the history of all calls so far it gives an outcome (a value, a panic, or
  not coming back) and the calls it makes. The outside world is a parameter \<open>env\<close>: for every history
  and every call, the API server (\<open>kube_api\<close>), IAM (\<open>iam_api\<close>), the process (\<open>host\<close>: clock, random
  source, texts of times and pointers) and the codec (\<open>ProviderCodec\<close>) have an answer. A theorem over all environments
  therefore covers every sequence of answers, failures included. Where a theorem relies on documented
  behaviour of the outside (a read after a write, an IAM that simulates policies faithfully), that is
  a named hypothesis. Errors are values of \<open>gerror\<close>, \<open>nil\<close> is \<open>None\<close>, dereferencing it panics, a \<open>nil\<close> map is
  distinct from an empty one, \<open>defer\<close> is \<open>defer_go\<close>. Pointers that are written through are returned
  updated, and the request that was read is carried beside the one that is changed, as in the code.

  \<^bold>\<open>Theories.\<close>
  \<^item> \<open>Prelude\<close>: computations, their laws, and four small logics over them: which calls are made
    (\<open>emits\<close>), in which order (\<open>ordered\<close>), what is returned (\<open>yields\<close>, \<open>post_go\<close>), that it returns
    (\<open>always_returns\<close>); rule collections for each.
  \<^item> \<open>GoLib\<close>: library routines the operator computes with: string splitting and escaping, the texts
    \<open>fmt\<close> prints, string sets, the namespace key, ARNs, the random suffix.
  \<^item> \<open>ApiTypes\<close>: the resources and provider types of \<open>pkg/apis\<close>, with the codec's wrapper.
  \<^item> \<open>World\<close>: the calls, the environment, the generated \<open>String\<close> methods of a secret and its metadata (a
    printed secret shows its data), and a sample environment for concrete runs.
  \<^item> \<open>Conditions\<close> (\<open>condition_utils.go\<close>), \<open>ClusterOperatorUtil\<close> (\<open>clusteroperator/status.go\<close>) and
    \<open>OperatorStatus\<close> (\<open>credentialsrequest/status.go\<close>): condition lists behave as maps from types to
    conditions, the comparison decides equality up to order, the reported status means what it says
    and is rewritten only on a change.
  \<^item> \<open>CloudUtils\<close> (\<open>utils.go\<close>) and \<open>SecretAnnotator\<close>: the permission check decides, the annotator records
    the mode and changes nothing else.
  \<^item> \<open>ActuatorIface\<close> (\<open>actuator.go\<close>): the interface as a record of operations, its contract as the locale
    \<open>actuator_laws\<close>: which calls each operation may make, and that a secret it writes is the target
    of the request and refers back to it. The dummy, AWS (\<open>AwsSync\<close>) and Azure (\<open>AzureActuator\<close>)
    actuators interpret it; what is proved of the controller in the locale holds for all three.
  \<^item> \<open>AwsClient\<close>, \<open>AwsPolicy\<close>, \<open>AwsActuator\<close>: \<open>pkg/aws\<close>. \<open>AwsSync\<close> classifies the calls (only the root keys
    ever change IAM), \<open>AwsOrder\<close> orders them (a name is stored before its user exists, old keys go
    before a new one, and a deletion removes the policy, the keys and the user in this order),
    \<open>AwsModes\<close> has the outcome per mode (the target secret holds the root keys, or a key that is
    live) and drift detection (which requests are settled, and that these cause no write), \<open>AwsReturns\<close> what the actuator needs to come back.
  \<^item> \<open>AzureActuator\<close>: \<open>pkg/azure\<close>.
  \<^item> \<open>CredentialsRequestController\<close>: \<open>Reconcile\<close> with its steps. \<open>ReconcileSafety\<close>: when credentials may be
    written and when the finalizer may go. \<open>ReconcileOutcome\<close>: what each outcome records, and
    that a reconcile comes back. \<open>StatusInvariant\<close>: every request that is written has well-formed
    conditions, from an extension of the actuators' contract.
  \<^item> \<open>Watches\<close>: predicates, map functions and handlers of the watches; a written secret leads back
    to its request.
  \<^item> \<open>WorkQueue\<close>: the queue, its interface as the locale \<open>work_queue\<close> over an abstract machine, and the
    refinement. \<open>InternalController\<close>: rate limiter, delaying queue, worker, and their interleavings as
    an inductive step relation; no request is lost.
  \<^item> \<open>GoMemory\<close>, \<open>ApiMemory\<close>, \<open>DeepCopy\<close>, \<open>ConditionMemory\<close>, \<open>SecretMemory\<close>: the places where sharing of mutable objects
    matters, with an explicit memory of blocks, pointers and slices. The contract of a deep copy is
    the locale \<open>deep_copier\<close>, closed under pointers and slices (\<open>cell_copier\<close>), and every type of
    \<open>zz_generated.deepcopy.go\<close> interprets it: a copy is a tree of new blocks that denotes the same
    value. The condition utilities, which write through pointers into a slice, refine their
    versions on lists, and on a copy they leave the original alone; so does the in-place update of
    a target secret, whose original is kept as a copy. This is why the other theories may work
    with immutable values.
  \<^item> \<open>ApiScheme\<close>: registration of the API types with a scheme (\<open>pkg/apis\<close>, \<open>register.go\<close>, \<open>NewScheme\<close> of \<open>codec.go\<close>
    and the library functions they run). The locale \<open>registration\<close> is the contract of a step that
    adds kinds; it is closed under sequencing, and the packages \<open>cloudcredential/v1\<close> and
    \<open>openshift/api/config/v1\<close> interpret it. \<open>World\<close> takes the codec's scheme from it, \<open>ControllerManager\<close> the
    manager's.
  \<^item> \<open>ControllerManager\<close>: \<open>main\<close>; what runs is what the other theories verify.
  \<^item> This theory: properties that cross components.

  \<^bold>\<open>Bounds.\<close> No definition needs fuel. The only loop that may run for ever, the rejection sampling of the
  random suffix, is a \<open>partial_function\<close>: on a source that never yields a usable letter it does not
  come back (\<open>Diverged\<close>), and it is proved to return when every word drawn holds one. Random words
  are 64 bits wide. Times are integers in nanoseconds. The work queue's delay is computed with
  Go's conversion from floating point written out, which matters only at \<open>2 ^ 63\<close>. The number of
  failures of an item is not bounded (an \<open>int\<close> in Go), and neither is the channel of the delaying
  queue, where the source has 1000 places and a sender waits for the next one: what it can do there
  is one of the interleavings considered. Whether an SDK session can be opened depends on the keys
  only. A \<open>nil\<close> and an empty value of a data entry are the same.

  \<^bold>\<open>Not modelled.\<close> Log lines, metrics and the flag library (what it makes of the command line is a field of
  the startup parameter); the generated mock (\<open>pkg/aws/mock\<close>), which only the unit tests use; the
  constant of \<open>version.go\<close>; the serializer, whose encoding is the parameter \<open>ProviderCodec\<close>; of the
  vendored \<open>runtime.Scheme\<close> what registration does not touch (conversion, defaulting, field labels);
  the caches, informers and HTTP clients of the vendored libraries, which are behind the
  environment.
\<close>

section \<open>Insufficient credentials, end to end\<close>

lemma reports_failing:
  assumes "reports_condition c ty reason msg"
    and "ty \<in> {InsufficientCloudCredentials, MissingTargetNamespace, CredentialsProvisionFailure, CredentialsDeprovisionFailure}"
  shows "failing c"
proof -
  from assms(1) obtain x where x: "FindCredentialsRequestCondition (cr_conditions c) ty = Some x" "cc_Status x = ConditionTrue"
    by (auto simp: reports_condition_def)
  have "foundFailure c failureConditionTypes"
    using x assms(2) by (auto simp: foundFailure_iff failureConditionTypes_def)
  then show ?thesis by (simp add: foundFailure_failing)
qed

lemma failing_reported:
  assumes "failing c" "c \<in> set crs" "distinct (map oc_Type cs)"
  shows "map_option oc_Status (cond_map (computeStatusConditions n1 n2 n3 cs crs) OperatorFailing) = Some ConditionTrue"
  using assms by (auto simp: computeStatusConditions_map failing_condition_status foundFailure_failing)

text \<open>The AWS actuator on a request it has never provisioned.\<close>

lemma aws_fresh:
  assumes "ProviderStatus (cr_Status cr) = None"
  shows "act_Exists (AWSActuator E) cr t = (Return (Inr False), [])"
    and "needsUpdate E cr infraName t = (Return (Inr True), [])"
    and "act_Create (AWSActuator E) cr t = sync E cr t"
  using assms
  by (simp_all add: AWSActuator_def Create_def needsUpdate_def Exists_def aws_DecodeProviderStatus_def empty_AWSProviderStatus_def)

lemma live_cr_ProviderStatus [simp]:
  "ProviderStatus (cr_Status (live_cr E req t cr)) = ProviderStatus (cr_Status cr)"
  by (simp add: live_cr_def setter_defs set_Conditions_def)

lemma aws_answers_insufficient:
  assumes "ProviderStatus (cr_Status cr) = None" and "infrastructure_loads E n"
    and "\<And>w. k_get_secret (kube E) (t @ w) root_creds_key = Inr s"
    and "map_get (sec_Annotations s) AnnotationKey = Some InsufficientAnnotation"
  obtains msg where "actuator_answers (AWSActuator E) cr t cr (Some (ActuatorError InsufficientCloudCredentials msg))"
proof -
  from assms(2) obtain i where "k_get_infrastructure (kube E) t ''cluster'' = Inr i"
    by (auto simp: infrastructure_loads_def)
  then have "LoadInfrastructureName E t = (Return (Inr (InfrastructureName i)), [EvGetInfrastructure ''cluster'' (Inr i)])"
    by (simp add: LoadInfrastructureName_def try_go_def bind_request_apply)
  from sync_insufficient [OF this aws_fresh(2) [OF assms(1)] _ assms(4)] assms(3)
  obtain msg where "fst (sync E cr t) = Return (cr, Some (ActuatorError InsufficientCloudCredentials msg))" by auto
  then have "actuator_answers (AWSActuator E) cr t cr (Some (ActuatorError InsufficientCloudCredentials msg))"
    unfolding actuator_answers_def aws_fresh(1) [OF assms(1)]
    by (intro exI [of _ False] exI [of _ "[]"] exI [of _ "snd (sync E cr t)"]) (simp add: aws_fresh(3) [OF assms(1)] prod_eq_iff)
  then show thesis by (rule that)
qed

lemma live_request_kube: "kube E = kube E' \<Longrightarrow> live_request E' req t cr \<Longrightarrow> live_request E req t cr"
  by (simp add: live_request_def)

lemma status_left:
  assumes "P \<and> fst X = Return (Some e) \<or>
    (\<exists>pre r. snd X = pre @ [f r] \<and> fst X = Return (case r of Inl e' \<Rightarrow> Some e' | Inr _ \<Rightarrow> Some e))"
  shows "P \<or> (\<exists>r. last (snd X) = f r)" "\<exists>err. fst X = Return (Some err)"
proof -
  show "P \<or> (\<exists>r. last (snd X) = f r)" using assms by (metis last_snoc)
  show "\<exists>err. fst X = Return (Some err)" using assms by (elim disjE exE conjE) (auto split: sum.splits)
qed

text \<open>
  C16. Insufficient credentials come to light, from the annotator to the operator's own status. On
  AWS, let the annotator look at root credentials that belong to a plain user and permit neither
  minting nor passthrough, and let later reads see what it stored. Then reconciling a request
  that was never provisioned and is due fails, the status it leaves says not provisioned with
  \<open>InsufficientCloudCreds\<close> True and its documented text, and every operator status computed from a
  list that has this request, over stored conditions with one condition per type, says \<open>Failing\<close>.
\<close>

theorem insufficient_credentials_reported:
  assumes "k_get_secret (kube E) t root_creds_key = Inr s"
    and "map_get (sec_Data s) AwsAccessKeyName = Some a" "map_get (sec_Data s) AwsSecretAccessKeyName = Some k"
    and infra: "infrastructure_loads E n" and "NewClient E a k n = Inr c"
    and "iam_caller E c u False" and "iam_simulates E c u permits"
    and denied: "\<not> list_all permits credMintingActions" "\<not> list_all permits credPassthroughActions"
    and ann: "ReconcileCloudCredSecret_Reconcile E root_creds_key t = (Return None, es)"
    and stored: "\<And>s' w. EvUpdateSecret s' None \<in> set es \<Longrightarrow> k_get_secret (kube E) (t @ es @ w) root_creds_key = Inr s'"
    and live: "live_request E req (t @ es @ w) cr" and due: "sync_due cr (sync_time E req (t @ es @ w) cr)"
    and new: "ProviderStatus (cr_Status cr) = None"
  shows "\<exists>c. \<not> Provisioned (cr_Status c) \<and> reports_condition c InsufficientCloudCredentials ''CloudCredsInsufficient''
      ''cloud creds are insufficient to satisfy CredentialsRequest'' \<and>
    (cr_Status c = cr_Status cr \<or>
     (\<exists>r. last (snd (reconcile_body E (AWSActuator E) req (t @ es @ w))) = EvUpdateCRStatus c r)) \<and>
    (\<exists>err. fst (reconcile_body E (AWSActuator E) req (t @ es @ w)) = Return (Some err)) \<and>
    (\<forall>crs cs n1 n2 n3. c \<in> set crs \<and> distinct (map oc_Type cs) \<longrightarrow> map_option oc_Status
       (cond_map (computeStatusConditions n1 n2 n3 cs crs) OperatorFailing) = Some ConditionTrue)"
proof -
  let ?A = "AWSActuator E" let ?t = "t @ es @ w" let ?s = "annotated s InsufficientAnnotation"
  obtain pre where "ReconcileCloudCredSecret_Reconcile E root_creds_key t = (let s' = annotated s (mode_for False permits);
       err = k_update_secret (kube E) (t @ pre) s' in (Return err, pre @ [EvUpdateSecret s' err]))"
    by (rule annotator_run [OF assms(1-7)])
  with ann denied have "EvUpdateSecret ?s None \<in> set es" by (auto simp: mode_for_def Let_def)
  from stored [OF this] have root: "k_get_secret (kube E) (sync_start E req ?t cr @ x) root_creds_key = Inr ?s" for x
    by (simp add: sync_start_def)
  have fresh: "ProviderStatus (cr_Status (live_cr E req ?t cr)) = None" using new by (simp only: live_cr_ProviderStatus)
  obtain msg where "actuator_answers ?A (live_cr E req ?t cr) (sync_start E req ?t cr) (live_cr E req ?t cr)
      (Some (ActuatorError InsufficientCloudCredentials msg))"
    by (rule aws_answers_insufficient [OF fresh infra root]) simp
  from reconcile_failure [OF live due this] obtain c where c: "\<not> Provisioned (cr_Status c)"
    "reports_condition c InsufficientCloudCredentials ''CloudCredsInsufficient''
       ''cloud creds are insufficient to satisfy CredentialsRequest''"
    "cr_Status c = cr_Status cr \<and> fst (reconcile_body E ?A req ?t) = Return (Some (ActuatorError InsufficientCloudCredentials msg)) \<or>
     (\<exists>pre r. snd (reconcile_body E ?A req ?t) = pre @ [EvUpdateCRStatus c r] \<and> fst (reconcile_body E ?A req ?t) =
        Return (case r of Inl e \<Rightarrow> Some e | Inr _ \<Rightarrow> Some (ActuatorError InsufficientCloudCredentials msg)))"
    unfolding if_P [OF refl] by blast
  have "failing c" by (rule reports_failing [OF c(2)]) simp
  with failing_reported have "\<forall>crs cs n1 n2 n3. c \<in> set crs \<and> distinct (map oc_Type cs) \<longrightarrow> map_option oc_Status
       (cond_map (computeStatusConditions n1 n2 n3 cs crs) OperatorFailing) = Some ConditionTrue" by blast
  with c status_left [OF c(3)] show ?thesis by blast
qed


text \<open>A root secret that carries the mode already, and an IAM that permits nothing to a plain user.\<close>

definition denying_iam :: iam_api where
  "denying_iam = sample_iam\<lparr>
     i_get_user := \<lambda>t c u. Inr (Some ((sample_user ''plain'')\<lparr>iu_UserId := Some ''AIDA''\<rparr>)),
     i_simulate_principal_policy := \<lambda>t c arn acts. Inr (map (\<lambda>a.
        \<lparr>er_EvalActionName = Some a, er_EvalDecision = Some ''implicitDeny''\<rparr>) acts)\<rparr>"

definition denied_env :: env where
  "denied_env = (held_env None (\<lambda>n. if n = root_creds_key then Inr (annotated aws_creds_secret InsufficientAnnotation)
     else Inl not_found))\<lparr>iam := denying_iam\<rparr>"

lemma denying_simulates: "iam E = denying_iam \<Longrightarrow> iam_simulates E c u (\<lambda>_. False)"
  by (simp add: iam_simulates_def simulation_of_def denying_iam_def list_all2_map2 list.rel_refl)

lemma denying_caller:
  "iam E = denying_iam \<Longrightarrow> iam_caller E c ((sample_user ''plain'')\<lparr>iu_UserId := Some ''AIDA''\<rparr>) False"
  by (simp add: iam_caller_def denying_iam_def sample_user_def arn_Parse_def)

lemma annotated_twice: "annotated (annotated s v) v = annotated s v"
  by (simp add: annotated_def set_sec_Annotations_def)

theorem insufficient_credentials_reported_witness:
  "\<exists>es c. reports_condition c InsufficientCloudCredentials ''CloudCredsInsufficient''
     ''cloud creds are insufficient to satisfy CredentialsRequest'' \<and>
   (\<exists>err. fst (reconcile_body denied_env (AWSActuator denied_env) cr_key es) = Return (Some err))"
proof -
  let ?s = "annotated aws_creds_secret InsufficientAnnotation"
  let ?c = "\<lparr>cl_AccessKeyID = ''AKROOT'', cl_SecretAccessKey = ''xyz'', cl_InfraName = ''infra''\<rparr>"
  have iam: "iam denied_env = denying_iam" by (simp add: denied_env_def)
  have root: "k_get_secret (kube denied_env) t root_creds_key = Inr ?s" for t by (simp add: denied_env_def)
  have keys: "map_get (sec_Data ?s) AwsAccessKeyName = Some ''AKROOT''" "map_get (sec_Data ?s) AwsSecretAccessKeyName = Some ''xyz''"
    by (simp_all add: AwsAccessKeyName_def AwsSecretAccessKeyName_def)
  have infra: "infrastructure_loads denied_env ''infra''" "NewClient denied_env ''AKROOT'' ''xyz'' ''infra'' = Inr ?c"
    by (simp_all add: denied_env_def held_env_def infrastructure_loads_def NewClient_def)
  have update: "k_update_secret (kube denied_env) t x = None" for t x by (simp add: denied_env_def held_env_def sample_defs)
  have denied: "\<not> list_all (\<lambda>_. False) credMintingActions" "\<not> list_all (\<lambda>_. False) credPassthroughActions"
    by (simp_all add: credMintingActions_def credPassthroughActions_def)
  obtain pre where pre: "\<forall>ev \<in> set pre. read_only ev" and
    eq: "ReconcileCloudCredSecret_Reconcile denied_env root_creds_key [] = (let s' = annotated ?s (mode_for False (\<lambda>_. False));
       err = k_update_secret (kube denied_env) ([] @ pre) s' in (Return err, pre @ [EvUpdateSecret s' err]))"
    by (rule annotator_run [OF root keys infra denying_caller [OF iam] denying_simulates [OF iam]])
  let ?es = "pre @ [EvUpdateSecret ?s None]"
  have ann: "ReconcileCloudCredSecret_Reconcile denied_env root_creds_key [] = (Return None, ?es)"
    using denied by (simp add: eq update mode_for_def Let_def annotated_twice)
  have stored: "k_get_secret (kube denied_env) ([] @ ?es @ w) root_creds_key = Inr s'"
    if "EvUpdateSecret s' None \<in> set ?es" for s' w using that pre by (auto simp: root)
  have live: "live_request denied_env cr_key t (held_cr None)" for t
    by (rule live_request_kube [OF _ held_live]) (simp add: denied_env_def)
  have "ProviderStatus (cr_Status (held_cr None)) = None" by (simp add: held_cr_def SetFinalizers_def)
  from insufficient_credentials_reported [OF root keys infra denying_caller [OF iam] denying_simulates [OF iam] denied ann
      stored live held_due(1) this]
  show ?thesis by blast
qed

section \<open>A credential in a status\<close>

text \<open>
  C35. On Azure, a root secret without the mode annotation ends up in the status of every live
  request that is due and whose check for existing credentials gives an answer: the condition \<open>CredentialsProvisionFailure\<close> it is left with has a message
  that contains the printed root secret, and with it every entry of the secret's data, the key
  followed by the decimal values of the bytes, from which the value can be read back.
\<close>

theorem azure_condition_shows_secret:
  assumes "live_request E req t cr" "sync_due cr (sync_time E req t cr)"
    and ex: "act_Exists (AzureActuator E) (live_cr E req t cr) (sync_start E req t cr) = (Return (Inr b), es)"
    and root: "k_get_secret (kube E) (sync_start E req t cr @ es) RootSecretKey = Inr s" "\<not> HasAnnotation s"
  shows "\<exists>c msg. reports_condition c CredentialsProvisionFailure ''CredentialsProvisionFailure'' msg \<and>
    msg = ''failed to grant creds: cannot proceed without cloud cred secret annotation '' @ Secret_String (proc E) s \<and>
    (\<forall>k v. map_get (sec_Data s) k = Some v \<longrightarrow> (\<exists>pre post. msg = pre @ k @ '': '' @ fmt_bytes v @ '','' @ post)) \<and>
    inj fmt_bytes \<and>
    (cr_Status c = cr_Status cr \<or>
     (\<exists>r. last (snd (reconcile_body E (AzureActuator E) req t)) = EvUpdateCRStatus c r))"
proof -
  let ?A = "AzureActuator E" let ?t = "sync_start E req t cr @ es" let ?c = "live_cr E req t cr"
  let ?msg = "''cannot proceed without cloud cred secret annotation '' @ Secret_String (proc E) s"
  let ?full = "''failed to grant creds: '' @ ?msg"
  have shown: "\<exists>pre post. ?full = pre @ k @ '': '' @ fmt_bytes v @ '','' @ post" if "map_get (sec_Data s) k = Some v" for k v
  proof -
    from Secret_String_shows_data [OF that, of "proc E"] obtain pre post where
      "Secret_String (proc E) s = pre @ (k @ '': '' @ fmt_bytes v @ '','') @ post" by (auto simp: sublist_def)
    then show ?thesis
      by (intro exI [of _ "''failed to grant creds: cannot proceed without cloud cred secret annotation '' @ pre"]
          exI [of _ post]) simp
  qed
  have "fst (passthrough_Update E ?c ?t) = Return (Some (ActuatorError CredentialsProvisionFailure ?msg))"
    by (simp add: passthrough_Update_def clientWrapper_RootSecret_def clientWrapper_Secret_def try_go_def bind_assoc
        bind_request_apply root)
  then have "fst ((if \<not> b then act_Create ?A ?c else act_Update ?A ?c) ?t) =
      Return (?c, Some (ActuatorError CredentialsProvisionFailure ?msg))"
    by (simp add: AzureActuator_def passthrough_Create_def fst_bind)
  then have "actuator_answers ?A ?c (sync_start E req t cr) ?c (Some (ActuatorError CredentialsProvisionFailure ?msg))"
    unfolding actuator_answers_def using ex by (metis prod.collapse)
  from reconcile_failure [OF assms(1,2) this] obtain c where
    c: "reports_condition c CredentialsProvisionFailure ''CredentialsProvisionFailure'' ?full" and
    left: "cr_Status c = cr_Status cr \<and> fst (reconcile_body E ?A req t) = Return (Some (ActuatorError CredentialsProvisionFailure ?msg)) \<or>
     (\<exists>pre r. snd (reconcile_body E ?A req t) = pre @ [EvUpdateCRStatus c r] \<and> fst (reconcile_body E ?A req t) =
        Return (case r of Inl e \<Rightarrow> Some e | Inr _ \<Rightarrow> Some (ActuatorError CredentialsProvisionFailure ?msg)))"
    unfolding if_P [OF refl] by blast
  from c status_left(1) [OF left] shown inj_fmt_bytes show ?thesis
    by (intro exI [of _ c] exI [of _ ?full] conjI) simp_all
qed

text \<open>A cluster whose Azure root secret has no annotation, and the text of its value in the status.\<close>

definition leaked_secret :: Secret where
  "leaked_secret = empty_Secret\<lparr>sec_Data := Some (fmupd AzureClientSecret ''hunter2'' fmempty)\<rparr>"

definition leaking_env :: env where
  "leaking_env = held_env None (\<lambda>n. Inr leaked_secret)"

lemma hunter2_bytes: "fmt_bytes ''hunter2'' = ''[104 117 110 116 101 114 50]''"
  by code_simp

theorem azure_condition_shows_secret_witness:
  "\<exists>c r msg pre post. last (snd (reconcile_body leaking_env (AzureActuator leaking_env) cr_key [])) = EvUpdateCRStatus c r \<and>
     reports_condition c CredentialsProvisionFailure ''CredentialsProvisionFailure'' msg \<and>
     msg = pre @ ''azure_client_secret: [104 117 110 116 101 114 50],'' @ post"
proof -
  let ?E = leaking_env let ?cr = "held_cr None" let ?s = leaked_secret
  have live: "live_request ?E cr_key [] ?cr" unfolding leaking_env_def by (rule held_live)
  have st: "ProviderStatus (cr_Status ?cr) = None" "ProviderSpec (cr_Spec (live_cr ?E cr_key [] ?cr)) = Some ''spec''"
    by (simp_all add: held_cr_def SetFinalizers_def live_cr_def setter_defs set_Conditions_def)
  have "newRequest ?E (live_cr ?E cr_key [] ?cr) u = (Return (Inr \<lparr>req_CredentialsRequest = live_cr ?E cr_key [] ?cr,
      AzureSpec = \<lparr>azure_spec_TypeMeta = empty_TypeMeta, RoleBindings = None\<rparr>, AzureStatus = empty_AzureProviderStatus\<rparr>), [])" for u
    using st by (simp add: newRequest_def DecodeProviderStatus_def DecodeProviderSpec_def leaking_env_def held_env_def
        sample_codec_def try_go_def prod_eq_iff fst_bind snd_bind)
  then have ex: "act_Exists (AzureActuator ?E) (live_cr ?E cr_key [] ?cr) (sync_start ?E cr_key [] ?cr) = (Return (Inr False), [])"
    by (simp add: AzureActuator_def base_Exists_def try_go_def prod_eq_iff fst_bind snd_bind empty_AzureProviderStatus_def)
  have root: "k_get_secret (kube ?E) (sync_start ?E cr_key [] ?cr @ []) RootSecretKey = Inr ?s" by (simp add: leaking_env_def)
  have ann: "\<not> HasAnnotation ?s" by (simp add: HasAnnotation_def leaked_secret_def empty_Secret_def empty_ObjectMeta_def)
  from azure_condition_shows_secret [OF live held_due(1) ex root ann] obtain c msg where
    c: "reports_condition c CredentialsProvisionFailure ''CredentialsProvisionFailure'' msg" and
    data: "\<And>k v. map_get (sec_Data ?s) k = Some v \<Longrightarrow> \<exists>pre post. msg = pre @ k @ '': '' @ fmt_bytes v @ '','' @ post" and
    left: "cr_Status c = cr_Status ?cr \<or>
      (\<exists>r. last (snd (reconcile_body ?E (AzureActuator ?E) cr_key [])) = EvUpdateCRStatus c r)" by blast
  have "cr_Status c \<noteq> cr_Status ?cr" using c held_cr_status(2) [of None] by (auto simp: reports_condition_def cr_conditions_def)
  moreover have "\<exists>pre post. msg = pre @ ''azure_client_secret'' @ '': '' @ fmt_bytes ''hunter2'' @ '','' @ post"
    by (rule data) (simp add: leaked_secret_def AzureClientSecret_def)
  ultimately show ?thesis using c left by (auto simp: hunter2_bytes)
qed

end
